theory Spec2Isabelle
  imports Main "HOL-Library.Word"
begin

unbundle bit_operations_syntax

section \<open>Machine types and constants of policy\_labeler.go\<close>

type_synonym u8 = "8 word"
type_synonym u16 = "16 word"
type_synonym u32 = "32 word"
type_synonym u64 = "64 word"

definition ANY_GROUP :: u32 where "ANY_GROUP = 0"
definition ANY_PROTO :: u8 where "ANY_PROTO = 0"
definition ANY_PORT :: u16 where "ANY_PORT = 0"

section \<open>Key codec of the rule compiler\<close>

text \<open>
  The loops of \<open>generateGroupPortKeys\<close>: the running \<open>key\<close> and the slice \<open>keys\<close> are
  the loop state. Every round ORs the two group ids into \<open>key\<close>, appends it, and
  clears the low forty bits again.
\<close>

fun port_dst_loop :: "u64 \<Rightarrow> u32 list \<Rightarrow> u64 \<times> u64 list \<Rightarrow> u64 \<times> u64 list" where
  "port_dst_loop srcId [] st = st"
| "port_dst_loop srcId (dst # ds) (key, keys) =
     (let dstId = (ucast (dst AND 0xfffff) :: u64);
          key1 = key OR (push_bit 20 srcId OR dstId);
          keys1 = keys @ [key1];
          key2 = key1 AND 0xffffff0000000000
      in port_dst_loop srcId ds (key2, keys1))"

fun port_src_loop :: "u32 list \<Rightarrow> u32 list \<Rightarrow> u64 \<times> u64 list \<Rightarrow> u64 \<times> u64 list" where
  "port_src_loop [] dstGroups st = st"
| "port_src_loop (src # ss) dstGroups st =
     (let srcId = (ucast (src AND 0xfffff) :: u64)
      in port_src_loop ss dstGroups (port_dst_loop srcId dstGroups st))"

definition generateGroupPortKeys :: "u32 list \<Rightarrow> u32 list \<Rightarrow> u16 \<Rightarrow> u8 \<Rightarrow> u64 list" where
  "generateGroupPortKeys srcGroups dstGroups port proto =
     (let key = push_bit 40 (ucast port :: u64) OR push_bit 56 (ucast proto :: u64);
          srcGroups1 = (if length srcGroups = 0 then srcGroups @ [ANY_GROUP] else srcGroups);
          dstGroups1 = (if length dstGroups = 0 then dstGroups @ [ANY_GROUP] else dstGroups)
      in snd (port_src_loop srcGroups1 dstGroups1 (key, [])))"

definition generateSearchPortKeys :: "u32 list \<Rightarrow> u32 list \<Rightarrow> u16 \<Rightarrow> u8 \<Rightarrow> u64 list" where
  "generateSearchPortKeys srcGroups dstGroups port proto =
     (let keys = generateGroupPortKeys srcGroups dstGroups port proto;
          keys1 = (if port \<noteq> 0
                   then keys @ generateGroupPortKeys srcGroups dstGroups ANY_PORT proto
                   else keys);
          keys2 = (if proto \<noteq> 0
                   then keys1 @ generateGroupPortKeys srcGroups dstGroups ANY_PORT ANY_PROTO
                   else keys1);
          keys3 = (if proto \<noteq> 0 \<and> port \<noteq> 0
                   then keys2 @ generateGroupPortKeys srcGroups dstGroups port ANY_PROTO
                   else keys2)
      in keys3)"

text \<open>
  The loops of \<open>generateGroupVlanKeys\<close>, which differ from the port loops in the
  initial key only; the source repeats the loop body, and so does the model.
\<close>

fun vlan_dst_loop :: "u64 \<Rightarrow> u32 list \<Rightarrow> u64 \<times> u64 list \<Rightarrow> u64 \<times> u64 list" where
  "vlan_dst_loop srcId [] st = st"
| "vlan_dst_loop srcId (dst # ds) (key, keys) =
     (let dstId = (ucast (dst AND 0xfffff) :: u64);
          key1 = key OR (push_bit 20 srcId OR dstId);
          keys1 = keys @ [key1];
          key2 = key1 AND 0xffffff0000000000
      in vlan_dst_loop srcId ds (key2, keys1))"

fun vlan_src_loop :: "u32 list \<Rightarrow> u32 list \<Rightarrow> u64 \<times> u64 list \<Rightarrow> u64 \<times> u64 list" where
  "vlan_src_loop [] dstGroups st = st"
| "vlan_src_loop (src # ss) dstGroups st =
     (let srcId = (ucast (src AND 0xfffff) :: u64)
      in vlan_src_loop ss dstGroups (vlan_dst_loop srcId dstGroups st))"

definition generateGroupVlanKeys :: "u32 list \<Rightarrow> u32 list \<Rightarrow> u16 \<Rightarrow> u64 list" where
  "generateGroupVlanKeys srcGroups dstGroups vlan =
     (let key = push_bit 48 (ucast vlan :: u64);
          srcGroups1 = (if length srcGroups = 0 then srcGroups @ [ANY_GROUP] else srcGroups);
          dstGroups1 = (if length dstGroups = 0 then dstGroups @ [ANY_GROUP] else dstGroups)
      in snd (vlan_src_loop srcGroups1 dstGroups1 (key, [])))"

text \<open>
  The layout the comments of the two functions draw: protocol in bits 56 to 63, port in
  bits 40 to 55, the two group ids cut to twenty bits below. These two functions are the
  reference the loops are compared with; the source has no such function.
\<close>

definition pack_port_key :: "u8 \<Rightarrow> u16 \<Rightarrow> u32 \<Rightarrow> u32 \<Rightarrow> u64" where
  "pack_port_key proto port src dst =
     push_bit 56 (ucast proto) OR push_bit 40 (ucast port)
       OR push_bit 20 (ucast (src AND 0xfffff)) OR ucast (dst AND 0xfffff)"

definition pack_vlan_key :: "u16 \<Rightarrow> u32 \<Rightarrow> u32 \<Rightarrow> u64" where
  "pack_vlan_key vlan src dst =
     push_bit 48 (ucast vlan)
       OR push_bit 20 (ucast (src AND 0xfffff)) OR ucast (dst AND 0xfffff)"

definition or_any :: "u32 list \<Rightarrow> u32 list" where
  "or_any groups = (if groups = [] then [ANY_GROUP] else groups)"

definition port_keys_of :: "u32 list \<Rightarrow> u32 list \<Rightarrow> u16 \<Rightarrow> u8 \<Rightarrow> u64 list" where
  "port_keys_of srcGroups dstGroups port proto =
     concat (map (\<lambda>src. map (\<lambda>dst. pack_port_key proto port src dst) (or_any dstGroups))
                 (or_any srcGroups))"

definition vlan_keys_of :: "u32 list \<Rightarrow> u32 list \<Rightarrow> u16 \<Rightarrow> u64 list" where
  "vlan_keys_of srcGroups dstGroups vlan =
     concat (map (\<lambda>src. map (\<lambda>dst. pack_vlan_key vlan src dst) (or_any dstGroups))
                 (or_any srcGroups))"

section \<open>Policies, rules, endpoints and lookup keys\<close>

type_synonym i32 = "32 word"  \<comment> \<open>Go's int32: compared with \<open><s\<close>, read with \<open>sint\<close>\<close>
type_synonym i64 = "64 word"  \<comment> \<open>Go's int64 (time.Duration): signed, wraps around\<close>
type_synonym TapType = nat    \<comment> \<open>Go's TapType, used as an array index only\<close>

datatype DirectionType = FORWARD | BACKWARD

text \<open>
  Modelled from the spec: \<open>AclAction\<close>, \<open>PolicyData\<close>, \<open>PolicyData.Merge\<close>,
  \<open>PolicyData.MergeAndSwapDirection\<close> and \<open>INVALID_POLICY_DATA\<close> are declared in the
  datatype package, which is not among the sources. The spec gives a policy an id and a
  sequence of actions, an action its direction tags, and three operations:
  \<open>Merge(actions, id)\<close> unions the actions and keeps their direction tags,
  \<open>Merge(actions, id, dir)\<close> unions them while tagging each with \<open>dir\<close>, and
  \<open>MergeAndSwapDirection\<close> flips the direction tags. The union keeps the actions
  already there in their order and appends each new action that is not among them. The
  spec does not say what becomes of the id; the model stores the id passed, and no
  statement below reads it.
\<close>

record AclAction =
  action_id :: nat
  directions :: "DirectionType set"

record PolicyData =
  ACLID :: u32
  AclActions :: "AclAction list"

definition empty_PolicyData :: PolicyData where
  "empty_PolicyData = \<lparr>ACLID = 0, AclActions = []\<rparr>"

datatype PolicyRef = INVALID_POLICY_DATA | Policy PolicyData

fun swap_direction :: "DirectionType \<Rightarrow> DirectionType" where
  "swap_direction FORWARD = BACKWARD"
| "swap_direction BACKWARD = FORWARD"

definition SetDirections :: "DirectionType \<Rightarrow> AclAction \<Rightarrow> AclAction" where
  "SetDirections d a = a\<lparr>directions := {d}\<rparr>"

definition ReverseDirection :: "AclAction \<Rightarrow> AclAction" where
  "ReverseDirection a = a\<lparr>directions := swap_direction ` directions a\<rparr>"

fun action_union :: "AclAction list \<Rightarrow> AclAction list \<Rightarrow> AclAction list" where
  "action_union acc [] = acc"
| "action_union acc (a # as) = action_union (if a \<in> set acc then acc else acc @ [a]) as"

definition Merge ::
  "PolicyData \<Rightarrow> AclAction list \<Rightarrow> u32 \<Rightarrow> DirectionType option \<Rightarrow> PolicyData" where
  "Merge d aclActions aclID direction =
     d\<lparr>ACLID := aclID,
       AclActions := action_union (AclActions d)
         (case direction of None \<Rightarrow> aclActions
          | Some dir \<Rightarrow> map (SetDirections dir) aclActions)\<rparr>"

definition MergeAndSwapDirection :: "PolicyData \<Rightarrow> AclAction list \<Rightarrow> u32 \<Rightarrow> PolicyData" where
  "MergeAndSwapDirection d aclActions aclID =
     Merge d (map ReverseDirection aclActions) aclID None"

text \<open>
  A Go map is visited by \<open>range\<close> in an order the language leaves open. The three maps
  of a rule are only ever ranged over and measured, so the model holds each as the list
  of its entries in the order the range visits them; every statement below holds for
  every such order.
\<close>

record Acl =
  Id :: u32
  Type :: TapType
  TapId :: u32
  SrcGroups :: "(u32 \<times> u32) list"
  DstGroups :: "(u32 \<times> u32) list"
  DstPorts :: "(u16 \<times> u16) list"
  Proto :: u8
  Vlan :: u32
  Action :: "AclAction list"

text \<open>
  \<open>EndpointInfo\<close>, \<open>EndpointData\<close> and \<open>LookupKey\<close> are declared in the datatype
  package as well; the records hold the fields policy\_labeler.go reads and writes, with
  the types the spec gives them.
\<close>

record EndpointInfo =
  GroupIds :: "u32 list"
  L2EpcId :: i32
  L3EpcId :: i32

record EndpointData =
  SrcInfo :: EndpointInfo
  DstInfo :: EndpointInfo

record LookupKey =
  Tap :: TapType
  Timestamp :: i64
  FastIndex :: nat
  SrcMac :: u64
  DstMac :: u64
  SrcIp :: u32
  DstIp :: u32
  SrcPort :: u16
  DstPort :: u16
  Vlan :: u16
  Proto :: u8
  SrcGroupIds :: "u32 list"
  DstGroupIds :: "u32 list"

definition POLICY_TIMEOUT :: i64 where
  "POLICY_TIMEOUT = 60000000000"  \<comment> \<open>1 * time.Minute, in nanoseconds\<close>

definition FAST_PATH_POLICY_MAP_SIZE_LIMIT :: nat where
  "FAST_PATH_POLICY_MAP_SIZE_LIMIT = 1024"

definition FAST_PATH_EPC_MAP_SIZE_LIMIT :: nat where
  "FAST_PATH_EPC_MAP_SIZE_LIMIT = 128"

section \<open>The LRU cache\<close>

text \<open>
  \<open>lru.Cache\<close> is the cache of the groupcache library: a list of entries, the most
  recently used first, and a bound \<open>MaxEntries\<close>, 0 for none. \<open>Add\<close> of a key the cache
  holds moves the entry to the front and replaces its value; \<open>Add\<close> of a new key puts
  the entry at the front and drops the entry at the back when the bound is exceeded;
  \<open>Get\<close> moves the entry it finds to the front. A key stands in the cache at most
  once.
\<close>

record ('k, 'v) Cache =
  MaxEntries :: nat
  entries :: "('k \<times> 'v) list"

definition lru_New :: "nat \<Rightarrow> ('k, 'v) Cache" where
  "lru_New maxEntries = \<lparr>MaxEntries = maxEntries, entries = []\<rparr>"

definition lru_without :: "'k \<Rightarrow> ('k \<times> 'v) list \<Rightarrow> ('k \<times> 'v) list" where
  "lru_without key es = filter (\<lambda>e. fst e \<noteq> key) es"

definition lru_Add :: "'k \<Rightarrow> 'v \<Rightarrow> ('k, 'v) Cache \<Rightarrow> ('k, 'v) Cache" where
  "lru_Add key val c =
     (case map_of (entries c) key of
        Some old \<Rightarrow> c\<lparr>entries := (key, val) # lru_without key (entries c)\<rparr>
      | None \<Rightarrow>
          (let es = (key, val) # entries c
           in c\<lparr>entries := (if MaxEntries c \<noteq> 0 \<and> length es > MaxEntries c
                             then butlast es else es)\<rparr>))"

definition lru_Get :: "'k \<Rightarrow> ('k, 'v) Cache \<Rightarrow> 'v option \<times> ('k, 'v) Cache" where
  "lru_Get key c =
     (case map_of (entries c) key of
        Some val \<Rightarrow> (Some val, c\<lparr>entries := (key, val) # lru_without key (entries c)\<rparr>)
      | None \<Rightarrow> (None, c))"

definition lru_Remove :: "'k \<Rightarrow> ('k, 'v) Cache \<Rightarrow> ('k, 'v) Cache" where
  "lru_Remove key c = c\<lparr>entries := lru_without key (entries c)\<rparr>"

definition lru_Clear :: "('k, 'v) Cache \<Rightarrow> ('k, 'v) Cache" where
  "lru_Clear c = c\<lparr>entries := []\<rparr>"

text \<open>
  The caches hold pointers (\<open>*VlanAndPortMap\<close>, \<open>*FastPathMapValue\<close>), and the code
  changes what a pointer it has just looked up points to. The model holds the values
  themselves and writes a changed value back under its key, in place.
\<close>

definition lru_store :: "'k \<Rightarrow> 'v \<Rightarrow> ('k, 'v) Cache \<Rightarrow> ('k, 'v) Cache" where
  "lru_store key val c =
     c\<lparr>entries := map (\<lambda>e. if fst e = key then (key, val) else e) (entries c)\<rparr>"

definition lru_peek :: "'k \<Rightarrow> ('k, 'v) Cache \<Rightarrow> 'v option" where
  "lru_peek key c = map_of (entries c) key"

section \<open>The classifier and its fast-path cache\<close>

record FastPathMapValue =
  endpoint :: EndpointData
  policy :: PolicyData
  timestamp :: i64

record VlanAndPortMap =
  macEpcMap :: "(u64, u32) Cache"
  vlanPolicyMap :: "(u64, FastPathMapValue) Cache"
  portPolicyMap :: "(u64, FastPathMapValue) Cache"

text \<open>
  The arrays \<open>[TAP_MAX]map\<close> are lists of one map per tap type. A \<open>map[K]bool\<close> is read
  only by \<open>m[k]\<close>, which is false for an absent key, so it is a predicate; a map to
  \<open>*PolicyData\<close> is a partial map. A cell of \<open>FastPolicyMaps\<close> holds a pointer to a
  cache, \<open>None\<close> where the pointer is nil.
\<close>

record PolicyLabel =
  RawAcls :: "Acl list"
  InterestProtoMaps :: "(u8 \<Rightarrow> bool) list"
  InterestPortMaps :: "(u16 \<Rightarrow> bool) list"
  InterestGroupMaps :: "(u32 \<Rightarrow> bool) list"
  IpNetmaskMap :: "u32 \<rightharpoonup> u32"
  FastPolicyMaps :: "(u64, VlanAndPortMap) Cache option list list"
  FastPathDisable :: bool
  MapSize :: u32
  GroupPortPolicyMaps :: "(u64 \<rightharpoonup> PolicyData) list"
  GroupVlanPolicyMaps :: "(u64 \<rightharpoonup> PolicyData) list"
  FirstPathHit :: u64
  FastPathHit :: u64
  FirstPathHitTick :: u64
  FastPathHitTick :: u64
  AclHitMax :: u64

text \<open>
  A function that indexes an array or a slice out of range, or calls a method of a nil
  cache, panics; the model returns \<open>None\<close> then.
\<close>

definition mask_of :: "(u32 \<rightharpoonup> u32) \<Rightarrow> u32 \<Rightarrow> u32" where
  "mask_of m k = (case m k of None \<Rightarrow> 0 | Some v \<Rightarrow> v)"  \<comment> \<open>Go's \<open>m[k]\<close>: zero for an absent key\<close>

definition addEpcMap :: "VlanAndPortMap \<Rightarrow> EndpointInfo \<Rightarrow> u64 \<Rightarrow> VlanAndPortMap \<times> u32" where
  "addEpcMap maps endpointInfo mac =
     (let id = (if 0 <s L2EpcId endpointInfo then L2EpcId endpointInfo
                else if L2EpcId endpointInfo = 0 then
                  (if 0 <s L3EpcId endpointInfo then L3EpcId endpointInfo
                   else if L3EpcId endpointInfo = - 1 then 0xffffffff
                   else ANY_GROUP)
                else ANY_GROUP)
      in (maps\<lparr>macEpcMap := lru_Add mac id (macEpcMap maps)\<rparr>, id))"

definition fast_cache :: "PolicyLabel \<Rightarrow> LookupKey \<Rightarrow> (u64, VlanAndPortMap) Cache option" where
  "fast_cache l packet =
     (if FastIndex packet < length (FastPolicyMaps l)
         \<and> Tap packet < length (FastPolicyMaps l ! FastIndex packet)
      then FastPolicyMaps l ! FastIndex packet ! Tap packet
      else None)"

definition set_fast_cache ::
  "PolicyLabel \<Rightarrow> LookupKey \<Rightarrow> (u64, VlanAndPortMap) Cache \<Rightarrow> PolicyLabel" where
  "set_fast_cache l packet c =
     l\<lparr>FastPolicyMaps := (FastPolicyMaps l)
         [FastIndex packet := (FastPolicyMaps l ! FastIndex packet)[Tap packet := Some c]]\<rparr>"

definition fast_subnet_key :: "PolicyLabel \<Rightarrow> LookupKey \<Rightarrow> DirectionType \<Rightarrow> u64" where
  "fast_subnet_key l packet direction =
     (let maskSrc0 = mask_of (IpNetmaskMap l) (SrcIp packet AND 0xffff0000);
          maskSrc = (if maskSrc0 < 0xffff0000 then 0xffff0000 else maskSrc0);
          maskDst0 = mask_of (IpNetmaskMap l) (DstIp packet AND 0xffff0000);
          maskDst = (if maskDst0 < 0xffff0000 then 0xffff0000 else maskDst0);
          maskedSrcIp0 = SrcIp packet AND maskSrc;
          maskedDstIp0 = DstIp packet AND maskDst;
          maskedSrcIp = (if direction = BACKWARD then maskedDstIp0 else maskedSrcIp0);
          maskedDstIp = (if direction = BACKWARD then maskedSrcIp0 else maskedDstIp0)
      in push_bit 32 (ucast maskedDstIp :: u64) OR (ucast maskedSrcIp :: u64))"

definition new_VlanAndPortMap :: VlanAndPortMap where
  "new_VlanAndPortMap =
     \<lparr>macEpcMap = lru_New FAST_PATH_EPC_MAP_SIZE_LIMIT,
      vlanPolicyMap = lru_New FAST_PATH_POLICY_MAP_SIZE_LIMIT,
      portPolicyMap = lru_New FAST_PATH_POLICY_MAP_SIZE_LIMIT\<rparr>"

definition getVlanAndPortMap ::
  "PolicyLabel \<Rightarrow> LookupKey \<Rightarrow> DirectionType \<Rightarrow> bool
   \<Rightarrow> (PolicyLabel \<times> VlanAndPortMap option) option" where
  "getVlanAndPortMap l packet direction create =
     (let key = fast_subnet_key l packet direction
      in case fast_cache l packet of
           None \<Rightarrow> None
         | Some c \<Rightarrow>
             (case lru_Get key c of
                (Some data, c1) \<Rightarrow> Some (set_fast_cache l packet c1, Some data)
              | (None, c1) \<Rightarrow>
                  if create
                  then Some (set_fast_cache l packet (lru_Add key new_VlanAndPortMap c1),
                             Some new_VlanAndPortMap)
                  else Some (l, None)))"

text \<open>
  The write-back of a \<open>VlanAndPortMap\<close> the caller has changed through the pointer
  \<open>getVlanAndPortMap\<close> returned.
\<close>

definition store_maps ::
  "PolicyLabel \<Rightarrow> LookupKey \<Rightarrow> DirectionType \<Rightarrow> VlanAndPortMap \<Rightarrow> PolicyLabel" where
  "store_maps l packet direction maps =
     (case fast_cache l packet of
        None \<Rightarrow> l
      | Some c \<Rightarrow> set_fast_cache l packet (lru_store (fast_subnet_key l packet direction) maps c))"

definition fast_vlan_key :: "u16 \<Rightarrow> u64 \<Rightarrow> u64 \<Rightarrow> u64" where
  "fast_vlan_key vlan firstEpc secondEpc =
     ucast vlan OR push_bit 32 firstEpc OR push_bit 12 secondEpc"

definition fast_port_key :: "u64 \<Rightarrow> u64 \<Rightarrow> u8 \<Rightarrow> u16 \<Rightarrow> u64" where
  "fast_port_key srcEpc dstEpc proto port =
     push_bit 44 srcEpc OR push_bit 24 dstEpc OR push_bit 16 (ucast proto) OR ucast port"

definition swap_endpoint :: "EndpointData \<Rightarrow> EndpointData" where
  "swap_endpoint e = e\<lparr>SrcInfo := DstInfo e, DstInfo := SrcInfo e\<rparr>"

definition addVlanFastPolicy ::
  "PolicyLabel \<Rightarrow> EndpointData \<Rightarrow> LookupKey \<Rightarrow> PolicyData \<Rightarrow> PolicyLabel option" where
  "addVlanFastPolicy l endpointData packet policy0 =
     (case getVlanAndPortMap l packet FORWARD True of
        Some (l1, Some maps) \<Rightarrow>
          (let (maps1, srcEpc) = addEpcMap maps (SrcInfo endpointData) (SrcMac packet);
               (maps2, dstEpc) = addEpcMap maps1 (DstInfo endpointData) (DstMac packet);
               key = fast_vlan_key (Vlan packet) (ucast srcEpc) (ucast dstEpc);
               forward = Merge empty_PolicyData (AclActions policy0) (ACLID policy0) None;
               valueForward = \<lparr>endpoint = endpointData, policy = forward,
                                timestamp = Timestamp packet\<rparr>;
               maps3 = maps2\<lparr>vlanPolicyMap := lru_Add key valueForward (vlanPolicyMap maps2)\<rparr>;
               l2 = store_maps l1 packet FORWARD maps3
           in case getVlanAndPortMap l2 packet BACKWARD True of
                Some (l3, Some mapsB) \<Rightarrow>
                  (let (mapsB1, srcEpcB) = addEpcMap mapsB (SrcInfo endpointData) (SrcMac packet);
                       (mapsB2, dstEpcB) = addEpcMap mapsB1 (DstInfo endpointData) (DstMac packet);
                       keyB = fast_vlan_key (Vlan packet) (ucast dstEpcB) (ucast srcEpcB);
                       backward = MergeAndSwapDirection empty_PolicyData
                                    (AclActions policy0) (ACLID policy0);
                       valueBackward = \<lparr>endpoint = swap_endpoint endpointData,
                                         policy = backward, timestamp = Timestamp packet\<rparr>;
                       mapsB3 = mapsB2\<lparr>vlanPolicyMap :=
                                   lru_Add keyB valueBackward (vlanPolicyMap mapsB2)\<rparr>
                   in Some (store_maps l3 packet BACKWARD mapsB3))
              | _ \<Rightarrow> None)
      | _ \<Rightarrow> None)"

definition addPortFastPolicy ::
  "PolicyLabel \<Rightarrow> EndpointData \<Rightarrow> LookupKey \<Rightarrow> PolicyData \<Rightarrow> DirectionType
   \<Rightarrow> PolicyLabel option" where
  "addPortFastPolicy l endpointData packet policy0 direction =
     (case getVlanAndPortMap l packet direction True of
        Some (l1, Some maps) \<Rightarrow>
          (let (maps1, srcEpc0) = addEpcMap maps (SrcInfo endpointData) (SrcMac packet);
               (maps2, dstEpc0) = addEpcMap maps1 (DstInfo endpointData) (DstMac packet);
               srcEpc = (if direction = BACKWARD then dstEpc0 else srcEpc0);
               dstEpc = (if direction = BACKWARD then srcEpc0 else dstEpc0);
               port = (if direction = BACKWARD then SrcPort packet else DstPort packet);
               key = fast_port_key (ucast srcEpc) (ucast dstEpc) (Proto packet) port;
               forward = Merge empty_PolicyData (AclActions policy0) (ACLID policy0) None;
               val = \<lparr>endpoint = (if direction = BACKWARD then swap_endpoint endpointData
                                     else endpointData),
                       policy = forward, timestamp = Timestamp packet\<rparr>;
               maps3 = maps2\<lparr>portPolicyMap := lru_Add key val (portPolicyMap maps2)\<rparr>
           in Some (store_maps l1 packet direction maps3))
      | _ \<Rightarrow> None)"

definition getFastInterestKeys :: "PolicyLabel \<Rightarrow> LookupKey \<Rightarrow> LookupKey option" where
  "getFastInterestKeys l packet =
     (if Tap packet < length (InterestPortMaps l) \<and> Tap packet < length (InterestProtoMaps l)
      then
        (let p1 = (if \<not> (InterestPortMaps l ! Tap packet) (SrcPort packet)
                   then packet\<lparr>SrcPort := ANY_PORT\<rparr> else packet);
             p2 = (if \<not> (InterestPortMaps l ! Tap p1) (DstPort p1)
                   then p1\<lparr>DstPort := ANY_PORT\<rparr> else p1);
             p3 = (if \<not> (InterestProtoMaps l ! Tap p2) (Proto p2)
                   then p2\<lparr>Proto := ANY_PROTO\<rparr> else p2)
         in Some p3)
      else None)"

fun interest_group_loop ::
  "(u32 \<Rightarrow> bool) \<Rightarrow> u32 list \<Rightarrow> u32 list \<times> bool \<Rightarrow> u32 list \<times> bool" where
  "interest_group_loop groupMap [] st = st"
| "interest_group_loop groupMap (gid # ids) (out, hasAnyGroup) =
     (if groupMap gid
      then interest_group_loop groupMap ids (out @ [gid], hasAnyGroup \<or> gid = ANY_GROUP)
      else interest_group_loop groupMap ids (out, hasAnyGroup))"

definition generateInterestKeys ::
  "PolicyLabel \<Rightarrow> EndpointData \<Rightarrow> LookupKey \<Rightarrow> LookupKey option" where
  "generateInterestKeys l endpointData packet =
     (if Tap packet < length (InterestGroupMaps l)
      then
        (let groupMap = InterestGroupMaps l ! Tap packet;
             (src, hasAnySrc) = interest_group_loop groupMap (GroupIds (SrcInfo endpointData))
                                  (SrcGroupIds packet, False);
             src1 = (if \<not> hasAnySrc then src @ [ANY_GROUP] else src);
             (dst, hasAnyDst) = interest_group_loop groupMap (GroupIds (DstInfo endpointData))
                                  (DstGroupIds packet, False);
             dst1 = (if \<not> hasAnyDst then dst @ [ANY_GROUP] else dst)
         in getFastInterestKeys l (packet\<lparr>SrcGroupIds := src1, DstGroupIds := dst1\<rparr>))
      else None)"

definition stale :: "i64 \<Rightarrow> i64 \<Rightarrow> bool" where
  "stale valueTimestamp packetTimestamp \<longleftrightarrow>
     valueTimestamp <s packetTimestamp \<and> POLICY_TIMEOUT <s packetTimestamp - valueTimestamp"

definition getFastPortPolicy ::
  "VlanAndPortMap \<Rightarrow> LookupKey \<Rightarrow> DirectionType \<Rightarrow> PolicyData
   \<Rightarrow> VlanAndPortMap \<times> PolicyData \<times> EndpointData option" where
  "getFastPortPolicy maps packet direction policy0 =
     (case lru_Get (SrcMac packet) (macEpcMap maps) of
        (None, epc1) \<Rightarrow> (maps\<lparr>macEpcMap := epc1\<rparr>, policy0, None)
      | (Some srcData, epc1) \<Rightarrow>
          (case lru_Get (DstMac packet) epc1 of
             (None, epc2) \<Rightarrow> (maps\<lparr>macEpcMap := epc2\<rparr>, policy0, None)
           | (Some dstData, epc2) \<Rightarrow>
               (let srcEpc = (if direction = BACKWARD then ucast dstData else ucast srcData :: u64);
                    dstEpc = (if direction = BACKWARD then ucast srcData else ucast dstData :: u64);
                    port = (if direction = BACKWARD then SrcPort packet else DstPort packet);
                    key = fast_port_key srcEpc dstEpc (Proto packet) port;
                    maps1 = maps\<lparr>macEpcMap := epc2\<rparr>
                in case lru_Get key (portPolicyMap maps1) of
                     (None, pm1) \<Rightarrow> (maps1\<lparr>portPolicyMap := pm1\<rparr>, policy0, None)
                   | (Some val, pm1) \<Rightarrow>
                       if stale (timestamp val) (Timestamp packet)
                       then (maps1\<lparr>portPolicyMap := lru_Remove key pm1\<rparr>, policy0, None)
                       else
                         (let val1 = val\<lparr>timestamp := Timestamp packet\<rparr>;
                              policy1 = Merge policy0 (AclActions (policy val1))
                                          (ACLID (policy val1)) (Some direction);
                              endpoint1 = (if direction = BACKWARD
                                           then swap_endpoint (endpoint val1)
                                           else endpoint val1)
                          in (maps1\<lparr>portPolicyMap := lru_store key val1 pm1\<rparr>,
                              policy1, Some endpoint1)))))"

definition getFastVlanPolicy ::
  "VlanAndPortMap \<Rightarrow> LookupKey \<Rightarrow> DirectionType \<Rightarrow> PolicyData
   \<Rightarrow> VlanAndPortMap \<times> PolicyData \<times> EndpointData option" where
  "getFastVlanPolicy maps packet direction policy0 =
     (case lru_Get (SrcMac packet) (macEpcMap maps) of
        (None, epc1) \<Rightarrow> (maps\<lparr>macEpcMap := epc1\<rparr>, policy0, None)
      | (Some srcData, epc1) \<Rightarrow>
          (case lru_Get (DstMac packet) epc1 of
             (None, epc2) \<Rightarrow> (maps\<lparr>macEpcMap := epc2\<rparr>, policy0, None)
           | (Some dstData, epc2) \<Rightarrow>
               (let srcEpc = (if direction = BACKWARD then ucast dstData else ucast srcData :: u64);
                    dstEpc = (if direction = BACKWARD then ucast srcData else ucast dstData :: u64);
                    key = fast_vlan_key (Vlan packet) srcEpc dstEpc;
                    maps1 = maps\<lparr>macEpcMap := epc2\<rparr>
                in case lru_Get key (vlanPolicyMap maps1) of
                     (None, vm1) \<Rightarrow> (maps1\<lparr>vlanPolicyMap := vm1\<rparr>, policy0, None)
                   | (Some val, vm1) \<Rightarrow>
                       if stale (timestamp val) (Timestamp packet)
                       then (maps1\<lparr>vlanPolicyMap := lru_Remove key vm1\<rparr>, policy0, None)
                       else
                         (let val1 = val\<lparr>timestamp := Timestamp packet\<rparr>;
                              policy1 = Merge policy0 (AclActions (policy val1))
                                          (ACLID (policy val1)) None;
                              endpoint1 = (if direction = BACKWARD
                                           then swap_endpoint (endpoint val1)
                                           else endpoint val1)
                          in (maps1\<lparr>vlanPolicyMap := lru_store key val1 vm1\<rparr>,
                              policy1, Some endpoint1)))))"

section \<open>The EPC id in the spec's words\<close>

text \<open>
  The preference the spec states for \<open>addEpcMap\<close>, written from its words to be
  compared with the function above: the layer-2 id if positive, else the layer-3 id if
  positive, else \<open>0xFFFFFFFF\<close> for a layer-3 id of -1, else the wildcard 0.
\<close>

definition spec_epc_id :: "EndpointInfo \<Rightarrow> u32" where
  "spec_epc_id e =
     (if 0 <s L2EpcId e then L2EpcId e
      else if 0 <s L3EpcId e then L3EpcId e
      else if L3EpcId e = - 1 then 0xffffffff
      else 0)"

section \<open>The netmask learner\<close>

text \<open>
  \<open>IpNet\<close> and \<open>PlatformData\<close> as \<open>GenerateIpNetmaskMap\<close> reads them: the address
  \<open>network.Ip\<close> and the prefix length \<open>network.Netmask\<close> are both \<open>uint32\<close>.
\<close>

record IpNet =
  Ip :: u32
  Netmask :: u32
  SubnetId :: u32

record PlatformData =
  Mac :: u64
  Ips :: "IpNet list"
  EpcId :: i32
  IfType :: u8

record IpGroupData =
  Ips :: "string list"

text \<open>
  Modelled from the spec: \<open>IpToUint32\<close> is a function of the utils package, which is not
  among the sources, and \<open>net.ParseIP\<close> is Go's library; the spec says of them only that
  an address that does not parse gives nil. Both are parameters of the model: a
  \<open>net.IP\<close> is a byte slice, nil the empty one, and \<open>IpToUint32\<close> any total function.
\<close>

record IpLib =
  ParseIP :: "string \<Rightarrow> u8 list"
  IpToUint32 :: "u8 list \<Rightarrow> u32"

text \<open>\<open>strings.Split(raw, "/")\<close>: the pieces between the slashes, one piece for no slash.\<close>

fun Split_slash :: "string \<Rightarrow> string list" where
  "Split_slash [] = [[]]"
| "Split_slash (c # cs) =
     (if c = CHR ''/'' then [] # Split_slash cs
      else (case Split_slash cs of
              [] \<Rightarrow> [[c]]
            | w # ws \<Rightarrow> (c # w) # ws))"

text \<open>
  \<open>strconv.Atoi\<close> on a 64-bit platform: an optional sign and at least one decimal digit,
  nothing else, and a value that fits an \<open>int64\<close>; an error (\<open>None\<close>) otherwise.
\<close>

definition is_digit :: "char \<Rightarrow> bool" where
  "is_digit c \<longleftrightarrow> 48 \<le> (of_char c :: nat) \<and> (of_char c :: nat) \<le> 57"

definition digits_value :: "string \<Rightarrow> int" where
  "digits_value ds = foldl (\<lambda>n c. 10 * n + (int (of_char c) - 48)) 0 ds"

definition Atoi :: "string \<Rightarrow> int option" where
  "Atoi s =
     (let neg = (s \<noteq> [] \<and> hd s = CHR ''-'');
          ds = (if s \<noteq> [] \<and> (hd s = CHR ''-'' \<or> hd s = CHR ''+'') then tl s else s)
      in if ds = [] \<or> \<not> list_all is_digit ds then None
         else (let n = (if neg then - digits_value ds else digits_value ds)
               in if n < - (2 ^ 63) \<or> 2 ^ 63 - 1 < n then None else Some n))"

text \<open>
  The statement \<open>if maskMap[k] < mask { maskMap[k] = mask }\<close>, which the learner
  repeats in every loop.
\<close>

definition raise_mask :: "(u32 \<rightharpoonup> u32) \<Rightarrow> u32 \<Rightarrow> u32 \<Rightarrow> (u32 \<rightharpoonup> u32)" where
  "raise_mask maskMap k msk = (if mask_of maskMap k < msk then maskMap(k \<mapsto> msk) else maskMap)"

text \<open>
  \<open>makeIpNetmaskMap\<close> ranges over the entries of the old table and raises the mask of
  each key in a map that starts empty; the keys of a map are distinct, so whatever the
  order of the range the new map holds exactly the entries with a mask above 0.
\<close>

definition makeIpNetmaskMap :: "PolicyLabel \<Rightarrow> (u32 \<rightharpoonup> u32)" where
  "makeIpNetmaskMap l =
     (\<lambda>netIp. case IpNetmaskMap l netIp of
                 None \<Rightarrow> None
               | Some msk \<Rightarrow> if (0 :: u32) < msk then Some msk else None)"

fun network_seed_loop :: "IpNet list \<Rightarrow> (u32 \<rightharpoonup> u32) \<Rightarrow> (u32 \<rightharpoonup> u32)" where
  "network_seed_loop [] maskMap = maskMap"
| "network_seed_loop (network # ns) maskMap =
     (let netIp = Ip network AND 0xffff0000;
          msk = push_bit (unat (32 - Netmask network)) (0xffffffff :: u32)
      in network_seed_loop ns
           (if 0xffff0000 \<le> msk then raise_mask maskMap netIp msk else maskMap))"

fun platform_seed_loop :: "PlatformData list \<Rightarrow> (u32 \<rightharpoonup> u32) \<Rightarrow> (u32 \<rightharpoonup> u32)" where
  "platform_seed_loop [] maskMap = maskMap"
| "platform_seed_loop (platform # ps) maskMap =
     platform_seed_loop ps (network_seed_loop (PlatformData.Ips platform) maskMap)"

fun network_refine_loop :: "IpNet list \<Rightarrow> (u32 \<rightharpoonup> u32) \<Rightarrow> (u32 \<rightharpoonup> u32)" where
  "network_refine_loop [] maskMap = maskMap"
| "network_refine_loop (network # ns) maskMap =
     (let msk = mask_of maskMap (Ip network AND 0xffff0000);
          netIp = Ip network AND msk
      in network_refine_loop ns (raise_mask maskMap netIp msk))"

fun platform_refine_loop :: "PlatformData list \<Rightarrow> (u32 \<rightharpoonup> u32) \<Rightarrow> (u32 \<rightharpoonup> u32)" where
  "platform_refine_loop [] maskMap = maskMap"
| "platform_refine_loop (platform # ps) maskMap =
     platform_refine_loop ps (network_refine_loop (PlatformData.Ips platform) maskMap)"

definition GenerateIpNetmaskMap :: "PolicyLabel \<Rightarrow> PlatformData list \<Rightarrow> PolicyLabel" where
  "GenerateIpNetmaskMap l platforms =
     l\<lparr>IpNetmaskMap :=
         platform_refine_loop platforms (platform_seed_loop platforms (makeIpNetmaskMap l))\<rparr>"

fun raw_seed_loop :: "IpLib \<Rightarrow> string list \<Rightarrow> (u32 \<rightharpoonup> u32) \<Rightarrow> (u32 \<rightharpoonup> u32)" where
  "raw_seed_loop lib [] maskMap = maskMap"
| "raw_seed_loop lib (raw # rs) maskMap =
     (let parts = Split_slash raw
      in if length parts \<noteq> 2 then raw_seed_loop lib rs maskMap
         else
           (let ip = ParseIP lib (parts ! 0)
            in case Atoi (parts ! 1) of
                 None \<Rightarrow> raw_seed_loop lib rs maskMap
               | Some maskSize \<Rightarrow>
                   (let msk = push_bit (unat (word_of_int (32 - maskSize) :: u32))
                                 (0xffffffff :: u32);
                        netIp = IpToUint32 lib ip AND 0xffff0000
                    in raw_seed_loop lib rs
                         (if 0xffff0000 \<le> msk then raise_mask maskMap netIp msk
                          else maskMap))))"

fun raw_refine_loop :: "IpLib \<Rightarrow> string list \<Rightarrow> (u32 \<rightharpoonup> u32) \<Rightarrow> (u32 \<rightharpoonup> u32)" where
  "raw_refine_loop lib [] maskMap = maskMap"
| "raw_refine_loop lib (raw # rs) maskMap =
     (let parts = Split_slash raw
      in if length parts \<noteq> 2 then raw_refine_loop lib rs maskMap
         else
           (let ip = IpToUint32 lib (ParseIP lib (parts ! 0));
                msk = mask_of maskMap (ip AND 0xffff0000);
                netIp = ip AND msk
            in raw_refine_loop lib rs (raise_mask maskMap netIp msk)))"

fun group_loop :: "IpLib \<Rightarrow> IpGroupData list \<Rightarrow> (u32 \<rightharpoonup> u32) \<Rightarrow> (u32 \<rightharpoonup> u32)" where
  "group_loop lib [] maskMap = maskMap"
| "group_loop lib (data # ds) maskMap =
     group_loop lib ds
       (raw_refine_loop lib (IpGroupData.Ips data)
          (raw_seed_loop lib (IpGroupData.Ips data) maskMap))"

definition GenerateIpNetmaskMapFromIpResource ::
  "IpLib \<Rightarrow> PolicyLabel \<Rightarrow> IpGroupData list \<Rightarrow> PolicyLabel" where
  "GenerateIpNetmaskMapFromIpResource lib l datas =
     l\<lparr>IpNetmaskMap := group_loop lib datas (makeIpNetmaskMap l)\<rparr>"

text \<open>
  A sequence of calls of the two generators, from the empty table \<open>NewPolicyLabel\<close>
  makes.
\<close>

datatype netmask_call = Platforms "PlatformData list" | Resources "IpGroupData list"

fun apply_call :: "IpLib \<Rightarrow> PolicyLabel \<Rightarrow> netmask_call \<Rightarrow> PolicyLabel" where
  "apply_call lib l (Platforms platforms) = GenerateIpNetmaskMap l platforms"
| "apply_call lib l (Resources datas) = GenerateIpNetmaskMapFromIpResource lib l datas"

fun run_calls :: "IpLib \<Rightarrow> PolicyLabel \<Rightarrow> netmask_call list \<Rightarrow> PolicyLabel" where
  "run_calls lib l [] = l"
| "run_calls lib l (c # cs) = run_calls lib (apply_call lib l c) cs"

text \<open>
  The two passes over plain data, for the proofs: a seed pass over pairs of an address
  and a mask, a refine pass over addresses. Each loop above is one of them.
\<close>

fun seeds :: "(u32 \<times> u32) list \<Rightarrow> (u32 \<rightharpoonup> u32) \<Rightarrow> (u32 \<rightharpoonup> u32)" where
  "seeds [] m = m"
| "seeds ((ip, msk) # xs) m =
     seeds xs (if 0xffff0000 \<le> msk then raise_mask m (ip AND 0xffff0000) msk else m)"

fun refines :: "u32 list \<Rightarrow> (u32 \<rightharpoonup> u32) \<Rightarrow> (u32 \<rightharpoonup> u32)" where
  "refines [] m = m"
| "refines (ip # xs) m =
     refines xs (raise_mask m (ip AND mask_of m (ip AND 0xffff0000))
                   (mask_of m (ip AND 0xffff0000)))"

text \<open>What each loop of the learner feeds the two passes, and the invariant of the table.\<close>

definition network_pairs :: "IpNet list \<Rightarrow> (u32 \<times> u32) list" where
  "network_pairs ns =
     map (\<lambda>network. (Ip network, push_bit (unat (32 - Netmask network)) (0xffffffff :: u32))) ns"

fun raw_pairs :: "IpLib \<Rightarrow> string list \<Rightarrow> (u32 \<times> u32) list" where
  "raw_pairs lib [] = []"
| "raw_pairs lib (raw # rs) =
     (if length (Split_slash raw) \<noteq> 2 then raw_pairs lib rs
      else (case Atoi (Split_slash raw ! 1) of
              None \<Rightarrow> raw_pairs lib rs
            | Some maskSize \<Rightarrow>
                (IpToUint32 lib (ParseIP lib (Split_slash raw ! 0)),
                 push_bit (unat (word_of_int (32 - maskSize) :: u32)) (0xffffffff :: u32))
                # raw_pairs lib rs))"

fun raw_ips :: "IpLib \<Rightarrow> string list \<Rightarrow> u32 list" where
  "raw_ips lib [] = []"
| "raw_ips lib (raw # rs) =
     (if length (Split_slash raw) \<noteq> 2 then raw_ips lib rs
      else IpToUint32 lib (ParseIP lib (Split_slash raw ! 0)) # raw_ips lib rs)"

definition masks_ok :: "(u32 \<rightharpoonup> u32) \<Rightarrow> bool" where
  "masks_ok m \<longleftrightarrow> (\<forall>k v. m k = Some v \<longrightarrow> 0xffff0000 \<le> v)"

section \<open>The rule compiler and the coordinator\<close>

text \<open>
  Modelled from the spec: the constants \<open>TAP_ANY\<close>, \<open>TAP_MIN\<close> and \<open>TAP_MAX\<close> of
  \<open>TapType\<close> and its method \<open>CheckTapType\<close> are declared in the datatype package, which
  is not among the sources, and the spec gives them no values. The functions that use
  them take them as a parameter, and every statement below holds for all values.
\<close>

record TapTypes =
  TAP_ANY :: TapType
  TAP_MIN :: TapType
  TAP_MAX :: TapType
  CheckTapType :: "TapType \<Rightarrow> bool"

definition mapToSlice :: "(u32 \<times> u32) list \<Rightarrow> u32 list" where
  "mapToSlice m = map snd (filter (\<lambda>e. 0 < snd e) m)"

definition generateGroupPortsKeys :: "Acl \<Rightarrow> DirectionType \<Rightarrow> u64 list" where
  "generateGroupPortsKeys acl direction =
     (let src = (if direction = BACKWARD then DstGroups acl else SrcGroups acl);
          dst = (if direction = BACKWARD then SrcGroups acl else DstGroups acl)
      in if length (DstPorts acl) \<ge> 0xffff \<or> length (DstPorts acl) = 0
         then generateGroupPortKeys (mapToSlice src) (mapToSlice dst) ANY_PORT (Acl.Proto acl)
         else concat (map (\<lambda>e. generateGroupPortKeys (mapToSlice src) (mapToSlice dst)
                                   (snd e) (Acl.Proto acl))
                          (DstPorts acl)))"

text \<open>
  The loop over the keys of one rule: a key without a policy gets a new policy with the
  rule's actions merged in, a key with a policy has them merged into it.
\<close>

fun merge_keys ::
  "Acl \<Rightarrow> DirectionType option \<Rightarrow> u64 list \<Rightarrow> (u64 \<rightharpoonup> PolicyData) \<Rightarrow> (u64 \<rightharpoonup> PolicyData)" where
  "merge_keys acl dir [] m = m"
| "merge_keys acl dir (key # keys) m =
     merge_keys acl dir keys
       (case m key of
          None \<Rightarrow> m(key \<mapsto> Merge empty_PolicyData (Action acl) (Id acl) dir)
        | Some found \<Rightarrow> m(key \<mapsto> Merge found (Action acl) (Id acl) dir))"

text \<open>
  The local arrays of the three generators hold a map for every tap type from \<open>TAP_MIN\<close>
  to \<open>TAP_MAX - 1\<close> and a nil map below. A rule that passes the check with a type of
  \<open>TAP_MAX\<close> or more indexes the array out of range, and one with a type below \<open>TAP_MIN\<close>
  writes to a nil map: both panic.
\<close>

definition tap_writable :: "TapTypes \<Rightarrow> TapType \<Rightarrow> bool" where
  "tap_writable tc t \<longleftrightarrow> TAP_MIN tc \<le> t \<and> t < TAP_MAX tc"

fun port_maps_loop ::
  "TapTypes \<Rightarrow> Acl list \<Rightarrow> (u64 \<rightharpoonup> PolicyData) list \<Rightarrow> (u64 \<rightharpoonup> PolicyData) list option" where
  "port_maps_loop tc [] portMaps = Some portMaps"
| "port_maps_loop tc (acl # acls) portMaps =
     (if CheckTapType tc (Type acl) \<and> Acl.Vlan acl = 0
      then
        (if tap_writable tc (Type acl) \<and> Type acl < length portMaps
         then port_maps_loop tc acls
                (portMaps[Type acl :=
                   merge_keys acl None (generateGroupPortsKeys acl FORWARD)
                     (portMaps ! Type acl)])
         else None)
      else port_maps_loop tc acls portMaps)"

definition GenerateGroupPortMaps :: "TapTypes \<Rightarrow> PolicyLabel \<Rightarrow> Acl list \<Rightarrow> PolicyLabel option" where
  "GenerateGroupPortMaps tc l acls =
     (case port_maps_loop tc acls (replicate (TAP_MAX tc) Map.empty) of
        None \<Rightarrow> None
      | Some portMaps \<Rightarrow> Some (l\<lparr>GroupPortPolicyMaps := portMaps\<rparr>))"

definition acl_vlan_keys :: "Acl \<Rightarrow> DirectionType \<Rightarrow> u64 list" where
  "acl_vlan_keys acl direction =
     (if direction = BACKWARD
      then generateGroupVlanKeys (mapToSlice (DstGroups acl)) (mapToSlice (SrcGroups acl))
             (ucast (Acl.Vlan acl))
      else generateGroupVlanKeys (mapToSlice (SrcGroups acl)) (mapToSlice (DstGroups acl))
             (ucast (Acl.Vlan acl)))"

fun vlan_maps_loop ::
  "TapTypes \<Rightarrow> Acl list \<Rightarrow> (u64 \<rightharpoonup> PolicyData) list \<Rightarrow> (u64 \<rightharpoonup> PolicyData) list option" where
  "vlan_maps_loop tc [] vlanMaps = Some vlanMaps"
| "vlan_maps_loop tc (acl # acls) vlanMaps =
     (if CheckTapType tc (Type acl) \<and> 0 < Acl.Vlan acl
      then
        (if tap_writable tc (Type acl) \<and> Type acl < length vlanMaps
         then vlan_maps_loop tc acls
                (vlanMaps[Type acl :=
                   merge_keys acl (Some BACKWARD) (acl_vlan_keys acl BACKWARD)
                     (merge_keys acl (Some FORWARD) (acl_vlan_keys acl FORWARD)
                        (vlanMaps ! Type acl))])
         else None)
      else vlan_maps_loop tc acls vlanMaps)"

definition GenerateGroupVlanMaps :: "TapTypes \<Rightarrow> PolicyLabel \<Rightarrow> Acl list \<Rightarrow> PolicyLabel option" where
  "GenerateGroupVlanMaps tc l acls =
     (case vlan_maps_loop tc acls (replicate (TAP_MAX tc) Map.empty) of
        None \<Rightarrow> None
      | Some vlanMaps \<Rightarrow> Some (l\<lparr>GroupVlanPolicyMaps := vlanMaps\<rparr>))"

fun mark_all :: "'a list \<Rightarrow> ('a \<Rightarrow> bool) \<Rightarrow> ('a \<Rightarrow> bool)" where
  "mark_all [] m = m"
| "mark_all (x # xs) m = mark_all xs (m(x := True))"

fun interest_maps_loop ::
  "TapTypes \<Rightarrow> Acl list
   \<Rightarrow> (u8 \<Rightarrow> bool) list \<times> (u16 \<Rightarrow> bool) list \<times> (u32 \<Rightarrow> bool) list
   \<Rightarrow> ((u8 \<Rightarrow> bool) list \<times> (u16 \<Rightarrow> bool) list \<times> (u32 \<Rightarrow> bool) list) option" where
  "interest_maps_loop tc [] st = Some st"
| "interest_maps_loop tc (acl # acls) (protoMaps, portMaps, groupMaps) =
     (if CheckTapType tc (Type acl)
      then
        (if tap_writable tc (Type acl) \<and> Type acl < length protoMaps
            \<and> Type acl < length portMaps \<and> Type acl < length groupMaps
         then
           (let protoMaps1 = protoMaps[Type acl := (protoMaps ! Type acl)(Acl.Proto acl := True)];
                portMaps1 = (if length (DstPorts acl) < 0xffff
                             then portMaps[Type acl :=
                                    mark_all (map snd (DstPorts acl)) (portMaps ! Type acl)]
                             else portMaps);
                groupMaps1 = groupMaps[Type acl :=
                               mark_all (map snd (SrcGroups acl))
                                 (mark_all (map snd (DstGroups acl)) (groupMaps ! Type acl))]
            in interest_maps_loop tc acls (protoMaps1, portMaps1, groupMaps1))
         else None)
      else interest_maps_loop tc acls (protoMaps, portMaps, groupMaps))"

definition GenerateInterestMaps :: "TapTypes \<Rightarrow> PolicyLabel \<Rightarrow> Acl list \<Rightarrow> PolicyLabel option" where
  "GenerateInterestMaps tc l acls =
     (case interest_maps_loop tc acls
             (replicate (TAP_MAX tc) (\<lambda>_. False), replicate (TAP_MAX tc) (\<lambda>_. False),
              replicate (TAP_MAX tc) (\<lambda>_. False)) of
        None \<Rightarrow> None
      | Some (protoMaps, portMaps, groupMaps) \<Rightarrow>
          Some (l\<lparr>InterestGroupMaps := groupMaps, InterestProtoMaps := protoMaps,
                  InterestPortMaps := portMaps\<rparr>))"

definition expand_any :: "TapTypes \<Rightarrow> Acl list \<Rightarrow> Acl list" where
  "expand_any tc acls =
     concat (map (\<lambda>acl. if Type acl = TAP_ANY tc
                         then map (\<lambda>i. acl\<lparr>Type := i\<rparr>) [TAP_MIN tc ..< TAP_MAX tc]
                         else [acl])
                 acls)"

definition UpdateAcls :: "TapTypes \<Rightarrow> PolicyLabel \<Rightarrow> Acl list \<Rightarrow> PolicyLabel option" where
  "UpdateAcls tc l acls =
     (let l0 = l\<lparr>RawAcls := acls\<rparr>;
          generateAcls = expand_any tc acls
      in case GenerateGroupPortMaps tc l0 generateAcls of
           None \<Rightarrow> None
         | Some l1 \<Rightarrow>
             (case GenerateGroupVlanMaps tc l1 generateAcls of
                None \<Rightarrow> None
              | Some l2 \<Rightarrow> GenerateInterestMaps tc l2 generateAcls))"

text \<open>
  \<open>FlushAcls\<close>: every cell from \<open>TAP_MIN\<close> to \<open>TAP_MAX - 1\<close> of every row is cleared and
  replaced by a new cache of \<open>MapSize\<close> entries. A cell outside the row, or a nil cell,
  panics.
\<close>

fun flush_cells ::
  "nat \<Rightarrow> TapType list \<Rightarrow> ('k, 'v) Cache option list \<Rightarrow> ('k, 'v) Cache option list option" where
  "flush_cells n [] row = Some row"
| "flush_cells n (j # js) row =
     (if j < length row
      then (case row ! j of
              None \<Rightarrow> None
            | Some c \<Rightarrow> flush_cells n js (row[j := Some (lru_New n)]))
      else None)"

fun flush_rows ::
  "nat \<Rightarrow> TapType list \<Rightarrow> ('k, 'v) Cache option list list
   \<Rightarrow> ('k, 'v) Cache option list list option" where
  "flush_rows n js [] = Some []"
| "flush_rows n js (row # rows) =
     (case flush_cells n js row of
        None \<Rightarrow> None
      | Some row1 \<Rightarrow>
          (case flush_rows n js rows of
             None \<Rightarrow> None
           | Some rows1 \<Rightarrow> Some (row1 # rows1)))"

definition FlushAcls :: "TapTypes \<Rightarrow> PolicyLabel \<Rightarrow> PolicyLabel option" where
  "FlushAcls tc l =
     (case flush_rows (unat (MapSize l)) [TAP_MIN tc ..< TAP_MAX tc] (FastPolicyMaps l) of
        None \<Rightarrow> None
      | Some maps \<Rightarrow> Some (l\<lparr>FastPolicyMaps := maps\<rparr>))"

definition AddAcl :: "TapTypes \<Rightarrow> PolicyLabel \<Rightarrow> Acl \<Rightarrow> PolicyLabel option" where
  "AddAcl tc l acl =
     (case UpdateAcls tc l (RawAcls l @ [acl]) of
        None \<Rightarrow> None
      | Some l1 \<Rightarrow> FlushAcls tc l1)"

definition DelAcl :: "TapTypes \<Rightarrow> PolicyLabel \<Rightarrow> int \<Rightarrow> PolicyLabel option" where
  "DelAcl tc l n =
     (let acls = RawAcls l
      in if n > int (length acls) \<or> n \<le> 0 then Some l
         else
           (let index = nat (n - 1)
            in case (if n = int (length acls)
                     then UpdateAcls tc l (take index acls)
                     else UpdateAcls tc l (take index acls @ drop (index + 1) acls)) of
                 None \<Rightarrow> None
               | Some l1 \<Rightarrow> FlushAcls tc l1))"

definition NewPolicyLabel :: "TapTypes \<Rightarrow> nat \<Rightarrow> u32 \<Rightarrow> bool \<Rightarrow> PolicyLabel" where
  "NewPolicyLabel tc queueCount mapSize fastPathDisable =
     \<lparr>RawAcls = [],
      InterestProtoMaps = replicate (TAP_MAX tc) (\<lambda>_. False),
      InterestPortMaps = replicate (TAP_MAX tc) (\<lambda>_. False),
      InterestGroupMaps = replicate (TAP_MAX tc) (\<lambda>_. False),
      IpNetmaskMap = Map.empty,
      FastPolicyMaps = replicate queueCount
        (map (\<lambda>j. if TAP_MIN tc \<le> j then Some (lru_New (unat mapSize)) else None)
             [0 ..< TAP_MAX tc]),
      FastPathDisable = fastPathDisable,
      MapSize = mapSize,
      GroupPortPolicyMaps = replicate (TAP_MAX tc) Map.empty,
      GroupVlanPolicyMaps = replicate (TAP_MAX tc) Map.empty,
      FirstPathHit = 0, FastPathHit = 0, FirstPathHitTick = 0, FastPathHitTick = 0,
      AclHitMax = 0\<rparr>"

section \<open>The two tiers of the lookup\<close>

text \<open>
  The three lookup loops of \<open>GetPolicyByFirstPath\<close> over the keys of one direction:
  every key the compiled map holds has its policy merged in, with the direction the
  loop tags it with (none for the vlan keys), and sets the loop's flag.
\<close>

fun lookup_loop ::
  "(u64 \<rightharpoonup> PolicyData) \<Rightarrow> DirectionType option \<Rightarrow> u64 list \<Rightarrow> PolicyData \<times> bool
   \<Rightarrow> PolicyData \<times> bool" where
  "lookup_loop table dir [] st = st"
| "lookup_loop table dir (key # keys) (acc, found) =
     (case table key of
        Some hit \<Rightarrow>
          lookup_loop table dir keys (Merge acc (AclActions hit) (ACLID hit) dir, True)
      | None \<Rightarrow> lookup_loop table dir keys (acc, found))"

definition GetPolicyByFirstPath ::
  "PolicyLabel \<Rightarrow> EndpointData \<Rightarrow> LookupKey \<Rightarrow> (PolicyLabel \<times> LookupKey \<times> PolicyRef) option" where
  "GetPolicyByFirstPath l endpointData packet0 =
     (case generateInterestKeys l endpointData packet0 of
        None \<Rightarrow> None
      | Some packet \<Rightarrow>
          if Tap packet < length (GroupPortPolicyMaps l)
             \<and> Tap packet < length (GroupVlanPolicyMaps l)
          then
            (let portGroup = GroupPortPolicyMaps l ! Tap packet;
                 vlanGroup = GroupVlanPolicyMaps l ! Tap packet;
                 (findPolicy1, vlanFound) =
                   (if 0 < Vlan packet
                    then lookup_loop vlanGroup None
                           (generateGroupVlanKeys (SrcGroupIds packet) (DstGroupIds packet)
                              (Vlan packet))
                           (empty_PolicyData, False)
                    else (empty_PolicyData, False))
             in case (if 0 < Vlan packet
                      then addVlanFastPolicy l endpointData packet findPolicy1
                      else Some l) of
                  None \<Rightarrow> None
                | Some l1 \<Rightarrow>
                    (let (forward, portFound1) =
                           lookup_loop portGroup (Some FORWARD)
                             (generateSearchPortKeys (SrcGroupIds packet) (DstGroupIds packet)
                                (DstPort packet) (Proto packet))
                             (empty_PolicyData, False);
                         findPolicy2 =
                           (if length (AclActions forward) > 0
                            then Merge findPolicy1 (AclActions forward) (ACLID forward)
                                   (Some FORWARD)
                            else findPolicy1)
                     in case addPortFastPolicy l1 endpointData packet forward FORWARD of
                          None \<Rightarrow> None
                        | Some l2 \<Rightarrow>
                            (let (backward, portFound2) =
                                   lookup_loop portGroup (Some BACKWARD)
                                     (generateSearchPortKeys (DstGroupIds packet)
                                        (SrcGroupIds packet) (SrcPort packet) (Proto packet))
                                     (empty_PolicyData, portFound1);
                                 findPolicy3 =
                                   (if length (AclActions backward) > 0
                                    then Merge findPolicy2 (AclActions backward)
                                           (ACLID backward) (Some BACKWARD)
                                    else findPolicy2)
                             in case addPortFastPolicy l2 endpointData packet backward BACKWARD of
                                  None \<Rightarrow> None
                                | Some l3 \<Rightarrow>
                                    Some (l3\<lparr>FirstPathHit := FirstPathHit l3 + 1,
                                             FirstPathHitTick := FirstPathHitTick l3 + 1\<rparr>,
                                          packet,
                                          if \<not> portFound2 \<and> \<not> vlanFound
                                          then INVALID_POLICY_DATA
                                          else Policy findPolicy3))))
          else None)"

text \<open>
  One round of the loop of \<open>GetPolicyByFastPath\<close> over the two directions. The state of
  the loop: the classifier, the policy merged so far, the endpoint last returned, and the
  three flags.
\<close>

definition fast_direction ::
  "LookupKey \<Rightarrow> DirectionType
   \<Rightarrow> PolicyLabel \<times> PolicyData \<times> EndpointData option \<times> bool \<times> bool \<times> bool
   \<Rightarrow> (PolicyLabel \<times> PolicyData \<times> EndpointData option \<times> bool \<times> bool \<times> bool) option" where
  "fast_direction packet direction st =
     (case st of (l, policy0, endpoint0, portForwardFound, portBackwardFound, vlanFound) \<Rightarrow>
        (case getVlanAndPortMap l packet direction False of
           None \<Rightarrow> None
         | Some (l1, None) \<Rightarrow>
             Some (l1, policy0, endpoint0, portForwardFound, portBackwardFound, vlanFound)
         | Some (l1, Some maps) \<Rightarrow>
             (let (maps1, policy1, endpoint1, vlanFound1) =
                    (if 0 < Vlan packet \<and> direction = FORWARD
                     then (case getFastVlanPolicy maps packet direction policy0 of
                             (m, p, e) \<Rightarrow> (m, p, e, e \<noteq> None))
                     else (maps, policy0, endpoint0, vlanFound));
                  (maps2, policy2, endpoint2) = getFastPortPolicy maps1 packet direction policy1;
                  portForwardFound1 =
                    (if endpoint2 \<noteq> None \<and> direction = FORWARD then True
                     else portForwardFound);
                  portBackwardFound1 =
                    (if endpoint2 \<noteq> None \<and> direction \<noteq> FORWARD then True
                     else portBackwardFound)
              in Some (store_maps l1 packet direction maps2, policy2, endpoint2,
                       portForwardFound1, portBackwardFound1, vlanFound1))))"

definition GetPolicyByFastPath ::
  "PolicyLabel \<Rightarrow> LookupKey
   \<Rightarrow> (PolicyLabel \<times> LookupKey \<times> EndpointData option \<times> PolicyRef) option" where
  "GetPolicyByFastPath l packet0 =
     (if FastPathDisable l then Some (l, packet0, None, INVALID_POLICY_DATA)
      else
        (case getFastInterestKeys l packet0 of
           None \<Rightarrow> None
         | Some packet \<Rightarrow>
             (case fast_direction packet FORWARD
                     (l, empty_PolicyData, None, False, False, True) of
                None \<Rightarrow> None
              | Some st1 \<Rightarrow>
                  (case fast_direction packet BACKWARD st1 of
                     None \<Rightarrow> None
                   | Some (l2, policy2, endpoint2, portForwardFound, portBackwardFound,
                           vlanFound) \<Rightarrow>
                       if \<not> (portForwardFound \<and> portBackwardFound \<and> vlanFound)
                       then Some (l2, packet, None, INVALID_POLICY_DATA)
                       else
                         (let l3 = l2\<lparr>FastPathHit := FastPathHit l2 + 1,
                                       FastPathHitTick := FastPathHitTick l2 + 1\<rparr>;
                              hitData = AclHitMax l3;
                              aclLen = (of_nat (length (AclActions policy2)) :: u64);
                              l4 = (if hitData < aclLen then l3\<lparr>AclHitMax := aclLen\<rparr> else l3)
                          in Some (l4, packet, endpoint2, Policy policy2))))))"

section \<open>One cell of the fast-path cache\<close>

text \<open>
  Every access of one lookup goes to the same cell \<open>FastPolicyMaps[FastIndex][Tap]\<close>. For
  the proofs, what the functions above do to that cell: \<open>upd_maps\<close> is a
  \<open>getVlanAndPortMap\<close> that creates, followed by a change of the map it returns; the
  \<open>seed\<close> functions are the changes \<open>addVlanFastPolicy\<close> and \<open>addPortFastPolicy\<close> make,
  and \<open>probe_maps\<close> is what one round of \<open>GetPolicyByFastPath\<close> does with a map it
  found.
\<close>

definition epc_of :: "EndpointInfo \<Rightarrow> u32" where
  "epc_of endpointInfo = snd (addEpcMap new_VlanAndPortMap endpointInfo 0)"

definition upd_maps ::
  "u64 \<Rightarrow> (VlanAndPortMap \<Rightarrow> VlanAndPortMap) \<Rightarrow> (u64, VlanAndPortMap) Cache
   \<Rightarrow> (u64, VlanAndPortMap) Cache" where
  "upd_maps key f c =
     (case lru_peek key c of
        Some data \<Rightarrow> lru_store key (f data) (snd (lru_Get key c))
      | None \<Rightarrow> lru_store key (f new_VlanAndPortMap) (lru_Add key new_VlanAndPortMap c))"

definition seed_macs :: "EndpointData \<Rightarrow> LookupKey \<Rightarrow> VlanAndPortMap \<Rightarrow> VlanAndPortMap" where
  "seed_macs e p m =
     m\<lparr>macEpcMap := lru_Add (DstMac p) (epc_of (DstInfo e))
                       (lru_Add (SrcMac p) (epc_of (SrcInfo e)) (macEpcMap m))\<rparr>"

definition stored_value :: "EndpointData \<Rightarrow> LookupKey \<Rightarrow> PolicyData \<Rightarrow> FastPathMapValue" where
  "stored_value e p pol =
     \<lparr>endpoint = e, policy = Merge empty_PolicyData (AclActions pol) (ACLID pol) None,
      timestamp = Timestamp p\<rparr>"

definition vlan_key_of :: "EndpointData \<Rightarrow> LookupKey \<Rightarrow> DirectionType \<Rightarrow> u64" where
  "vlan_key_of e p d =
     (if d = BACKWARD
      then fast_vlan_key (Vlan p) (ucast (epc_of (DstInfo e))) (ucast (epc_of (SrcInfo e)))
      else fast_vlan_key (Vlan p) (ucast (epc_of (SrcInfo e))) (ucast (epc_of (DstInfo e))))"

definition port_key_of :: "EndpointData \<Rightarrow> LookupKey \<Rightarrow> DirectionType \<Rightarrow> u64" where
  "port_key_of e p d =
     (if d = BACKWARD
      then fast_port_key (ucast (epc_of (DstInfo e))) (ucast (epc_of (SrcInfo e)))
             (Proto p) (SrcPort p)
      else fast_port_key (ucast (epc_of (SrcInfo e))) (ucast (epc_of (DstInfo e)))
             (Proto p) (DstPort p))"

definition seed_vlan ::
  "EndpointData \<Rightarrow> LookupKey \<Rightarrow> PolicyData \<Rightarrow> DirectionType \<Rightarrow> VlanAndPortMap
   \<Rightarrow> VlanAndPortMap" where
  "seed_vlan e p pol d m =
     (seed_macs e p m)\<lparr>vlanPolicyMap :=
        lru_Add (vlan_key_of e p d)
          (if d = BACKWARD
           then \<lparr>endpoint = swap_endpoint e,
                 policy = MergeAndSwapDirection empty_PolicyData (AclActions pol) (ACLID pol),
                 timestamp = Timestamp p\<rparr>
           else stored_value e p pol)
          (vlanPolicyMap m)\<rparr>"

definition seed_port ::
  "EndpointData \<Rightarrow> LookupKey \<Rightarrow> PolicyData \<Rightarrow> DirectionType \<Rightarrow> VlanAndPortMap
   \<Rightarrow> VlanAndPortMap" where
  "seed_port e p pol d m =
     (seed_macs e p m)\<lparr>portPolicyMap :=
        lru_Add (port_key_of e p d)
          (stored_value (if d = BACKWARD then swap_endpoint e else e) p pol)
          (portPolicyMap m)\<rparr>"

definition probe_maps ::
  "LookupKey \<Rightarrow> DirectionType \<Rightarrow> PolicyData \<times> EndpointData option \<times> bool \<Rightarrow> VlanAndPortMap
   \<Rightarrow> VlanAndPortMap \<times> PolicyData \<times> EndpointData option \<times> bool" where
  "probe_maps p d st maps =
     (case st of (policy0, endpoint0, vlanFound) \<Rightarrow>
        (let (maps1, policy1, endpoint1, vlanFound1) =
               (if 0 < Vlan p \<and> d = FORWARD
                then (case getFastVlanPolicy maps p d policy0 of
                        (m, q, e) \<Rightarrow> (m, q, e, e \<noteq> None))
                else (maps, policy0, endpoint0, vlanFound));
             (maps2, policy2, endpoint2) = getFastPortPolicy maps1 p d policy1
         in (maps2, policy2, endpoint2, vlanFound1)))"

definition caps_ok :: "VlanAndPortMap \<Rightarrow> bool" where
  "caps_ok m \<longleftrightarrow>
     MaxEntries (macEpcMap m) = FAST_PATH_EPC_MAP_SIZE_LIMIT
     \<and> MaxEntries (vlanPolicyMap m) = FAST_PATH_POLICY_MAP_SIZE_LIMIT
     \<and> MaxEntries (portPolicyMap m) = FAST_PATH_POLICY_MAP_SIZE_LIMIT"

definition lru_head :: "('k, 'v) Cache \<Rightarrow> 'k option" where
  "lru_head c = (case entries c of [] \<Rightarrow> None | e # es \<Rightarrow> Some (fst e))"

text \<open>
  The three lookups of \<open>GetPolicyByFirstPath\<close> on a normalised key, the policy it
  returns, and the cell it leaves.
\<close>

definition first_vlan :: "PolicyLabel \<Rightarrow> LookupKey \<Rightarrow> PolicyData \<times> bool" where
  "first_vlan l p =
     (if 0 < Vlan p
      then lookup_loop (GroupVlanPolicyMaps l ! Tap p) None
             (generateGroupVlanKeys (SrcGroupIds p) (DstGroupIds p) (Vlan p))
             (empty_PolicyData, False)
      else (empty_PolicyData, False))"

definition first_forward :: "PolicyLabel \<Rightarrow> LookupKey \<Rightarrow> PolicyData \<times> bool" where
  "first_forward l p =
     lookup_loop (GroupPortPolicyMaps l ! Tap p) (Some FORWARD)
       (generateSearchPortKeys (SrcGroupIds p) (DstGroupIds p) (DstPort p) (Proto p))
       (empty_PolicyData, False)"

definition first_backward :: "PolicyLabel \<Rightarrow> LookupKey \<Rightarrow> PolicyData \<times> bool" where
  "first_backward l p =
     lookup_loop (GroupPortPolicyMaps l ! Tap p) (Some BACKWARD)
       (generateSearchPortKeys (DstGroupIds p) (SrcGroupIds p) (SrcPort p) (Proto p))
       (empty_PolicyData, snd (first_forward l p))"

definition first_merged :: "PolicyLabel \<Rightarrow> LookupKey \<Rightarrow> PolicyData" where
  "first_merged l p =
     (let findPolicy1 = fst (first_vlan l p);
          forward = fst (first_forward l p);
          findPolicy2 = (if length (AclActions forward) > 0
                         then Merge findPolicy1 (AclActions forward) (ACLID forward) (Some FORWARD)
                         else findPolicy1);
          backward = fst (first_backward l p)
      in if length (AclActions backward) > 0
         then Merge findPolicy2 (AclActions backward) (ACLID backward) (Some BACKWARD)
         else findPolicy2)"

definition first_result :: "PolicyLabel \<Rightarrow> LookupKey \<Rightarrow> PolicyRef" where
  "first_result l p =
     (if \<not> snd (first_backward l p) \<and> \<not> snd (first_vlan l p) then INVALID_POLICY_DATA
      else Policy (first_merged l p))"

definition first_cell ::
  "PolicyLabel \<Rightarrow> EndpointData \<Rightarrow> LookupKey \<Rightarrow> (u64, VlanAndPortMap) Cache
   \<Rightarrow> (u64, VlanAndPortMap) Cache" where
  "first_cell l e p c =
     upd_maps (fast_subnet_key l p BACKWARD) (seed_port e p (fst (first_backward l p)) BACKWARD)
       (upd_maps (fast_subnet_key l p FORWARD) (seed_port e p (fst (first_forward l p)) FORWARD)
          (if 0 < Vlan p
           then upd_maps (fast_subnet_key l p BACKWARD)
                  (seed_vlan e p (fst (first_vlan l p)) BACKWARD)
                  (upd_maps (fast_subnet_key l p FORWARD)
                     (seed_vlan e p (fst (first_vlan l p)) FORWARD) c)
           else c))"

text \<open>
  What a round of the fast path needs of the map of its direction: both MACs bound to
  the EPC ids of the endpoints, the port entry of the direction, and for the forward
  direction of a query with a vlan the vlan entry.
\<close>

definition seeded ::
  "EndpointData \<Rightarrow> LookupKey \<Rightarrow> DirectionType \<Rightarrow> PolicyData \<Rightarrow> PolicyData \<Rightarrow> VlanAndPortMap
   \<Rightarrow> bool" where
  "seeded e p d pol vpol m \<longleftrightarrow>
     lru_peek (SrcMac p) (macEpcMap m) = Some (epc_of (SrcInfo e))
     \<and> lru_peek (DstMac p) (macEpcMap m) = Some (epc_of (DstInfo e))
     \<and> lru_peek (port_key_of e p d) (portPolicyMap m)
         = Some (stored_value (if d = BACKWARD then swap_endpoint e else e) p pol)
     \<and> (if d = FORWARD \<and> 0 < Vlan p
         then lru_peek (vlan_key_of e p FORWARD) (vlanPolicyMap m) = Some (stored_value e p vpol)
         else True)"

text \<open>The hypotheses of the consistency of the two tiers, on a normalised key.\<close>

definition no_collision :: "PolicyLabel \<Rightarrow> EndpointData \<Rightarrow> LookupKey \<Rightarrow> bool" where
  "no_collision l e p \<longleftrightarrow>
     (SrcMac p \<noteq> DstMac p \<or> epc_of (SrcInfo e) = epc_of (DstInfo e))
     \<and> (if fast_subnet_key l p FORWARD = fast_subnet_key l p BACKWARD
         then port_key_of e p FORWARD \<noteq> port_key_of e p BACKWARD
              \<and> (if 0 < Vlan p then vlan_key_of e p FORWARD \<noteq> vlan_key_of e p BACKWARD
                  else True)
         else True)"

definition cell_ok :: "PolicyLabel \<Rightarrow> LookupKey \<Rightarrow> (u64, VlanAndPortMap) Cache \<Rightarrow> bool" where
  "cell_ok l p c \<longleftrightarrow>
     (MaxEntries c \<noteq> 1 \<or> fast_subnet_key l p FORWARD = fast_subnet_key l p BACKWARD)
     \<and> list_all (\<lambda>entry. caps_ok (snd entry)) (entries c)"

definition maps_or_new :: "u64 \<Rightarrow> (u64, VlanAndPortMap) Cache \<Rightarrow> VlanAndPortMap" where
  "maps_or_new K c = (case lru_peek K c of Some m \<Rightarrow> m | None \<Rightarrow> new_VlanAndPortMap)"

definition cell_caps :: "(u64, VlanAndPortMap) Cache \<Rightarrow> bool" where
  "cell_caps c \<longleftrightarrow> (\<forall>K m. lru_peek K c = Some m \<longrightarrow> caps_ok m)"

definition maps_similar :: "VlanAndPortMap \<Rightarrow> VlanAndPortMap \<Rightarrow> bool" where
  "maps_similar m m' \<longleftrightarrow>
     (\<forall>k. lru_peek k (macEpcMap m) = lru_peek k (macEpcMap m'))
     \<and> (\<forall>k. lru_peek k (vlanPolicyMap m) = lru_peek k (vlanPolicyMap m'))
     \<and> (\<forall>k. lru_peek k (portPolicyMap m) = lru_peek k (portPolicyMap m'))"

definition probe_policy ::
  "LookupKey \<Rightarrow> DirectionType \<Rightarrow> PolicyData \<Rightarrow> PolicyData \<Rightarrow> PolicyData \<Rightarrow> EndpointData
   \<Rightarrow> PolicyData" where
  "probe_policy p d pol vpol pol0 e =
     (let e' = (if d = BACKWARD then swap_endpoint e else e);
          pol1 = (if 0 < Vlan p \<and> d = FORWARD
                  then Merge pol0 (AclActions (policy (stored_value e p vpol)))
                         (ACLID (policy (stored_value e p vpol))) None
                  else pol0)
      in Merge pol1 (AclActions (policy (stored_value e' p pol)))
           (ACLID (policy (stored_value e' p pol))) (Some d))"

text \<open>
  The same without regard to what the entries hold: both MACs bound to the EPC ids of the
  endpoints, an entry with the timestamp of the query under the port key of the
  direction, and for the forward direction of a query with a vlan one under the vlan key.
\<close>

definition fresh_at :: "LookupKey \<Rightarrow> u64 \<Rightarrow> (u64, FastPathMapValue) Cache \<Rightarrow> bool" where
  "fresh_at p k c \<longleftrightarrow>
     (case lru_peek k c of None \<Rightarrow> False | Some val \<Rightarrow> timestamp val = Timestamp p)"

definition present :: "EndpointData \<Rightarrow> LookupKey \<Rightarrow> DirectionType \<Rightarrow> VlanAndPortMap \<Rightarrow> bool" where
  "present e p d m \<longleftrightarrow>
     lru_peek (SrcMac p) (macEpcMap m) = Some (epc_of (SrcInfo e))
     \<and> lru_peek (DstMac p) (macEpcMap m) = Some (epc_of (DstInfo e))
     \<and> fresh_at p (port_key_of e p d) (portPolicyMap m)
     \<and> (if d = FORWARD \<and> 0 < Vlan p
         then fresh_at p (vlan_key_of e p FORWARD) (vlanPolicyMap m) else True)"

section \<open>Example data\<close>

text \<open>Concrete endpoints, packets and caches, for the instances evaluated below.\<close>

definition ex_info :: "u32 list \<Rightarrow> i32 \<Rightarrow> EndpointInfo" where
  "ex_info groups epc = \<lparr>GroupIds = groups, L2EpcId = epc, L3EpcId = 0\<rparr>"

definition ex_endpoint :: EndpointData where
  "ex_endpoint = \<lparr>SrcInfo = ex_info [10] 7, DstInfo = ex_info [20] 8\<rparr>"

definition ex_packet :: "i64 \<Rightarrow> LookupKey" where
  "ex_packet ts = \<lparr>Tap = 1, Timestamp = ts, FastIndex = 0, SrcMac = 1, DstMac = 2,
     SrcIp = 0x0A000001, DstIp = 0x0A010002, SrcPort = 1000, DstPort = 80, Vlan = 100,
     Proto = 6, SrcGroupIds = [], DstGroupIds = []\<rparr>"

definition ex_value :: "i64 \<Rightarrow> FastPathMapValue" where
  "ex_value ts = \<lparr>endpoint = ex_endpoint, policy = empty_PolicyData, timestamp = ts\<rparr>"

definition ex_maps :: "i64 \<Rightarrow> VlanAndPortMap" where
  "ex_maps ts =
     \<lparr>macEpcMap = \<lparr>MaxEntries = 128, entries = [(1, 7), (2, 8)]\<rparr>,
      vlanPolicyMap = \<lparr>MaxEntries = 1024, entries = [(fast_vlan_key 100 7 8, ex_value ts)]\<rparr>,
      portPolicyMap = \<lparr>MaxEntries = 1024, entries = [(fast_port_key 7 8 6 80, ex_value ts)]\<rparr>\<rparr>"


definition ex_port_maps :: "i64 \<Rightarrow> VlanAndPortMap" where
  "ex_port_maps ts = (ex_maps ts)\<lparr>vlanPolicyMap := lru_New 1024\<rparr>"

definition ex_taps :: TapTypes where
  "ex_taps = \<lparr>TAP_ANY = 0, TAP_MIN = 1, TAP_MAX = 4, CheckTapType = (\<lambda>t. t < 4)\<rparr>"

definition ex_acl :: "u32 \<Rightarrow> Acl" where
  "ex_acl v = \<lparr>Id = 1, Type = 1, TapId = 0, SrcGroups = [(1, 1)], DstGroups = [(2, 2)],
     DstPorts = [], Acl.Proto = 0, Acl.Vlan = v,
     Action = [\<lparr>action_id = 1, directions = {}\<rparr>]\<rparr>"

definition ex_seeded :: PolicyLabel where
  "ex_seeded = (NewPolicyLabel ex_taps 1 0 False)
     \<lparr>FastPolicyMaps :=
        [[None, Some \<lparr>MaxEntries = 0, entries = [(5, new_VlanAndPortMap)]\<rparr>,
          Some (lru_New 0), Some (lru_New 0)]]\<rparr>"


text \<open>
  An address library for the examples. \<open>ParseIP\<close> does what Go's \<open>net.ParseIP\<close> does
  on the three texts used below: a dotted quad gives the 16-byte form of the address
  (ten zero bytes, two bytes \<open>0xff\<close>, the four bytes of the quad), and a text that is
  no address gives nil. Modelled from the spec: \<open>IpToUint32\<close> is not among the sources;
  the comment in \<open>GenerateIpNetmaskMapFromIpResource\<close> reads \<open>1.2.3.4/24\<close> as the net
  \<open>1.2.3\<close> under the mask \<open>0xffffff00\<close>, so the library here returns the IPv4 address
  of a slice, its last four bytes, most significant first, and 0 for a shorter slice.
  The statements on this library are instances of statements that hold for every library
  reading the two addresses so.
\<close>

definition ex_lib :: IpLib where
  "ex_lib =
     \<lparr>ParseIP = (\<lambda>s. if s = ''10.0.0.0''
                      then [0, 0, 0, 0, 0, 0, 0, 0, 0, 0, 0xff, 0xff, 10, 0, 0, 0]
                      else if s = ''10.0.1.5''
                      then [0, 0, 0, 0, 0, 0, 0, 0, 0, 0, 0xff, 0xff, 10, 0, 1, 5]
                      else []),
      IpToUint32 = (\<lambda>bs. case drop (length bs - 4) bs of
                            [a, b, c, d] \<Rightarrow> push_bit 24 (ucast a) OR push_bit 16 (ucast b)
                                              OR push_bit 8 (ucast c) OR ucast d
                          | _ \<Rightarrow> 0)\<rparr>"

definition ex_label :: PolicyLabel where
  "ex_label = NewPolicyLabel ex_taps 1 0 False"

definition ex_group :: "string list \<Rightarrow> IpGroupData" where
  "ex_group raws = \<lparr>IpGroupData.Ips = raws\<rparr>"

definition ex_platform :: "(u32 \<times> u32) list \<Rightarrow> PlatformData" where
  "ex_platform nets =
     \<lparr>Mac = 1, PlatformData.Ips = map (\<lambda>(a, n). \<lparr>Ip = a, Netmask = n, SubnetId = 0\<rparr>) nets,
      EpcId = 0, IfType = 0\<rparr>"

definition ex_two_groups :: "IpGroupData list" where
  "ex_two_groups = [ex_group [''10.0.1.5/16''], ex_group [''10.0.0.0/24'']]"

definition ex_two_nets :: "PlatformData list" where
  "ex_two_nets = [ex_platform [(0x0A000000, 24), (0x0A000100, 24)]]"

text \<open>
  A rule from group 3 to group 4 for every port and protocol, the classifier that has
  compiled it, a new classifier of a given map size, two endpoints in groups 3 and 4 with
  EPC ids 7 and a given one, a query between them, and the query as
  \<open>generateInterestKeys\<close> leaves it with the rule compiled and without.
\<close>

definition ex_rule :: Acl where
  "ex_rule = \<lparr>Id = 5, Type = 2, TapId = 0, SrcGroups = [(3, 3)], DstGroups = [(4, 4)],
     DstPorts = [], Acl.Proto = 0, Acl.Vlan = 0,
     Action = [\<lparr>action_id = 7, directions = {}\<rparr>]\<rparr>"

definition ex_rules :: PolicyLabel where
  "ex_rules = (case UpdateAcls ex_taps ex_label [ex_rule] of Some l \<Rightarrow> l | None \<Rightarrow> ex_label)"

definition ex_policy :: PolicyData where
  "ex_policy = \<lparr>ACLID = 5, AclActions = [\<lparr>action_id = 7, directions = {}\<rparr>]\<rparr>"

definition ex_peers :: "i32 \<Rightarrow> EndpointData" where
  "ex_peers dstEpc = \<lparr>SrcInfo = ex_info [3] 7, DstInfo = ex_info [4] dstEpc\<rparr>"

definition ex_query :: "u32 \<Rightarrow> LookupKey" where
  "ex_query dstIp = \<lparr>Tap = 2, Timestamp = 0, FastIndex = 0, SrcMac = 11, DstMac = 12,
     SrcIp = 0x0A000001, DstIp = dstIp, SrcPort = 1000, DstPort = 80, Vlan = 0,
     Proto = 6, SrcGroupIds = [], DstGroupIds = []\<rparr>"

definition ex_key :: "u32 \<Rightarrow> LookupKey" where
  "ex_key dstIp = \<lparr>Tap = 2, Timestamp = 0, FastIndex = 0, SrcMac = 11, DstMac = 12,
     SrcIp = 0x0A000001, DstIp = dstIp, SrcPort = 0, DstPort = 0, Vlan = 0,
     Proto = 0, SrcGroupIds = [3, 0], DstGroupIds = [4, 0]\<rparr>"



definition ex_forward :: PolicyData where
  "ex_forward = \<lparr>ACLID = 5, AclActions = [\<lparr>action_id = 7, directions = {FORWARD}\<rparr>]\<rparr>"

section \<open>Properties of the key codec\<close>

lemma group_bits_clear:
  fixes B :: u64 and s d :: u32
  assumes "B AND mask 40 = 0"
  shows "(B OR (push_bit 20 (ucast (s AND 0xfffff) :: u64) OR (ucast (d AND 0xfffff) :: u64)))
         AND 0xffffff0000000000 = B"
proof -
  have c: "(0xffffff0000000000 :: u64) = NOT (mask 40)"
    by (simp add: mask_eq_exp_minus_1)
  have m: "(0xfffff :: u32) = mask 20"
    by (simp add: mask_eq_exp_minus_1)
  have b: "\<And>n. n < 40 \<Longrightarrow> \<not> bit B n"
  proof
    fix n :: nat assume "n < 40" "bit B n"
    then have "bit (B AND mask 40) n" by (simp add: bit_simps)
    with assms show False by simp
  qed
  show ?thesis
    unfolding c m
    by (rule bit_word_eqI) (auto simp: bit_simps dest: b)
qed

lemma port_base_low:
  "(push_bit 40 (ucast (port :: u16) :: u64) OR push_bit 56 (ucast (proto :: u8) :: u64))
     AND mask 40 = 0"
  by (rule bit_word_eqI) (auto simp: bit_simps)

lemma vlan_base_low: "push_bit 48 (ucast (vlan :: u16) :: u64) AND mask 40 = 0"
  by (rule bit_word_eqI) (auto simp: bit_simps)

lemma port_dst_loop_eq:
  assumes "B AND mask 40 = 0"
  shows "port_dst_loop (ucast ((s::u32) AND 0xfffff)) ds (B, keys) =
     (B, keys @ map (\<lambda>d. B OR (push_bit 20 (ucast (s AND 0xfffff)) OR ucast (d AND 0xfffff))) ds)"
proof (induction ds arbitrary: keys)
  case Nil
  show ?case by simp
next
  case (Cons a ds)
  show ?case
    by (simp add: Let_def group_bits_clear [OF assms] Cons.IH del: push_bit_and)
qed

lemma port_src_loop_eq:
  assumes "B AND mask 40 = 0"
  shows "port_src_loop ss ds (B, keys) =
     (B, keys @ concat (map (\<lambda>s::u32. map (\<lambda>d. B OR (push_bit 20 (ucast (s AND 0xfffff))
                                                  OR ucast (d AND 0xfffff))) ds) ss))"
  using assms
  by (induction ss arbitrary: keys) (simp_all add: port_dst_loop_eq Let_def)

lemma vlan_dst_loop_eq:
  assumes "B AND mask 40 = 0"
  shows "vlan_dst_loop (ucast ((s::u32) AND 0xfffff)) ds (B, keys) =
     (B, keys @ map (\<lambda>d. B OR (push_bit 20 (ucast (s AND 0xfffff)) OR ucast (d AND 0xfffff))) ds)"
proof (induction ds arbitrary: keys)
  case Nil
  show ?case by simp
next
  case (Cons a ds)
  show ?case
    by (simp add: Let_def group_bits_clear [OF assms] Cons.IH del: push_bit_and)
qed

lemma vlan_src_loop_eq:
  assumes "B AND mask 40 = 0"
  shows "vlan_src_loop ss ds (B, keys) =
     (B, keys @ concat (map (\<lambda>s::u32. map (\<lambda>d. B OR (push_bit 20 (ucast (s AND 0xfffff))
                                                  OR ucast (d AND 0xfffff))) ds) ss))"
  using assms
  by (induction ss arbitrary: keys) (simp_all add: vlan_dst_loop_eq Let_def)

lemma or_any_if:
  "(if length groups = 0 then groups @ [ANY_GROUP] else groups) = or_any groups"
  by (simp add: or_any_def)

lemma generateGroupPortKeys_eq:
  "generateGroupPortKeys srcGroups dstGroups port proto =
     port_keys_of srcGroups dstGroups port proto"
  unfolding generateGroupPortKeys_def or_any_if
  by (simp add: port_keys_of_def pack_port_key_def Let_def
      port_src_loop_eq [OF port_base_low] ac_simps)

lemma generateGroupVlanKeys_eq:
  "generateGroupVlanKeys srcGroups dstGroups vlan = vlan_keys_of srcGroups dstGroups vlan"
  unfolding generateGroupVlanKeys_def or_any_if
  by (simp add: vlan_keys_of_def pack_vlan_key_def Let_def
      vlan_src_loop_eq [OF vlan_base_low] ac_simps)

lemma generateSearchPortKeys_eq:
  "generateSearchPortKeys srcGroups dstGroups port proto =
     port_keys_of srcGroups dstGroups port proto
     @ (if port \<noteq> 0 then port_keys_of srcGroups dstGroups 0 proto else [])
     @ (if proto \<noteq> 0 then port_keys_of srcGroups dstGroups 0 0 else [])
     @ (if proto \<noteq> 0 \<and> port \<noteq> 0 then port_keys_of srcGroups dstGroups port 0 else [])"
  by (simp add: generateSearchPortKeys_def generateGroupPortKeys_eq ANY_PORT_def ANY_PROTO_def)

lemma pack_in_port_keys_of:
  "src \<in> set (or_any srcGroups) \<Longrightarrow> dst \<in> set (or_any dstGroups) \<Longrightarrow>
   pack_port_key proto port src dst \<in> set (port_keys_of srcGroups dstGroups port proto)"
  by (auto simp: port_keys_of_def)

text \<open>
  C8. The keys \<open>generateSearchPortKeys\<close> returns: for every pair of a source and a
  destination group of the inputs (an empty list standing for the wildcard group 0) the
  list holds the key of that pair with protocol 0 and port 0; and the list is the base
  keys of (port, proto), then the keys of (0, proto) when the port is not 0, then the keys
  of (0, 0) when the protocol is not 0, then the keys of (port, 0) when both are not 0:
  four blocks when port and protocol are both given, fewer when one is already 0.
\<close>

theorem generateSearchPortKeys_wildcards:
  "(\<forall>src \<in> set (or_any srcGroups). \<forall>dst \<in> set (or_any dstGroups).
      pack_port_key 0 0 src dst \<in> set (generateSearchPortKeys srcGroups dstGroups port proto))
   \<and> generateSearchPortKeys srcGroups dstGroups port proto =
       port_keys_of srcGroups dstGroups port proto
       @ (if port \<noteq> 0 then port_keys_of srcGroups dstGroups 0 proto else [])
       @ (if proto \<noteq> 0 then port_keys_of srcGroups dstGroups 0 0 else [])
       @ (if proto \<noteq> 0 \<and> port \<noteq> 0 then port_keys_of srcGroups dstGroups port 0 else [])"
proof (intro conjI ballI)
  fix src dst
  assume m: "src \<in> set (or_any srcGroups)" "dst \<in> set (or_any dstGroups)"
  have z: "pack_port_key 0 0 src dst \<in> set (port_keys_of srcGroups dstGroups 0 0)"
    using m by (rule pack_in_port_keys_of)
  show "pack_port_key 0 0 src dst \<in> set (generateSearchPortKeys srcGroups dstGroups port proto)"
  proof (cases "proto = 0")
    case False
    with z show ?thesis by (simp add: generateSearchPortKeys_eq)
  next
    case True
    with z show ?thesis by (cases "port = 0") (simp_all add: generateSearchPortKeys_eq)
  qed
next
  show "generateSearchPortKeys srcGroups dstGroups port proto =
       port_keys_of srcGroups dstGroups port proto
       @ (if port \<noteq> 0 then port_keys_of srcGroups dstGroups 0 proto else [])
       @ (if proto \<noteq> 0 then port_keys_of srcGroups dstGroups 0 0 else [])
       @ (if proto \<noteq> 0 \<and> port \<noteq> 0 then port_keys_of srcGroups dstGroups port 0 else [])"
    by (rule generateSearchPortKeys_eq)
qed

theorem generateSearchPortKeys_wildcards_witness:
  "pack_port_key 0 0 10 20 = 10485780
   \<and> 10485780 \<in> set (generateSearchPortKeys [10] [20] 80 6)
   \<and> generateSearchPortKeys [10] [20] 80 6 =
       [432433525168275476, 432345564238053396, 10485780, 87960940707860]
   \<and> generateSearchPortKeys [] [20, 21] 0 6 =
       [432345564227567636, 432345564227567637, 20, 21]"
  using generateSearchPortKeys_wildcards [of "[10]" "[20]" 80 6]
    generateSearchPortKeys_wildcards [of "[]" "[20, 21]" 0 6]
  by (simp add: port_keys_of_def or_any_def ANY_GROUP_def pack_port_key_def)

section \<open>Properties of the LRU cache\<close>

lemma map_of_lru_without: "map_of (lru_without k es) k' = (if k' = k then None else map_of es k')"
  by (induction es) (auto simp: lru_without_def)

lemma peek_New [simp]: "lru_peek k (lru_New n) = None"
  by (simp add: lru_peek_def lru_New_def)

lemma map_of_butlast_head:
  "es \<noteq> [] \<Longrightarrow> map_of (butlast ((k, v) # es)) k = Some v"
  by (cases es) simp_all

lemma peek_Add_same [simp]: "lru_peek k (lru_Add k v c) = Some v"
  by (cases "entries c")
     (auto simp: lru_peek_def lru_Add_def Let_def map_of_lru_without split: option.splits)

lemma peek_Get: "lru_peek k' (snd (lru_Get k c)) = lru_peek k' c"
  by (auto simp: lru_peek_def lru_Get_def map_of_lru_without split: option.splits)

lemma fst_Get: "fst (lru_Get k c) = lru_peek k c"
  by (auto simp: lru_peek_def lru_Get_def split: option.splits)

lemma peek_Remove: "lru_peek k' (lru_Remove k c) = (if k' = k then None else lru_peek k' c)"
  by (simp add: lru_peek_def lru_Remove_def map_of_lru_without)

lemma map_of_store:
  "map_of (map (\<lambda>e. if fst e = k then (k, v) else e) es) k' =
     (if k' = k then (case map_of es k of None \<Rightarrow> None | Some _ \<Rightarrow> Some v) else map_of es k')"
  by (induction es) (auto split: option.splits)

lemma peek_store:
  "lru_peek k' (lru_store k v c) =
     (if k' = k then (case lru_peek k c of None \<Rightarrow> None | Some _ \<Rightarrow> Some v) else lru_peek k' c)"
  by (simp add: lru_peek_def lru_store_def map_of_store)


lemma Get_Some:
  "lru_peek k c = Some v \<Longrightarrow>
   lru_Get k c = (Some v, c\<lparr>entries := (k, v) # lru_without k (entries c)\<rparr>)"
  by (simp add: lru_peek_def lru_Get_def)

lemma Get_None: "lru_peek k c = None \<Longrightarrow> lru_Get k c = (None, c)"
  by (simp add: lru_peek_def lru_Get_def)

lemma peek_touch:
  "lru_peek k c = Some v \<Longrightarrow>
   lru_peek k' (c\<lparr>entries := (k, v) # lru_without k (entries c)\<rparr>) = lru_peek k' c"
  by (simp add: lru_peek_def map_of_lru_without)


section \<open>The EPC id of an endpoint\<close>

text \<open>
  C5, as the spec states it, fails where the layer-2 id is negative: the code asks for
  \<open>L2EpcId == 0\<close> before it looks at the layer-3 id, so an endpoint with layer-2 id -1
  and layer-3 id 5 gets the wildcard 0, where the stated preference gives 5.
\<close>

theorem addEpcMap_negative_l2_counterexample:
  "snd (addEpcMap new_VlanAndPortMap \<lparr>GroupIds = [], L2EpcId = - 1, L3EpcId = 5\<rparr> 1) = 0
   \<and> spec_epc_id \<lparr>GroupIds = [], L2EpcId = - 1, L3EpcId = 5\<rparr> = 5"
  by (simp add: addEpcMap_def spec_epc_id_def ANY_GROUP_def Let_def word_sless_alt)

text \<open>
  C5, amended. \<open>addEpcMap\<close> returns the layer-2 id if it is positive; if the layer-2 id
  is 0 it returns the layer-3 id if that is positive, \<open>0xFFFFFFFF\<close> if the layer-3 id is
  -1, and 0 otherwise; if the layer-2 id is negative it returns 0. It returns the id of
  the stated preference exactly when the layer-2 id is not negative or the layer-3 id is
  neither positive nor -1 (with a negative layer-2 id and such a layer-3 id both are 0).
  The id it returns is the one the MAC is bound to in \<open>macEpcMap\<close> afterwards.
\<close>

theorem addEpcMap_preference:
  "snd (addEpcMap maps e mac) =
     (if 0 <s L2EpcId e then L2EpcId e
      else if L2EpcId e = 0 \<and> 0 <s L3EpcId e then L3EpcId e
      else if L2EpcId e = 0 \<and> L3EpcId e = - 1 then 0xffffffff
      else 0)
   \<and> snd (addEpcMap maps e mac) = (if L2EpcId e <s 0 then 0 else spec_epc_id e)
   \<and> (snd (addEpcMap maps e mac) = spec_epc_id e
        \<longleftrightarrow> 0 \<le>s L2EpcId e \<or> (L3EpcId e \<le>s 0 \<and> L3EpcId e \<noteq> - 1))
   \<and> lru_peek mac (macEpcMap (fst (addEpcMap maps e mac))) = Some (snd (addEpcMap maps e mac))"
proof -
  have pos: "0 <s x \<Longrightarrow> x \<noteq> 0" for x :: i32
    by (auto simp: word_sless_alt)
  have a: "snd (addEpcMap maps e mac) =
     (if 0 <s L2EpcId e then L2EpcId e
      else if L2EpcId e = 0 \<and> 0 <s L3EpcId e then L3EpcId e
      else if L2EpcId e = 0 \<and> L3EpcId e = - 1 then 0xffffffff
      else 0)"
    by (auto simp: addEpcMap_def ANY_GROUP_def Let_def word_sless_alt signed_eq_0_iff)
  have b: "snd (addEpcMap maps e mac) = (if L2EpcId e <s 0 then 0 else spec_epc_id e)"
    by (auto simp: addEpcMap_def spec_epc_id_def ANY_GROUP_def Let_def word_sless_alt
        signed_eq_0_iff)
  have c: "snd (addEpcMap maps e mac) = spec_epc_id e
        \<longleftrightarrow> 0 \<le>s L2EpcId e \<or> (L3EpcId e \<le>s 0 \<and> L3EpcId e \<noteq> - 1)"
  proof (cases "L2EpcId e <s 0")
    case True
    then have n: "\<not> 0 \<le>s L2EpcId e" "\<not> 0 <s L2EpcId e"
      by (simp_all add: word_sless_alt word_sle_eq)
    have "spec_epc_id e = 0 \<longleftrightarrow> L3EpcId e \<le>s 0 \<and> L3EpcId e \<noteq> - 1"
      using n pos [of "L3EpcId e"]
      by (auto simp: spec_epc_id_def word_sless_alt word_sle_eq)
    with True n b show ?thesis by auto
  next
    case False
    then have "0 \<le>s L2EpcId e"
      by (simp add: word_sless_alt word_sle_eq)
    with False b show ?thesis by simp
  qed
  have d: "lru_peek mac (macEpcMap (fst (addEpcMap maps e mac)))
      = Some (snd (addEpcMap maps e mac))"
    by (simp add: addEpcMap_def Let_def peek_Add_same)
  from a b c d show ?thesis by simp
qed

theorem addEpcMap_preference_witness:
  "snd (addEpcMap new_VlanAndPortMap \<lparr>GroupIds = [], L2EpcId = 0, L3EpcId = - 1\<rparr> 7)
     = 0xffffffff
   \<and> lru_peek 7 (macEpcMap (fst (addEpcMap new_VlanAndPortMap
         \<lparr>GroupIds = [], L2EpcId = 0, L3EpcId = - 1\<rparr> 7))) = Some 0xffffffff
   \<and> snd (addEpcMap new_VlanAndPortMap \<lparr>GroupIds = [], L2EpcId = - 5, L3EpcId = - 2\<rparr> 7)
     = spec_epc_id \<lparr>GroupIds = [], L2EpcId = - 5, L3EpcId = - 2\<rparr>
   \<and> snd (addEpcMap new_VlanAndPortMap \<lparr>GroupIds = [], L2EpcId = 3, L3EpcId = 9\<rparr> 7)
     = spec_epc_id \<lparr>GroupIds = [], L2EpcId = 3, L3EpcId = 9\<rparr>"
proof -
  note A = addEpcMap_preference [of new_VlanAndPortMap
      "\<lparr>GroupIds = [], L2EpcId = 0, L3EpcId = - 1\<rparr>" 7]
  note B = addEpcMap_preference [of new_VlanAndPortMap
      "\<lparr>GroupIds = [], L2EpcId = - 5, L3EpcId = - 2\<rparr>" 7, THEN conjunct2, THEN conjunct2,
      THEN conjunct1]
  note C = addEpcMap_preference [of new_VlanAndPortMap
      "\<lparr>GroupIds = [], L2EpcId = 3, L3EpcId = 9\<rparr>" 7, THEN conjunct2, THEN conjunct2,
      THEN conjunct1]
  have a: "snd (addEpcMap new_VlanAndPortMap \<lparr>GroupIds = [], L2EpcId = 0, L3EpcId = - 1\<rparr> 7)
     = 0xffffffff
   \<and> lru_peek 7 (macEpcMap (fst (addEpcMap new_VlanAndPortMap
         \<lparr>GroupIds = [], L2EpcId = 0, L3EpcId = - 1\<rparr> 7))) = Some 0xffffffff"
    using A by (simp add: word_sless_alt)
  have b: "snd (addEpcMap new_VlanAndPortMap \<lparr>GroupIds = [], L2EpcId = - 5, L3EpcId = - 2\<rparr> 7)
     = spec_epc_id \<lparr>GroupIds = [], L2EpcId = - 5, L3EpcId = - 2\<rparr>"
    unfolding B by (simp add: word_sle_eq)
  have c: "snd (addEpcMap new_VlanAndPortMap \<lparr>GroupIds = [], L2EpcId = 3, L3EpcId = 9\<rparr> 7)
     = spec_epc_id \<lparr>GroupIds = [], L2EpcId = 3, L3EpcId = 9\<rparr>"
    unfolding C by (simp add: word_sle_eq)
  from a b c show ?thesis by simp
qed

section \<open>Freshness of fast-path entries\<close>

lemma getFastPortPolicy_found:
  assumes s: "lru_peek (SrcMac p) (macEpcMap maps) = Some s"
    and d: "lru_peek (DstMac p) (macEpcMap maps) = Some d"
    and v: "lru_peek (fast_port_key (if dir = BACKWARD then ucast d else ucast s)
              (if dir = BACKWARD then ucast s else ucast d) (Proto p)
              (if dir = BACKWARD then SrcPort p else DstPort p)) (portPolicyMap maps) = Some val"
  shows "getFastPortPolicy maps p dir pol =
     (let key = fast_port_key (if dir = BACKWARD then ucast d else ucast s)
              (if dir = BACKWARD then ucast s else ucast d) (Proto p)
              (if dir = BACKWARD then SrcPort p else DstPort p);
          maps1 = maps\<lparr>macEpcMap := snd (lru_Get (DstMac p) (snd (lru_Get (SrcMac p) (macEpcMap maps))))\<rparr>;
          pm1 = snd (lru_Get key (portPolicyMap maps))
      in if stale (timestamp val) (Timestamp p)
         then (maps1\<lparr>portPolicyMap := lru_Remove key pm1\<rparr>, pol, None)
         else (maps1\<lparr>portPolicyMap := lru_store key (val\<lparr>timestamp := Timestamp p\<rparr>) pm1\<rparr>,
               Merge pol (AclActions (policy val)) (ACLID (policy val)) (Some dir),
               Some (if dir = BACKWARD then swap_endpoint (endpoint val) else endpoint val)))"
proof -
  have d': "lru_peek (DstMac p) ((macEpcMap maps)\<lparr>entries := (SrcMac p, s) # lru_without (SrcMac p) (entries (macEpcMap maps))\<rparr>) = Some d"
    using d by (simp add: peek_touch [OF s])
  show ?thesis
    using v by (cases dir) (simp_all add: getFastPortPolicy_def Get_Some [OF s] Get_Some [OF d'] Let_def Get_Some)
qed

lemma getFastVlanPolicy_found:
  assumes s: "lru_peek (SrcMac p) (macEpcMap maps) = Some s"
    and d: "lru_peek (DstMac p) (macEpcMap maps) = Some d"
    and v: "lru_peek (fast_vlan_key (Vlan p) (if dir = BACKWARD then ucast d else ucast s)
              (if dir = BACKWARD then ucast s else ucast d)) (vlanPolicyMap maps) = Some val"
  shows "getFastVlanPolicy maps p dir pol =
     (let key = fast_vlan_key (Vlan p) (if dir = BACKWARD then ucast d else ucast s)
              (if dir = BACKWARD then ucast s else ucast d);
          maps1 = maps\<lparr>macEpcMap := snd (lru_Get (DstMac p) (snd (lru_Get (SrcMac p) (macEpcMap maps))))\<rparr>;
          pm1 = snd (lru_Get key (vlanPolicyMap maps))
      in if stale (timestamp val) (Timestamp p)
         then (maps1\<lparr>vlanPolicyMap := lru_Remove key pm1\<rparr>, pol, None)
         else (maps1\<lparr>vlanPolicyMap := lru_store key (val\<lparr>timestamp := Timestamp p\<rparr>) pm1\<rparr>,
               Merge pol (AclActions (policy val)) (ACLID (policy val)) None,
               Some (if dir = BACKWARD then swap_endpoint (endpoint val) else endpoint val)))"
proof -
  have d': "lru_peek (DstMac p) ((macEpcMap maps)\<lparr>entries := (SrcMac p, s) # lru_without (SrcMac p) (entries (macEpcMap maps))\<rparr>) = Some d"
    using d by (simp add: peek_touch [OF s])
  show ?thesis
    using v by (cases dir) (simp_all add: getFastVlanPolicy_def Get_Some [OF s] Get_Some [OF d'] Let_def Get_Some)
qed


text \<open>
  C4. A sub-lookup of the fast path, port or vlan, on a map that binds both MACs. The
  two lookups are independent: what is said of the port lookup needs an entry under the
  port key only, whatever the vlan cache holds, and conversely. For the entry found under
  the key: if the entry's timestamp is before the query's and the difference (in Go's
  int64 arithmetic) exceeds \<open>POLICY_TIMEOUT\<close>, the entry is removed from its cache and
  the lookup returns nil, the policy untouched; if the query's timestamp is not after the
  entry's, the entry stays and the lookup hits; and on every hit that is not stale the
  entry is kept with its timestamp set to the query's.
\<close>

theorem fast_sublookup_freshness:
  assumes "lru_peek (SrcMac p) (macEpcMap maps) = Some s"
    and "lru_peek (DstMac p) (macEpcMap maps) = Some d"
    and "pkey = fast_port_key (if dir = BACKWARD then ucast d else ucast s)
              (if dir = BACKWARD then ucast s else ucast d) (Proto p)
              (if dir = BACKWARD then SrcPort p else DstPort p)"
    and "vkey = fast_vlan_key (Vlan p) (if dir = BACKWARD then ucast d else ucast s)
              (if dir = BACKWARD then ucast s else ucast d)"
  shows "(\<forall>pval. lru_peek pkey (portPolicyMap maps) = Some pval \<longrightarrow>
          (case getFastPortPolicy maps p dir pol of (maps', pol', ep) \<Rightarrow>
            (timestamp pval <s Timestamp p \<and> POLICY_TIMEOUT <s Timestamp p - timestamp pval
               \<longrightarrow> ep = None \<and> pol' = pol \<and> lru_peek pkey (portPolicyMap maps') = None)
            \<and> (Timestamp p \<le>s timestamp pval
               \<longrightarrow> ep \<noteq> None \<and> lru_peek pkey (portPolicyMap maps') \<noteq> None)
            \<and> (\<not> (timestamp pval <s Timestamp p
                    \<and> POLICY_TIMEOUT <s Timestamp p - timestamp pval)
               \<longrightarrow> ep \<noteq> None
                   \<and> lru_peek pkey (portPolicyMap maps')
                       = Some (pval\<lparr>timestamp := Timestamp p\<rparr>))))
       \<and> (\<forall>vval. lru_peek vkey (vlanPolicyMap maps) = Some vval \<longrightarrow>
          (case getFastVlanPolicy maps p dir pol of (maps', pol', ep) \<Rightarrow>
            (timestamp vval <s Timestamp p \<and> POLICY_TIMEOUT <s Timestamp p - timestamp vval
               \<longrightarrow> ep = None \<and> pol' = pol \<and> lru_peek vkey (vlanPolicyMap maps') = None)
            \<and> (Timestamp p \<le>s timestamp vval
               \<longrightarrow> ep \<noteq> None \<and> lru_peek vkey (vlanPolicyMap maps') \<noteq> None)
            \<and> (\<not> (timestamp vval <s Timestamp p
                    \<and> POLICY_TIMEOUT <s Timestamp p - timestamp vval)
               \<longrightarrow> ep \<noteq> None
                   \<and> lru_peek vkey (vlanPolicyMap maps')
                       = Some (vval\<lparr>timestamp := Timestamp p\<rparr>))))"
proof (intro conjI allI impI)
  fix pval
  assume f: "lru_peek pkey (portPolicyMap maps) = Some pval"
  have le: "Timestamp p \<le>s timestamp pval \<Longrightarrow> \<not> timestamp pval <s Timestamp p"
    by (simp add: word_sle_eq word_sless_alt)
  have P: "lru_peek pkey (snd (lru_Get pkey (portPolicyMap maps))) = Some pval"
    using f by (simp add: peek_Get)
  show "case getFastPortPolicy maps p dir pol of (maps', pol', ep) \<Rightarrow>
            (timestamp pval <s Timestamp p \<and> POLICY_TIMEOUT <s Timestamp p - timestamp pval
               \<longrightarrow> ep = None \<and> pol' = pol \<and> lru_peek pkey (portPolicyMap maps') = None)
            \<and> (Timestamp p \<le>s timestamp pval
               \<longrightarrow> ep \<noteq> None \<and> lru_peek pkey (portPolicyMap maps') \<noteq> None)
            \<and> (\<not> (timestamp pval <s Timestamp p
                    \<and> POLICY_TIMEOUT <s Timestamp p - timestamp pval)
               \<longrightarrow> ep \<noteq> None
                   \<and> lru_peek pkey (portPolicyMap maps')
                       = Some (pval\<lparr>timestamp := Timestamp p\<rparr>))"
    using assms(1-3) f le P
    by (auto simp: getFastPortPolicy_found [of p maps s d dir pval]
        Let_def stale_def peek_Remove peek_store)
next
  fix vval
  assume f: "lru_peek vkey (vlanPolicyMap maps) = Some vval"
  have le: "Timestamp p \<le>s timestamp vval \<Longrightarrow> \<not> timestamp vval <s Timestamp p"
    by (simp add: word_sle_eq word_sless_alt)
  have V: "lru_peek vkey (snd (lru_Get vkey (vlanPolicyMap maps))) = Some vval"
    using f by (simp add: peek_Get)
  show "case getFastVlanPolicy maps p dir pol of (maps', pol', ep) \<Rightarrow>
            (timestamp vval <s Timestamp p \<and> POLICY_TIMEOUT <s Timestamp p - timestamp vval
               \<longrightarrow> ep = None \<and> pol' = pol \<and> lru_peek vkey (vlanPolicyMap maps') = None)
            \<and> (Timestamp p \<le>s timestamp vval
               \<longrightarrow> ep \<noteq> None \<and> lru_peek vkey (vlanPolicyMap maps') \<noteq> None)
            \<and> (\<not> (timestamp vval <s Timestamp p
                    \<and> POLICY_TIMEOUT <s Timestamp p - timestamp vval)
               \<longrightarrow> ep \<noteq> None
                   \<and> lru_peek vkey (vlanPolicyMap maps')
                       = Some (vval\<lparr>timestamp := Timestamp p\<rparr>))"
    using assms(1,2,4) f le V
    by (auto simp: getFastVlanPolicy_found [of p maps s d dir vval]
        Let_def stale_def peek_Remove peek_store)
qed

text \<open>
  The instances: a stale and a fresh query on a map holding both entries, and a stale
  and a fresh port lookup on a map whose vlan cache is empty, the state a first-path
  lookup of a packet without vlan leaves.
\<close>

theorem fast_sublookup_freshness_witness:
  "(case getFastPortPolicy (ex_maps 30000000000) (ex_packet 120000000000) FORWARD empty_PolicyData
      of (maps', pol', ep) \<Rightarrow>
        ep = None \<and> lru_peek (fast_port_key 7 8 6 80) (portPolicyMap maps') = None)
   \<and> (case getFastVlanPolicy (ex_maps 30000000000) (ex_packet 120000000000) FORWARD empty_PolicyData
      of (maps', pol', ep) \<Rightarrow>
        ep = None \<and> lru_peek (fast_vlan_key 100 7 8) (vlanPolicyMap maps') = None)
   \<and> (case getFastPortPolicy (ex_maps 30000000000) (ex_packet 10000000000) FORWARD empty_PolicyData
      of (maps', pol', ep) \<Rightarrow>
        ep \<noteq> None \<and> lru_peek (fast_port_key 7 8 6 80) (portPolicyMap maps')
                         = Some (ex_value 10000000000))
   \<and> (case getFastVlanPolicy (ex_maps 30000000000) (ex_packet 10000000000) FORWARD empty_PolicyData
      of (maps', pol', ep) \<Rightarrow>
        ep \<noteq> None \<and> lru_peek (fast_vlan_key 100 7 8) (vlanPolicyMap maps')
                         = Some (ex_value 10000000000))
   \<and> vlanPolicyMap (ex_port_maps 30000000000) = lru_New 1024
   \<and> (case getFastPortPolicy (ex_port_maps 30000000000) (ex_packet 120000000000) FORWARD
             empty_PolicyData
      of (maps', pol', ep) \<Rightarrow>
        ep = None \<and> lru_peek (fast_port_key 7 8 6 80) (portPolicyMap maps') = None)
   \<and> (case getFastPortPolicy (ex_port_maps 30000000000) (ex_packet 10000000000) FORWARD
             empty_PolicyData
      of (maps', pol', ep) \<Rightarrow>
        ep \<noteq> None \<and> lru_peek (fast_port_key 7 8 6 80) (portPolicyMap maps')
                         = Some (ex_value 10000000000))"
proof -
  have h1: "lru_peek (SrcMac (ex_packet t)) (macEpcMap (ex_maps 30000000000)) = Some 7" for t
    by (simp add: ex_packet_def ex_maps_def lru_peek_def)
  have h2: "lru_peek (DstMac (ex_packet t)) (macEpcMap (ex_maps 30000000000)) = Some 8" for t
    by (simp add: ex_packet_def ex_maps_def lru_peek_def)
  have g1: "lru_peek (SrcMac (ex_packet t)) (macEpcMap (ex_port_maps 30000000000)) = Some 7" for t
    by (simp add: ex_packet_def ex_maps_def ex_port_maps_def lru_peek_def)
  have g2: "lru_peek (DstMac (ex_packet t)) (macEpcMap (ex_port_maps 30000000000)) = Some 8" for t
    by (simp add: ex_packet_def ex_maps_def ex_port_maps_def lru_peek_def)
  have h3: "fast_port_key 7 8 6 80 =
      fast_port_key (if FORWARD = BACKWARD then ucast (8::u32) else ucast (7::u32))
        (if FORWARD = BACKWARD then ucast (7::u32) else ucast (8::u32)) (Proto (ex_packet t))
        (if FORWARD = BACKWARD then SrcPort (ex_packet t) else DstPort (ex_packet t))" for t
    by (simp add: ex_packet_def)
  have h4: "lru_peek (fast_port_key 7 8 6 80) (portPolicyMap (ex_maps 30000000000))
      = Some (ex_value 30000000000)"
    by (simp add: ex_maps_def lru_peek_def)
  have g4: "lru_peek (fast_port_key 7 8 6 80) (portPolicyMap (ex_port_maps 30000000000))
      = Some (ex_value 30000000000)"
    by (simp add: ex_maps_def ex_port_maps_def lru_peek_def)
  have h5: "fast_vlan_key 100 7 8 =
      fast_vlan_key (Vlan (ex_packet t)) (if FORWARD = BACKWARD then ucast (8::u32) else ucast (7::u32))
        (if FORWARD = BACKWARD then ucast (7::u32) else ucast (8::u32))" for t
    by (simp add: ex_packet_def)
  have h6: "lru_peek (fast_vlan_key 100 7 8) (vlanPolicyMap (ex_maps 30000000000))
      = Some (ex_value 30000000000)"
    by (simp add: ex_maps_def lru_peek_def)
  have g6: "vlanPolicyMap (ex_port_maps 30000000000) = lru_New 1024"
    by (simp add: ex_port_maps_def)
  have t1: "timestamp (ex_value 30000000000) <s Timestamp (ex_packet 120000000000)
      \<and> POLICY_TIMEOUT <s Timestamp (ex_packet 120000000000) - timestamp (ex_value 30000000000)"
    by (simp add: ex_value_def ex_packet_def POLICY_TIMEOUT_def word_sless_alt)
  have t2: "Timestamp (ex_packet 10000000000) \<le>s timestamp (ex_value 30000000000)"
    "\<not> timestamp (ex_value 30000000000) <s Timestamp (ex_packet 10000000000)"
    by (simp_all add: ex_value_def ex_packet_def word_sless_alt word_sle_eq)
  have u: "(ex_value 30000000000)\<lparr>timestamp := Timestamp (ex_packet 10000000000)\<rparr>
      = ex_value 10000000000"
    by (simp add: ex_value_def ex_packet_def)
  note A = fast_sublookup_freshness [OF h1 h2 h3 h5, of 120000000000 empty_PolicyData]
  note B = fast_sublookup_freshness [OF h1 h2 h3 h5, of 10000000000 empty_PolicyData]
  note C = fast_sublookup_freshness [OF g1 g2 h3 h5, of 120000000000 empty_PolicyData, THEN conjunct1]
  note D = fast_sublookup_freshness [OF g1 g2 h3 h5, of 10000000000 empty_PolicyData, THEN conjunct1]
  from A h4 h6 t1 have a:
    "(case getFastPortPolicy (ex_maps 30000000000) (ex_packet 120000000000) FORWARD empty_PolicyData
      of (maps', pol', ep) \<Rightarrow>
        ep = None \<and> lru_peek (fast_port_key 7 8 6 80) (portPolicyMap maps') = None)
   \<and> (case getFastVlanPolicy (ex_maps 30000000000) (ex_packet 120000000000) FORWARD empty_PolicyData
      of (maps', pol', ep) \<Rightarrow>
        ep = None \<and> lru_peek (fast_vlan_key 100 7 8) (vlanPolicyMap maps') = None)"
    by (simp split: prod.splits)
  from B h4 h6 t2 have b:
    "(case getFastPortPolicy (ex_maps 30000000000) (ex_packet 10000000000) FORWARD empty_PolicyData
      of (maps', pol', ep) \<Rightarrow>
        ep \<noteq> None \<and> lru_peek (fast_port_key 7 8 6 80) (portPolicyMap maps')
                         = Some (ex_value 10000000000))
   \<and> (case getFastVlanPolicy (ex_maps 30000000000) (ex_packet 10000000000) FORWARD empty_PolicyData
      of (maps', pol', ep) \<Rightarrow>
        ep \<noteq> None \<and> lru_peek (fast_vlan_key 100 7 8) (vlanPolicyMap maps')
                         = Some (ex_value 10000000000))"
    by (simp add: u split: prod.splits)
  from C g4 t1 have c:
    "(case getFastPortPolicy (ex_port_maps 30000000000) (ex_packet 120000000000) FORWARD
             empty_PolicyData
      of (maps', pol', ep) \<Rightarrow>
        ep = None \<and> lru_peek (fast_port_key 7 8 6 80) (portPolicyMap maps') = None)"
    by (simp split: prod.splits)
  from D g4 t2 have d:
    "(case getFastPortPolicy (ex_port_maps 30000000000) (ex_packet 10000000000) FORWARD
             empty_PolicyData
      of (maps', pol', ep) \<Rightarrow>
        ep \<noteq> None \<and> lru_peek (fast_port_key 7 8 6 80) (portPolicyMap maps')
                         = Some (ex_value 10000000000))"
    by (simp add: u split: prod.splits)
  from a b c d g6 show ?thesis by simp
qed

section \<open>Truncation of the vlan of a rule\<close>

lemma vlan_bits_of_key:
  "drop_bit 48 (pack_vlan_key vlan src dst) = ucast vlan"
proof -
  have m: "(0xfffff :: u32) = mask 20"
    by (simp add: mask_eq_exp_minus_1)
  show ?thesis
    unfolding pack_vlan_key_def m
    by (rule bit_word_eqI) (auto simp: bit_simps dest: bit_imp_le_length)
qed

lemma ucast_vlan_cong:
  fixes v w :: u32
  shows "(ucast v :: u16) = ucast w \<longleftrightarrow> unat v mod 2 ^ 16 = unat w mod 2 ^ 16"
proof -
  have "(ucast v :: u16) = ucast w \<longleftrightarrow> unat (ucast v :: u16) = unat (ucast w :: u16)"
    by (simp add: word_unat_eq_iff)
  then show ?thesis by (simp add: unsigned_ucast_eq take_bit_eq_mod)
qed

lemma unat_ucast_up16: "unat (ucast (x :: u16) :: u64) = unat x"
  by (simp add: unsigned_ucast_eq take_bit_nat_eq_self_iff
      less_trans [OF unsigned_less [where 'a = nat, of x, simplified]])

lemma unat_ucast_down16: "unat (ucast (v :: u32) :: u16) = unat v mod 2 ^ 16"
  by (simp add: unsigned_ucast_eq take_bit_eq_mod)

lemma unat_ucast_vlan: "unat (ucast (ucast (v :: u32) :: u16) :: u64) = unat v mod 2 ^ 16"
  by (simp only: unat_ucast_up16 unat_ucast_down16)

lemma merge_keys_cong:
  "Action a = Action b \<Longrightarrow> Id a = Id b \<Longrightarrow> merge_keys a dir ks m = merge_keys b dir ks m"
  by (induction ks arbitrary: m) (simp_all cong: option.case_cong)

lemma acl_vlan_keys_cong:
  assumes "unat (Acl.Vlan a) mod 2 ^ 16 = unat (Acl.Vlan b) mod 2 ^ 16"
    and "SrcGroups a = SrcGroups b" and "DstGroups a = DstGroups b"
  shows "acl_vlan_keys a dir = acl_vlan_keys b dir"
proof -
  have "(ucast (Acl.Vlan a) :: u16) = ucast (Acl.Vlan b)"
    using assms(1) by (simp only: ucast_vlan_cong)
  then show ?thesis
    using assms(2,3) by (simp add: acl_vlan_keys_def)
qed

lemma acl_vlan_keys_bits:
  "k \<in> set (acl_vlan_keys a dir) \<Longrightarrow> unat (drop_bit 48 k) = unat (Acl.Vlan a) mod 2 ^ 16"
  by (auto simp: acl_vlan_keys_def generateGroupVlanKeys_eq vlan_keys_of_def vlan_bits_of_key
      unat_ucast_vlan split: if_splits)


lemma vlan_maps_loop_cong:
  assumes "unat (Acl.Vlan a) mod 2 ^ 16 = unat (Acl.Vlan b) mod 2 ^ 16"
    and "0 < Acl.Vlan a" and "0 < Acl.Vlan b"
    and "SrcGroups a = SrcGroups b" and "DstGroups a = DstGroups b"
    and "Type a = Type b" and "Action a = Action b" and "Id a = Id b"
  shows "vlan_maps_loop tc (xs @ a # ys) m = vlan_maps_loop tc (xs @ b # ys) m"
proof (induction xs arbitrary: m)
  case Nil
  show ?case
    using assms(2,3,6)
    by (simp add: acl_vlan_keys_cong [OF assms(1,4,5)] merge_keys_cong [OF assms(7,8)])
next
  case (Cons x xs)
  then show ?case by simp
qed

lemma merge_keys_dom: "dom (merge_keys a dir ks m) = dom m \<union> set ks"
  by (induction ks arbitrary: m) (auto split: option.splits)

lemma vlan_maps_loop_length:
  "vlan_maps_loop tc acls ms = Some ms' \<Longrightarrow> length ms' = length ms"
  by (induction acls arbitrary: ms) (auto split: if_splits)

lemma vlan_maps_loop_keeps:
  "vlan_maps_loop tc acls ms = Some ms' \<Longrightarrow> t < length ms \<Longrightarrow> dom (ms ! t) \<subseteq> dom (ms' ! t)"
proof (induction acls arbitrary: ms)
  case Nil
  then show ?case by simp
next
  case (Cons x acls)
  show ?case
  proof (cases "CheckTapType tc (Type x) \<and> 0 < Acl.Vlan x")
    case False
    with Cons show ?thesis by auto
  next
    case True
    let ?m = "merge_keys x (Some BACKWARD) (acl_vlan_keys x BACKWARD)
        (merge_keys x (Some FORWARD) (acl_vlan_keys x FORWARD) (ms ! Type x))"
    from True Cons.prems(1) have w: "Type x < length ms"
      and r: "vlan_maps_loop tc acls (ms[Type x := ?m]) = Some ms'"
      by (auto split: if_splits)
    from Cons.IH [OF r] Cons.prems(2)
    have "dom ((ms[Type x := ?m]) ! t) \<subseteq> dom (ms' ! t)" by simp
    moreover have "dom (ms ! t) \<subseteq> dom ((ms[Type x := ?m]) ! t)"
      using w Cons.prems(2) by (cases "t = Type x") (auto simp: merge_keys_dom)
    ultimately show ?thesis by blast
  qed
qed

lemma vlan_maps_loop_has:
  assumes "vlan_maps_loop tc acls ms = Some ms'" and "a \<in> set acls"
    and "CheckTapType tc (Type a)" and "0 < Acl.Vlan a"
  shows "set (acl_vlan_keys a dir) \<subseteq> dom (ms' ! Type a)"
  using assms
proof (induction acls arbitrary: ms)
  case Nil
  then show ?case by simp
next
  case (Cons x acls)
  show ?case
  proof (cases "CheckTapType tc (Type x) \<and> 0 < Acl.Vlan x")
    case False
    with Cons show ?thesis by auto
  next
    case True
    let ?m = "merge_keys x (Some BACKWARD) (acl_vlan_keys x BACKWARD)
        (merge_keys x (Some FORWARD) (acl_vlan_keys x FORWARD) (ms ! Type x))"
    from True Cons.prems(1) have w: "Type x < length ms"
      and r: "vlan_maps_loop tc acls (ms[Type x := ?m]) = Some ms'"
      by (auto split: if_splits)
    show ?thesis
    proof (cases "a = x")
      case False
      with Cons.prems have "a \<in> set acls" by simp
      from Cons.IH [OF r this Cons.prems(3,4)] show ?thesis .
    next
      case ax: True
      have "set (acl_vlan_keys x dir) \<subseteq> dom ?m"
        by (cases dir) (auto simp: merge_keys_dom)
      also have "\<dots> = dom ((ms[Type x := ?m]) ! Type x)"
        using w by simp
      also have "\<dots> \<subseteq> dom (ms' ! Type x)"
        using r w by (intro vlan_maps_loop_keeps) simp_all
      finally show ?thesis using ax by simp
    qed
  qed
qed

lemma vlan_maps_loop_only:
  assumes "vlan_maps_loop tc acls ms = Some ms'" and "t < length ms" and "k \<in> dom (ms' ! t)"
  shows "k \<in> dom (ms ! t)
     \<or> (\<exists>r \<in> set acls. \<exists>dir. Type r = t \<and> 0 < Acl.Vlan r \<and> k \<in> set (acl_vlan_keys r dir))"
  using assms
proof (induction acls arbitrary: ms)
  case Nil
  then show ?case by simp
next
  case (Cons x acls)
  show ?case
  proof (cases "CheckTapType tc (Type x) \<and> 0 < Acl.Vlan x")
    case False
    with Cons.prems have "vlan_maps_loop tc acls ms = Some ms'" by auto
    from Cons.IH [OF this Cons.prems(2,3)] show ?thesis by auto
  next
    case True
    let ?m = "merge_keys x (Some BACKWARD) (acl_vlan_keys x BACKWARD)
        (merge_keys x (Some FORWARD) (acl_vlan_keys x FORWARD) (ms ! Type x))"
    from True Cons.prems(1) have w: "Type x < length ms"
      and r: "vlan_maps_loop tc acls (ms[Type x := ?m]) = Some ms'"
      by (auto split: if_splits)
    from Cons.IH [OF r _ Cons.prems(3)] Cons.prems(2)
    consider "k \<in> dom ((ms[Type x := ?m]) ! t)"
      | "\<exists>r \<in> set acls. \<exists>dir. Type r = t \<and> 0 < Acl.Vlan r \<and> k \<in> set (acl_vlan_keys r dir)"
      by auto
    then show ?thesis
    proof cases
      case 2
      then show ?thesis by auto
    next
      case 1
      show ?thesis
      proof (cases "t = Type x")
        case False
        with 1 show ?thesis by simp
      next
        case tx: True
        with 1 w have "k \<in> dom (ms ! t) \<or> k \<in> set (acl_vlan_keys x FORWARD)
            \<or> k \<in> set (acl_vlan_keys x BACKWARD)"
          by (auto simp: merge_keys_dom)
        with True tx show ?thesis by auto
      qed
    qed
  qed
qed

text \<open>
  C10. \<open>GenerateGroupVlanMaps\<close> packs \<open>uint16(acl.Vlan)\<close>: of the 32 bits of a
  rule's vlan only the low 16 reach the key. Two rules with positive vlans that are
  congruent modulo \<open>2^16\<close> and with the same groups have the same keys in both
  directions, and the compiled vlan maps are the same whichever of the two stands in
  the rule list (the rules agreeing in type, actions and id); the vlan bits of every
  key are the vlan modulo \<open>2^16\<close>, so they are all zero for a rule whose vlan is a
  multiple of \<open>2^16\<close>. These keys are the ones compiled: when the compilation returns,
  every key of a rule that passes the tap check is bound in the vlan map of the rule's
  tap type, and every key bound in a vlan map carries in its vlan bits the vlan modulo
  \<open>2^16\<close> of a rule of that tap type with a positive vlan.
\<close>

theorem vlan_key_truncation:
  assumes "unat (Acl.Vlan a) mod 2 ^ 16 = unat (Acl.Vlan b) mod 2 ^ 16"
    and "0 < Acl.Vlan a" and "0 < Acl.Vlan b"
    and "SrcGroups a = SrcGroups b" and "DstGroups a = DstGroups b"
  shows "acl_vlan_keys a dir = acl_vlan_keys b dir
    \<and> (Type a = Type b \<and> Action a = Action b \<and> Id a = Id b \<longrightarrow>
         GenerateGroupVlanMaps tc l (xs @ a # ys) = GenerateGroupVlanMaps tc l (xs @ b # ys))
    \<and> (\<forall>k \<in> set (acl_vlan_keys a dir). unat (drop_bit 48 k) = unat (Acl.Vlan a) mod 2 ^ 16)
    \<and> (unat (Acl.Vlan a) mod 2 ^ 16 = 0 \<longrightarrow>
         (\<forall>k \<in> set (acl_vlan_keys a dir). drop_bit 48 k = 0))
    \<and> (\<forall>l'. GenerateGroupVlanMaps tc l (xs @ a # ys) = Some l' \<and> CheckTapType tc (Type a)
         \<longrightarrow> (\<forall>k \<in> set (acl_vlan_keys a dir). (GroupVlanPolicyMaps l' ! Type a) k \<noteq> None))
    \<and> (\<forall>l' t k. GenerateGroupVlanMaps tc l (xs @ a # ys) = Some l' \<and> t < TAP_MAX tc
           \<and> (GroupVlanPolicyMaps l' ! t) k \<noteq> None
         \<longrightarrow> (\<exists>r \<in> set (xs @ a # ys). Type r = t \<and> 0 < Acl.Vlan r
                \<and> unat (drop_bit 48 k) = unat (Acl.Vlan r) mod 2 ^ 16))"
proof (intro conjI impI ballI allI)
  show "acl_vlan_keys a dir = acl_vlan_keys b dir"
    using assms(1,4,5) by (rule acl_vlan_keys_cong)
next
  assume e: "Type a = Type b \<and> Action a = Action b \<and> Id a = Id b"
  have "vlan_maps_loop tc (xs @ a # ys) m = vlan_maps_loop tc (xs @ b # ys) m" for m
    using assms e by (intro vlan_maps_loop_cong) simp_all
  then show "GenerateGroupVlanMaps tc l (xs @ a # ys) = GenerateGroupVlanMaps tc l (xs @ b # ys)"
    by (simp only: GenerateGroupVlanMaps_def)
next
  fix k assume "k \<in> set (acl_vlan_keys a dir)"
  then show "unat (drop_bit 48 k) = unat (Acl.Vlan a) mod 2 ^ 16"
    by (rule acl_vlan_keys_bits)
next
  fix k assume z: "unat (Acl.Vlan a) mod 2 ^ 16 = 0" and "k \<in> set (acl_vlan_keys a dir)"
  then have "unat (drop_bit 48 k) = 0"
    by (simp add: acl_vlan_keys_bits)
  then show "drop_bit 48 k = 0"
    by (simp only: unsigned_eq_0_iff)
next
  fix l' k
  assume g: "GenerateGroupVlanMaps tc l (xs @ a # ys) = Some l' \<and> CheckTapType tc (Type a)"
    and k: "k \<in> set (acl_vlan_keys a dir)"
  from g obtain ms where ms: "vlan_maps_loop tc (xs @ a # ys)
        (replicate (TAP_MAX tc) Map.empty) = Some ms"
    and l': "GroupVlanPolicyMaps l' = ms"
    by (auto simp: GenerateGroupVlanMaps_def split: option.splits)
  from vlan_maps_loop_has [OF ms _ _ assms(2), of dir] g k
  have "k \<in> dom (ms ! Type a)" by auto
  then show "(GroupVlanPolicyMaps l' ! Type a) k \<noteq> None"
    by (auto simp: l')
next
  fix l' t k
  assume g: "GenerateGroupVlanMaps tc l (xs @ a # ys) = Some l' \<and> t < TAP_MAX tc
           \<and> (GroupVlanPolicyMaps l' ! t) k \<noteq> None"
  from g obtain ms where ms: "vlan_maps_loop tc (xs @ a # ys)
        (replicate (TAP_MAX tc) Map.empty) = Some ms"
    and l': "GroupVlanPolicyMaps l' = ms"
    by (auto simp: GenerateGroupVlanMaps_def split: option.splits)
  from g have "k \<in> dom (ms ! t)" by (auto simp: l')
  from vlan_maps_loop_only [OF ms _ this] g
  obtain r d where "r \<in> set (xs @ a # ys)" "Type r = t" "0 < Acl.Vlan r"
    "k \<in> set (acl_vlan_keys r d)"
    by auto
  then show "\<exists>r \<in> set (xs @ a # ys). Type r = t \<and> 0 < Acl.Vlan r
                \<and> unat (drop_bit 48 k) = unat (Acl.Vlan r) mod 2 ^ 16"
    using acl_vlan_keys_bits [of k r d] by blast
qed

theorem vlan_key_truncation_witness:
  "acl_vlan_keys (ex_acl 65636) FORWARD = [28147497672114178]
   \<and> acl_vlan_keys (ex_acl 100) FORWARD = [28147497672114178]
   \<and> GenerateGroupVlanMaps ex_taps (NewPolicyLabel ex_taps 1 0 False) [ex_acl 65636]
       = GenerateGroupVlanMaps ex_taps (NewPolicyLabel ex_taps 1 0 False) [ex_acl 100]
   \<and> acl_vlan_keys (ex_acl 65536) FORWARD = [1048578]
   \<and> drop_bit 48 (1048578 :: u64) = 0
   \<and> (case GenerateGroupVlanMaps ex_taps (NewPolicyLabel ex_taps 1 0 False) [ex_acl 65636] of
        None \<Rightarrow> False
      | Some l' \<Rightarrow> (GroupVlanPolicyMaps l' ! 1) 28147497672114178 \<noteq> None)"
proof -
  have k: "acl_vlan_keys (ex_acl v) FORWARD = [pack_vlan_key (ucast v) 1 2]" for v
    by (simp add: acl_vlan_keys_def ex_acl_def mapToSlice_def generateGroupVlanKeys_eq
        vlan_keys_of_def or_any_def)
  have h: "unat (Acl.Vlan (ex_acl 65636)) mod 2 ^ 16 = unat (Acl.Vlan (ex_acl 100)) mod 2 ^ 16"
    "0 < Acl.Vlan (ex_acl 65636)" "0 < Acl.Vlan (ex_acl 100)"
    "SrcGroups (ex_acl 65636) = SrcGroups (ex_acl 100)"
    "DstGroups (ex_acl 65636) = DstGroups (ex_acl 100)"
    by (simp_all add: ex_acl_def)
  have z: "unat (Acl.Vlan (ex_acl 65536)) mod 2 ^ 16 = unat (Acl.Vlan (ex_acl 65536)) mod 2 ^ 16"
    "0 < Acl.Vlan (ex_acl 65536)" "SrcGroups (ex_acl 65536) = SrcGroups (ex_acl 65536)"
    "DstGroups (ex_acl 65536) = DstGroups (ex_acl 65536)"
    "unat (Acl.Vlan (ex_acl 65536)) mod 2 ^ 16 = 0"
    by (simp_all add: ex_acl_def)
  have e: "Type (ex_acl 65636) = Type (ex_acl 100)" "Action (ex_acl 65636) = Action (ex_acl 100)"
    "Id (ex_acl 65636) = Id (ex_acl 100)"
    by (simp_all add: ex_acl_def)
  note A = vlan_key_truncation [OF h, of FORWARD ex_taps "NewPolicyLabel ex_taps 1 0 False" "[]" "[]"]
  note B = vlan_key_truncation [OF z(1,2,2,3,4), of FORWARD ex_taps "NewPolicyLabel ex_taps 1 0 False" "[]" "[]"]
  have p: "pack_vlan_key 100 1 2 = 28147497672114178" "pack_vlan_key 65536 1 2 = 1048578"
    "pack_vlan_key 65636 1 2 = 28147497672114178"
    by (simp_all add: pack_vlan_key_def)
  have c: "CheckTapType ex_taps (Type (ex_acl 65636))" "Type (ex_acl 65636) = 1"
    by (simp_all add: ex_taps_def ex_acl_def)
  have g: "GenerateGroupVlanMaps ex_taps (NewPolicyLabel ex_taps 1 0 False) [ex_acl 65636] \<noteq> None"
    by (simp add: GenerateGroupVlanMaps_def ex_taps_def ex_acl_def tap_writable_def)
  have first: "acl_vlan_keys (ex_acl 65636) FORWARD = [28147497672114178]
   \<and> acl_vlan_keys (ex_acl 100) FORWARD = [28147497672114178]
   \<and> GenerateGroupVlanMaps ex_taps (NewPolicyLabel ex_taps 1 0 False) [ex_acl 65636]
       = GenerateGroupVlanMaps ex_taps (NewPolicyLabel ex_taps 1 0 False) [ex_acl 100]
   \<and> acl_vlan_keys (ex_acl 65536) FORWARD = [1048578]
   \<and> drop_bit 48 (1048578 :: u64) = 0"
    using A B e z(5) by (simp add: k p)
  from A c have "\<forall>l'. GenerateGroupVlanMaps ex_taps (NewPolicyLabel ex_taps 1 0 False)
        [ex_acl 65636] = Some l'
      \<longrightarrow> (GroupVlanPolicyMaps l' ! 1) 28147497672114178 \<noteq> None"
    by (simp add: k p)
  with g have "case GenerateGroupVlanMaps ex_taps (NewPolicyLabel ex_taps 1 0 False)
        [ex_acl 65636] of
        None \<Rightarrow> False
      | Some l' \<Rightarrow> (GroupVlanPolicyMaps l' ! 1) 28147497672114178 \<noteq> None"
    by (auto split: option.splits)
  with first show ?thesis by simp
qed

section \<open>The fast-path caches across a rule change\<close>

lemma flush_cells_result:
  "flush_cells n js row = Some row' \<Longrightarrow>
   length row' = length row
   \<and> (\<forall>j < length row. row' ! j = (if j \<in> set js then Some (lru_New n) else row ! j))"
proof (induction js arbitrary: row)
  case Nil
  then show ?case by simp
next
  case (Cons j js)
  from Cons.prems obtain c where j: "j < length row" "row ! j = Some c"
    and r: "flush_cells n js (row[j := Some (lru_New n)]) = Some row'"
    by (auto split: if_splits option.splits)
  from Cons.IH [OF r] show ?case
    by (auto simp: nth_list_update)
qed

lemma flush_rows_result:
  "flush_rows n js rows = Some rows' \<Longrightarrow>
   length rows' = length rows
   \<and> (\<forall>i < length rows. flush_cells n js (rows ! i) = Some (rows' ! i))"
proof (induction rows arbitrary: rows')
  case Nil
  then show ?case by simp
next
  case (Cons row rows)
  from Cons.prems obtain row1 rows1 where
    a: "flush_cells n js row = Some row1" and b: "flush_rows n js rows = Some rows1"
    and c: "rows' = row1 # rows1"
    by (auto split: option.splits)
  from Cons.IH [OF b] a c show ?case
    by (auto simp: nth_Cons split: nat.splits)
qed

lemma FlushAcls_result:
  assumes "FlushAcls tc l = Some l'"
  shows "length (FastPolicyMaps l') = length (FastPolicyMaps l)
    \<and> (\<forall>i < length (FastPolicyMaps l'). \<forall>j. TAP_MIN tc \<le> j \<and> j < TAP_MAX tc \<longrightarrow>
          j < length (FastPolicyMaps l' ! i)
          \<and> FastPolicyMaps l' ! i ! j = Some (lru_New (unat (MapSize l))))"
proof -
  from assms obtain rows' where
    r: "flush_rows (unat (MapSize l)) [TAP_MIN tc ..< TAP_MAX tc] (FastPolicyMaps l) = Some rows'"
    and l': "FastPolicyMaps l' = rows'"
    by (auto simp: FlushAcls_def split: option.splits)
  note R = flush_rows_result [OF r]
  show ?thesis
  proof (intro conjI allI impI)
    show "length (FastPolicyMaps l') = length (FastPolicyMaps l)"
      using R l' by simp
  next
    fix i j
    assume i: "i < length (FastPolicyMaps l')" and j: "TAP_MIN tc \<le> j \<and> j < TAP_MAX tc"
    from i R l' have c: "flush_cells (unat (MapSize l)) [TAP_MIN tc ..< TAP_MAX tc]
        (FastPolicyMaps l ! i) = Some (FastPolicyMaps l' ! i)"
      by simp
    have jl: "j < length (FastPolicyMaps l ! i)"
    proof (rule ccontr)
      assume n: "\<not> j < length (FastPolicyMaps l ! i)"
      have "flush_cells m js row = None" if "j \<in> set js" "\<not> j < length row" for m js
        and row :: "(u64, VlanAndPortMap) Cache option list"
        using that by (induction js arbitrary: row) (auto split: option.splits)
      from this [of "[TAP_MIN tc ..< TAP_MAX tc]" "FastPolicyMaps l ! i"] j n c
      show False by simp
    qed
    note C = flush_cells_result [OF c]
    from C jl show "j < length (FastPolicyMaps l' ! i)" by simp
    from C jl j show "FastPolicyMaps l' ! i ! j = Some (lru_New (unat (MapSize l)))"
      by simp
  qed
qed

lemma UpdateAcls_keeps_fast:
  "UpdateAcls tc l acls = Some l1 \<Longrightarrow>
   FastPolicyMaps l1 = FastPolicyMaps l \<and> MapSize l1 = MapSize l \<and> RawAcls l1 = acls"
  by (auto simp: UpdateAcls_def GenerateGroupPortMaps_def GenerateGroupVlanMaps_def
      GenerateInterestMaps_def Let_def split: option.splits)


text \<open>
  C2, as stated, fails: \<open>UpdateAcls\<close> does not touch \<open>FastPolicyMaps\<close>. A cache that
  holds an entry before \<open>UpdateAcls\<close> holds it afterwards.
\<close>

theorem UpdateAcls_keeps_entries_counterexample:
  "map_option FastPolicyMaps (UpdateAcls ex_taps ex_seeded [])
     = Some [[None, Some \<lparr>MaxEntries = 0, entries = [(5, new_VlanAndPortMap)]\<rparr>,
              Some (lru_New 0), Some (lru_New 0)]]"
  by (simp add: UpdateAcls_def expand_any_def GenerateGroupPortMaps_def
      GenerateGroupVlanMaps_def GenerateInterestMaps_def ex_seeded_def Let_def)

text \<open>
  C2, amended. \<open>UpdateAcls\<close> leaves every fast-path cache as it is. \<open>FlushAcls\<close>, and
  \<open>AddAcl\<close> and \<open>DelAcl\<close> (with an id in range), which call \<open>FlushAcls\<close> after
  \<open>UpdateAcls\<close>, keep the number of queues and leave in every cell of every queue, for
  the tap types from \<open>TAP_MIN\<close> to \<open>TAP_MAX - 1\<close>, a new, empty cache of \<open>MapSize\<close>
  entries.
\<close>

theorem fast_caches_after_update:
  "(UpdateAcls tc l acls = Some l1 \<longrightarrow> FastPolicyMaps l1 = FastPolicyMaps l)
   \<and> (FlushAcls tc l = Some l2 \<or> AddAcl tc l acl = Some l2
        \<or> (0 < n \<and> n \<le> int (length (RawAcls l)) \<and> DelAcl tc l n = Some l2)
      \<longrightarrow> length (FastPolicyMaps l2) = length (FastPolicyMaps l)
          \<and> (\<forall>i < length (FastPolicyMaps l2). \<forall>j. TAP_MIN tc \<le> j \<and> j < TAP_MAX tc \<longrightarrow>
                j < length (FastPolicyMaps l2 ! i)
                \<and> FastPolicyMaps l2 ! i ! j = Some (lru_New (unat (MapSize l)))))"
proof (rule conjI; rule impI)
  assume "UpdateAcls tc l acls = Some l1"
  then show "FastPolicyMaps l1 = FastPolicyMaps l"
    by (simp add: UpdateAcls_keeps_fast)
next
  assume h: "FlushAcls tc l = Some l2 \<or> AddAcl tc l acl = Some l2
        \<or> (0 < n \<and> n \<le> int (length (RawAcls l)) \<and> DelAcl tc l n = Some l2)"
  have "\<exists>l0. FlushAcls tc l0 = Some l2 \<and> FastPolicyMaps l0 = FastPolicyMaps l
          \<and> MapSize l0 = MapSize l"
    using h
  proof (elim disjE conjE)
    assume "FlushAcls tc l = Some l2"
    then show ?thesis by blast
  next
    assume "AddAcl tc l acl = Some l2"
    then obtain l0 where "UpdateAcls tc l (RawAcls l @ [acl]) = Some l0" "FlushAcls tc l0 = Some l2"
      by (auto simp: AddAcl_def split: option.splits)
    then show ?thesis using UpdateAcls_keeps_fast by blast
  next
    assume n: "0 < n" "n \<le> int (length (RawAcls l))" and d: "DelAcl tc l n = Some l2"
    from n d obtain as l0 where "UpdateAcls tc l as = Some l0" "FlushAcls tc l0 = Some l2"
      by (auto simp: DelAcl_def Let_def split: option.splits if_splits)
    then show ?thesis using UpdateAcls_keeps_fast by blast
  qed
  then obtain l0 where f: "FlushAcls tc l0 = Some l2"
    and e: "FastPolicyMaps l0 = FastPolicyMaps l" "MapSize l0 = MapSize l"
    by blast
  from FlushAcls_result [OF f] e
  show "length (FastPolicyMaps l2) = length (FastPolicyMaps l)
          \<and> (\<forall>i < length (FastPolicyMaps l2). \<forall>j. TAP_MIN tc \<le> j \<and> j < TAP_MAX tc \<longrightarrow>
                j < length (FastPolicyMaps l2 ! i)
                \<and> FastPolicyMaps l2 ! i ! j = Some (lru_New (unat (MapSize l))))"
    by simp
qed

theorem fast_caches_after_update_witness:
  "AddAcl ex_taps ex_seeded (ex_acl 0) \<noteq> None
   \<and> map_option (\<lambda>l. FastPolicyMaps l ! 0 ! 1) (AddAcl ex_taps ex_seeded (ex_acl 0))
       = Some (Some \<lparr>MaxEntries = 0, entries = []\<rparr>)
   \<and> map_option FastPolicyMaps (UpdateAcls ex_taps ex_seeded [ex_acl 0])
       = Some (FastPolicyMaps ex_seeded)"
proof -
  have u: "UpdateAcls ex_taps ex_seeded [ex_acl 0] \<noteq> None"
    by (simp add: UpdateAcls_def expand_any_def GenerateGroupPortMaps_def
      GenerateGroupVlanMaps_def GenerateInterestMaps_def ex_seeded_def Let_def
      ex_taps_def ex_acl_def tap_writable_def NewPolicyLabel_def)
  then obtain l1 where l1: "UpdateAcls ex_taps ex_seeded [ex_acl 0] = Some l1"
    by auto
  have r: "RawAcls ex_seeded = []"
    by (simp add: ex_seeded_def NewPolicyLabel_def)
  have k: "FastPolicyMaps l1 = FastPolicyMaps ex_seeded" "MapSize l1 = MapSize ex_seeded"
    using UpdateAcls_keeps_fast [OF l1] by simp_all
  have f: "FlushAcls ex_taps l1 \<noteq> None"
    by (simp add: FlushAcls_def k ex_seeded_def ex_taps_def NewPolicyLabel_def upt_rec)
  then obtain l2 where l2: "FlushAcls ex_taps l1 = Some l2"
    by auto
  have a: "AddAcl ex_taps ex_seeded (ex_acl 0) = Some l2"
    by (simp add: AddAcl_def r l1 l2)
  note A = fast_caches_after_update [of ex_taps ex_seeded "[ex_acl 0]" l1 l2 "ex_acl 0" 0]
  have len: "length (FastPolicyMaps ex_seeded) = 1" "MapSize ex_seeded = 0"
    "TAP_MIN ex_taps = 1" "TAP_MAX ex_taps = 4"
    by (simp_all add: ex_seeded_def NewPolicyLabel_def ex_taps_def)
  from A a l1 len have "FastPolicyMaps l2 ! 0 ! 1 = Some (lru_New 0)"
    "FastPolicyMaps l1 = FastPolicyMaps ex_seeded"
    by simp_all
  then show ?thesis
    using a l1 by (simp add: lru_New_def)
qed

section \<open>The two passes of the netmask learner\<close>

lemma mask_of_raise:
  "mask_of (raise_mask m k v) k' = (if k' = k \<and> mask_of m k < v then v else mask_of m k')"
  by (simp add: raise_mask_def mask_of_def)

lemma raise_mask_mono: "mask_of m k' \<le> mask_of (raise_mask m k v) k'"
  by (auto simp: mask_of_raise)

lemma raise_mask_keeps:
  "m k' = Some v' \<Longrightarrow> \<exists>w. raise_mask m k v k' = Some w \<and> v' \<le> w"
  by (auto simp: raise_mask_def mask_of_def)

lemma masks_ok_raise: "masks_ok m \<Longrightarrow> 0xffff0000 \<le> v \<Longrightarrow> masks_ok (raise_mask m k v)"
  by (auto simp: masks_ok_def raise_mask_def)

lemma masks_ok_mask_of: "masks_ok m \<Longrightarrow> mask_of m k = 0 \<or> 0xffff0000 \<le> mask_of m k"
  by (auto simp: masks_ok_def mask_of_def split: option.splits)

lemma raise_mask_zero: "raise_mask m k 0 = m"
  by (simp add: raise_mask_def)

lemma masks_ok_refine_step: "masks_ok m \<Longrightarrow> masks_ok (raise_mask m k (mask_of m b))"
  using masks_ok_mask_of [of m b] by (auto simp: raise_mask_zero masks_ok_raise)

lemma masks_ok_seeds: "masks_ok m \<Longrightarrow> masks_ok (seeds xs m)"
  by (induction xs m rule: seeds.induct) (simp_all add: masks_ok_raise)

lemma masks_ok_refines: "masks_ok m \<Longrightarrow> masks_ok (refines xs m)"
  by (induction xs m rule: refines.induct) (simp_all add: masks_ok_refine_step)

lemma seeds_mono: "mask_of m k \<le> mask_of (seeds xs m) k"
proof (induction xs m rule: seeds.induct)
  case (1 m)
  show ?case by simp
next
  case (2 ip msk xs m)
  show ?case
  proof (cases "0xffff0000 \<le> msk")
    case True
    with 2 have "mask_of (raise_mask m (ip AND 0xffff0000) msk) k
        \<le> mask_of (seeds ((ip, msk) # xs) m) k"
      by simp
    with raise_mask_mono [of m k "ip AND 0xffff0000" msk] show ?thesis
      by (rule order_trans)
  next
    case False
    with 2 show ?thesis by simp
  qed
qed

lemma refines_mono: "mask_of m k \<le> mask_of (refines xs m) k"
proof (induction xs m rule: refines.induct)
  case (1 m)
  show ?case by simp
next
  case (2 ip xs m)
  have "mask_of (raise_mask m (ip AND mask_of m (ip AND 0xffff0000)) (mask_of m (ip AND 0xffff0000))) k
      \<le> mask_of (refines (ip # xs) m) k"
    using 2 by simp
  with raise_mask_mono show ?case
    by (rule order_trans)
qed

lemma seeds_keeps: "m k = Some v \<Longrightarrow> \<exists>w. seeds xs m k = Some w \<and> v \<le> w"
proof (induction xs m arbitrary: v rule: seeds.induct)
  case (1 m)
  then show ?case by simp
next
  case (2 ip msk xs m)
  show ?case
  proof (cases "0xffff0000 \<le> msk")
    case True
    from raise_mask_keeps [of m k v "ip AND 0xffff0000" msk, OF "2.prems"]
    obtain w where w: "raise_mask m (ip AND 0xffff0000) msk k = Some w" "v \<le> w"
      by blast
    from "2.IH" [of w] w(1) True
    obtain w' where "seeds ((ip, msk) # xs) m k = Some w'" "w \<le> w'"
      by auto
    with w show ?thesis by auto
  next
    case False
    with 2 show ?thesis by simp
  qed
qed

lemma refines_keeps: "m k = Some v \<Longrightarrow> \<exists>w. refines xs m k = Some w \<and> v \<le> w"
proof (induction xs m arbitrary: v rule: refines.induct)
  case (1 m)
  then show ?case by simp
next
  case (2 ip xs m)
  from raise_mask_keeps [of m k v "ip AND mask_of m (ip AND 0xffff0000)"
      "mask_of m (ip AND 0xffff0000)", OF "2.prems"]
  obtain w where w: "raise_mask m (ip AND mask_of m (ip AND 0xffff0000))
      (mask_of m (ip AND 0xffff0000)) k = Some w" "v \<le> w"
    by blast
  from "2.IH" [OF w(1)] obtain w' where "refines (ip # xs) m k = Some w'" "w \<le> w'"
    by auto
  with w show ?case by auto
qed


lemma top16_of_mask:
  fixes M :: u32
  assumes "0xffff0000 \<le> M"
  shows "M AND 0xffff0000 = 0xffff0000"
proof -
  have c: "(0xffff0000 :: u32) = NOT (mask 16)"
    by (simp add: mask_eq_exp_minus_1)
  have "unat (0xffff0000 :: u32) \<le> unat M"
    using assms by (simp only: word_le_nat_alt)
  then have u: "4294901760 \<le> unat M" by simp
  have "unat (drop_bit 16 M) = unat M div 2 ^ 16"
    by (simp only: unat_drop_bit_eq) (simp only: drop_bit_eq_div)
  with u have "65535 \<le> unat (drop_bit 16 M)" by simp
  moreover have "unat (drop_bit 16 M) < 2 ^ 16"
    using unsigned_less [of M, where 'a = nat]
    by (simp only: unat_drop_bit_eq) (simp add: drop_bit_eq_div less_mult_imp_div_less)
  ultimately have "unat (drop_bit 16 M) = unat (0xffff :: u32)" by simp
  then have d: "drop_bit 16 M = 0xffff"
    by (simp only: word_unat_eq_iff)
  have e: "M AND NOT (mask 16) = push_bit 16 (drop_bit 16 M)"
    by (rule bit_word_eqI) (auto simp: bit_simps)
  have "M AND 0xffff0000 = M AND NOT (mask 16)"
    by (simp only: c)
  also have "\<dots> = push_bit 16 (0xffff :: u32)"
    by (simp only: e d)
  also have "\<dots> = 0xffff0000"
    by simp
  finally show ?thesis .
qed

lemma bucket_and:
  fixes ip M :: u32
  assumes "0xffff0000 \<le> M"
  shows "(ip AND M) AND 0xffff0000 = ip AND 0xffff0000"
  using top16_of_mask [OF assms] by (simp add: and.assoc)

lemma bucket_idem: "((ip :: u32) AND 0xffff0000) AND 0xffff0000 = ip AND 0xffff0000"
  by (simp add: and.assoc)

lemma refine_step_bucket:
  assumes ok: "masks_ok m" and k: "k AND 0xffff0000 = k"
  shows "raise_mask m (ip AND mask_of m (ip AND 0xffff0000)) (mask_of m (ip AND 0xffff0000)) k = m k"
proof (cases "mask_of m (ip AND 0xffff0000) = 0")
  case True
  then show ?thesis by (simp add: raise_mask_zero)
next
  case False
  with masks_ok_mask_of [OF ok, of "ip AND 0xffff0000"]
  have M: "0xffff0000 \<le> mask_of m (ip AND 0xffff0000)" by simp
  show ?thesis
  proof (cases "ip AND mask_of m (ip AND 0xffff0000) = k")
    case True
    with k bucket_and [OF M, of ip] have "k = ip AND 0xffff0000" by simp
    with True show ?thesis by (simp add: raise_mask_def)
  next
    case False
    then show ?thesis by (simp add: raise_mask_def)
  qed
qed

lemma refines_bucket:
  "masks_ok m \<Longrightarrow> k AND 0xffff0000 = k \<Longrightarrow> refines xs m k = m k"
proof (induction xs m rule: refines.induct)
  case (1 m)
  show ?case by simp
next
  case (2 ip xs m)
  from "2.IH" [OF masks_ok_refine_step [OF "2.prems"(1)] "2.prems"(2)]
    refine_step_bucket [OF "2.prems"]
  show ?case by simp
qed

lemma mask_of_cong: "m k = m' k \<Longrightarrow> mask_of m k = mask_of m' k"
  by (simp add: mask_of_def)

lemma refines_bucket_mask:
  "masks_ok m \<Longrightarrow> mask_of (refines xs m) (ip AND 0xffff0000) = mask_of m (ip AND 0xffff0000)"
  by (rule mask_of_cong) (simp add: refines_bucket bucket_idem)

lemma refines_reached:
  assumes "masks_ok m" and "ip \<in> set xs"
  shows "mask_of m (ip AND 0xffff0000)
      \<le> mask_of (refines xs m) (ip AND mask_of m (ip AND 0xffff0000))"
  using assms
proof (induction xs m rule: refines.induct)
  case (1 m)
  then show ?case by simp
next
  case (2 a xs m)
  let ?m' = "raise_mask m (a AND mask_of m (a AND 0xffff0000)) (mask_of m (a AND 0xffff0000))"
  have ok': "masks_ok ?m'"
    using "2.prems"(1) by (rule masks_ok_refine_step)
  have same: "mask_of ?m' (ip AND 0xffff0000) = mask_of m (ip AND 0xffff0000)"
    by (rule mask_of_cong) (simp add: refine_step_bucket [OF "2.prems"(1)] bucket_idem)
  show ?case
  proof (cases "ip = a")
    case True
    have "mask_of m (a AND 0xffff0000) \<le> mask_of ?m' (a AND mask_of m (a AND 0xffff0000))"
      by (auto simp: mask_of_raise)
    also have "\<dots> \<le> mask_of (refines xs ?m') (a AND mask_of m (a AND 0xffff0000))"
      by (rule refines_mono)
    finally show ?thesis using True by simp
  next
    case False
    with "2.prems"(2) have "ip \<in> set xs" by simp
    from "2.IH" [OF ok' this] same show ?thesis by simp
  qed
qed

lemma refines_fixpoint:
  "(\<forall>ip \<in> set xs. mask_of m (ip AND 0xffff0000)
        \<le> mask_of m (ip AND mask_of m (ip AND 0xffff0000)))
   \<Longrightarrow> refines xs m = m"
proof (induction xs)
  case Nil
  show ?case by simp
next
  case (Cons a xs)
  from Cons.prems
  have "raise_mask m (a AND mask_of m (a AND 0xffff0000)) (mask_of m (a AND 0xffff0000)) = m"
    by (auto simp: raise_mask_def dest: leD)
  with Cons show ?case by simp
qed

lemma seeds_reached:
  assumes "(ip, v) \<in> set xs" and "0xffff0000 \<le> v"
  shows "v \<le> mask_of (seeds xs m) (ip AND 0xffff0000)"
  using assms
proof (induction xs m rule: seeds.induct)
  case (1 m)
  then show ?case by simp
next
  case (2 a w xs m)
  let ?m' = "if 0xffff0000 \<le> w then raise_mask m (a AND 0xffff0000) w else m"
  show ?case
  proof (cases "(ip, v) = (a, w)")
    case True
    with "2.prems"(2) have "v \<le> mask_of ?m' (ip AND 0xffff0000)"
      by (auto simp: mask_of_raise)
    also have "\<dots> \<le> mask_of (seeds xs ?m') (ip AND 0xffff0000)"
      by (rule seeds_mono)
    finally show ?thesis by simp
  next
    case False
    with "2.prems"(1) have "(ip, v) \<in> set xs" by auto
    from "2.IH" [OF this "2.prems"(2)] show ?thesis by simp
  qed
qed

lemma seeds_fixpoint:
  "(\<forall>(ip, v) \<in> set xs. 0xffff0000 \<le> v \<longrightarrow> v \<le> mask_of m (ip AND 0xffff0000))
   \<Longrightarrow> seeds xs m = m"
proof (induction xs)
  case Nil
  show ?case by simp
next
  case (Cons a xs)
  obtain ip v where a: "a = (ip, v)" by (cases a)
  from Cons.prems a
  have "(if 0xffff0000 \<le> v then raise_mask m (ip AND 0xffff0000) v else m) = m"
    by (auto simp: raise_mask_def dest: leD)
  with Cons a show ?case by simp
qed

lemma two_pass_idempotent:
  assumes ok: "masks_ok m"
  shows "refines R (seeds S (refines R (seeds S m))) = refines R (seeds S m)"
proof -
  let ?m1 = "seeds S m"
  let ?m2 = "refines R ?m1"
  have ok1: "masks_ok ?m1" using ok by (rule masks_ok_seeds)
  have "seeds S ?m2 = ?m2"
  proof (rule seeds_fixpoint, clarify)
    fix ip v assume "(ip, v) \<in> set S" "0xffff0000 \<le> v"
    then have "v \<le> mask_of ?m1 (ip AND 0xffff0000)" by (rule seeds_reached)
    also have "\<dots> \<le> mask_of ?m2 (ip AND 0xffff0000)" by (rule refines_mono)
    finally show "v \<le> mask_of ?m2 (ip AND 0xffff0000)" .
  qed
  moreover have "refines R ?m2 = ?m2"
  proof (rule refines_fixpoint, rule ballI)
    fix ip assume "ip \<in> set R"
    from refines_reached [OF ok1 this]
    show "mask_of ?m2 (ip AND 0xffff0000)
        \<le> mask_of ?m2 (ip AND mask_of ?m2 (ip AND 0xffff0000))"
      by (simp add: refines_bucket_mask [OF ok1])
  qed
  ultimately show ?thesis by simp
qed


section \<open>The learner and its table\<close>

lemma seeds_append: "seeds (xs @ ys) m = seeds ys (seeds xs m)"
  by (induction xs m rule: seeds.induct) simp_all

lemma refines_append: "refines (xs @ ys) m = refines ys (refines xs m)"
  by (induction xs m rule: refines.induct) simp_all

lemma network_seed_loop_eq: "network_seed_loop ns m = seeds (network_pairs ns) m"
  by (induction ns arbitrary: m) (simp_all add: network_pairs_def Let_def)

lemma platform_seed_loop_eq:
  "platform_seed_loop ps m = seeds (network_pairs (concat (map PlatformData.Ips ps))) m"
  by (induction ps arbitrary: m)
     (simp_all add: network_seed_loop_eq seeds_append network_pairs_def)

lemma network_refine_loop_eq: "network_refine_loop ns m = refines (map Ip ns) m"
  by (induction ns arbitrary: m) (simp_all add: Let_def)

lemma platform_refine_loop_eq:
  "platform_refine_loop ps m = refines (map Ip (concat (map PlatformData.Ips ps))) m"
  by (induction ps arbitrary: m) (simp_all add: network_refine_loop_eq refines_append)

lemma raw_seed_loop_eq: "raw_seed_loop lib rs m = seeds (raw_pairs lib rs) m"
  by (induction rs arbitrary: m) (simp_all add: Let_def split: option.splits)

lemma raw_refine_loop_eq: "raw_refine_loop lib rs m = refines (raw_ips lib rs) m"
  by (induction rs arbitrary: m) (simp_all add: Let_def)

lemma makeIpNetmaskMap_ok:
  assumes "masks_ok (IpNetmaskMap l)"
  shows "makeIpNetmaskMap l = IpNetmaskMap l"
proof
  fix k
  show "makeIpNetmaskMap l k = IpNetmaskMap l k"
  proof (cases "IpNetmaskMap l k")
    case None
    then show ?thesis by (simp add: makeIpNetmaskMap_def)
  next
    case (Some v)
    with assms have "0xffff0000 \<le> v" by (simp add: masks_ok_def)
    then have "0 < v" by (simp add: word_le_nat_alt word_less_nat_alt)
    with Some show ?thesis by (simp add: makeIpNetmaskMap_def)
  qed
qed

lemma GenerateIpNetmaskMap_table:
  assumes "masks_ok (IpNetmaskMap l)"
  shows "IpNetmaskMap (GenerateIpNetmaskMap l ps) =
     refines (map Ip (concat (map PlatformData.Ips ps)))
       (seeds (network_pairs (concat (map PlatformData.Ips ps))) (IpNetmaskMap l))"
  by (simp add: GenerateIpNetmaskMap_def makeIpNetmaskMap_ok [OF assms]
      platform_seed_loop_eq platform_refine_loop_eq)

lemma masks_ok_group_loop: "masks_ok m \<Longrightarrow> masks_ok (group_loop lib ds m)"
  by (induction ds arbitrary: m)
     (simp_all add: raw_seed_loop_eq raw_refine_loop_eq masks_ok_seeds masks_ok_refines)

lemma group_loop_keeps:
  "m k = Some v \<Longrightarrow> \<exists>w. group_loop lib ds m k = Some w \<and> v \<le> w"
proof (induction ds arbitrary: m v)
  case Nil
  then show ?case by simp
next
  case (Cons d ds)
  from seeds_keeps [of m k v, OF Cons.prems] obtain w1 where
    w1: "seeds (raw_pairs lib (IpGroupData.Ips d)) m k = Some w1" "v \<le> w1" by blast
  from refines_keeps [of "seeds (raw_pairs lib (IpGroupData.Ips d)) m" k w1, OF w1(1)] obtain w2 where
    w2: "refines (raw_ips lib (IpGroupData.Ips d)) (seeds (raw_pairs lib (IpGroupData.Ips d)) m) k
           = Some w2" "w1 \<le> w2" by blast
  from Cons.IH [of "refines (raw_ips lib (IpGroupData.Ips d))
      (seeds (raw_pairs lib (IpGroupData.Ips d)) m)" w2, OF w2(1)] obtain w3 where
    "group_loop lib (d # ds) m k = Some w3" "w2 \<le> w3"
    by (auto simp: raw_seed_loop_eq raw_refine_loop_eq)
  with w1 w2 show ?case by auto
qed

lemma FromIpResource_table:
  assumes "masks_ok (IpNetmaskMap l)"
  shows "IpNetmaskMap (GenerateIpNetmaskMapFromIpResource lib l ds) =
     group_loop lib ds (IpNetmaskMap l)"
  by (simp add: GenerateIpNetmaskMapFromIpResource_def makeIpNetmaskMap_ok [OF assms])

lemma masks_ok_apply_call:
  assumes "masks_ok (IpNetmaskMap l)"
  shows "masks_ok (IpNetmaskMap (apply_call lib l c))"
proof (cases c)
  case (Platforms ps)
  then show ?thesis
    using assms by (simp add: GenerateIpNetmaskMap_table masks_ok_seeds masks_ok_refines)
next
  case (Resources ds)
  then show ?thesis
    using assms by (simp add: FromIpResource_table masks_ok_group_loop)
qed

lemma apply_call_keeps:
  assumes ok: "masks_ok (IpNetmaskMap l)" and k: "IpNetmaskMap l k = Some v"
  shows "\<exists>w. IpNetmaskMap (apply_call lib l c) k = Some w \<and> v \<le> w"
proof (cases c)
  case (Platforms ps)
  from seeds_keeps [of "IpNetmaskMap l" k v, OF k] obtain w1 where
    w1: "seeds (network_pairs (concat (map PlatformData.Ips ps))) (IpNetmaskMap l) k = Some w1"
      "v \<le> w1" by blast
  from refines_keeps [of "seeds (network_pairs (concat (map PlatformData.Ips ps))) (IpNetmaskMap l)"
      k w1, OF w1(1)] obtain w2 where
    "refines (map Ip (concat (map PlatformData.Ips ps)))
       (seeds (network_pairs (concat (map PlatformData.Ips ps))) (IpNetmaskMap l)) k = Some w2"
    "w1 \<le> w2" by blast
  with w1 Platforms show ?thesis
    by (auto simp: GenerateIpNetmaskMap_table [OF ok])
next
  case (Resources ds)
  with group_loop_keeps [of "IpNetmaskMap l" k v, OF k] show ?thesis
    by (simp add: FromIpResource_table [OF ok])
qed

lemma masks_ok_run_calls:
  "masks_ok (IpNetmaskMap l) \<Longrightarrow> masks_ok (IpNetmaskMap (run_calls lib l cs))"
  by (induction cs arbitrary: l) (simp_all add: masks_ok_apply_call)

lemma masks_ok_New: "masks_ok (IpNetmaskMap (NewPolicyLabel tc q n d))"
  by (simp add: masks_ok_def NewPolicyLabel_def)


section \<open>The learner on examples, and its invariants\<close>

lemma ex_split:
  "Split_slash ''10.0.0.0/24'' = [''10.0.0.0'', ''24'']"
  "Split_slash ''10.0.1.5/16'' = [''10.0.1.5'', ''16'']"
  "Split_slash ''10.0.1.5/x'' = [''10.0.1.5'', ''x'']"
  by simp_all

lemma ex_atoi: "Atoi ''24'' = Some 24" "Atoi ''16'' = Some 16" "Atoi ''x'' = None"
  by (simp_all add: Atoi_def is_digit_def digits_value_def)

lemma ex_split_nil: "Split_slash ''x/24'' = [''x'', ''24'']"
  by simp

lemma ex_ip:
  "IpToUint32 ex_lib (ParseIP ex_lib ''10.0.0.0'') = 0x0A000000"
  "IpToUint32 ex_lib (ParseIP ex_lib ''10.0.1.5'') = 0x0A000105"
  "ParseIP ex_lib ''x'' = []"
  "IpToUint32 ex_lib [] = 0"
  by (simp_all add: ex_lib_def)

lemma ex_masks:
  "push_bit (unat (word_of_int (32 - 24) :: u32)) (0xffffffff :: u32) = 0xffffff00"
  "push_bit (unat (word_of_int (32 - 16) :: u32)) (0xffffffff :: u32) = 0xffff0000"
  "push_bit (unat (32 - 24 :: u32)) (0xffffffff :: u32) = 0xffffff00"
  "push_bit (unat (32 - 25 :: u32)) (0xffffffff :: u32) = 0xffffff80"
  by simp_all

lemma ex_empty: "makeIpNetmaskMap ex_label = Map.empty"
  by (simp add: makeIpNetmaskMap_def ex_label_def NewPolicyLabel_def)

lemma ex_push:
  "push_bit 8 (0xffffffff :: u32) = 0xffffff00"
  "push_bit 7 (0xffffffff :: u32) = 0xffffff80"
  "push_bit 16 (0xffffffff :: u32) = 0xffff0000"
  by simp_all

lemma Split_slash_plain: "CHR ''/'' \<notin> set s \<Longrightarrow> Split_slash s = [s]"
  by (induction s) auto

lemma Split_slash_entry:
  "CHR ''/'' \<notin> set a \<Longrightarrow> CHR ''/'' \<notin> set s \<Longrightarrow> Split_slash (a @ CHR ''/'' # s) = [a, s]"
  by (induction a) (auto simp: Split_slash_plain)

lemma raw_pairs_entry:
  assumes "CHR ''/'' \<notin> set a" and "CHR ''/'' \<notin> set s"
  shows "raw_pairs lib ((a @ CHR ''/'' # s) # rs) =
     (case Atoi s of
        None \<Rightarrow> raw_pairs lib rs
      | Some maskSize \<Rightarrow>
          (IpToUint32 lib (ParseIP lib a),
           push_bit (unat (word_of_int (32 - maskSize) :: u32)) (0xffffffff :: u32))
          # raw_pairs lib rs)"
  by (simp add: Split_slash_entry [OF assms] cong: option.case_cong)

lemma raw_ips_entry:
  assumes "CHR ''/'' \<notin> set a" and "CHR ''/'' \<notin> set s"
  shows "raw_ips lib ((a @ CHR ''/'' # s) # rs) = IpToUint32 lib (ParseIP lib a) # raw_ips lib rs"
  by (simp add: Split_slash_entry [OF assms])

lemma text_pairs:
  assumes "CHR ''/'' \<notin> set a"
  shows "raw_pairs lib ((a @ ''/16'') # rs)
           = (IpToUint32 lib (ParseIP lib a), 0xffff0000) # raw_pairs lib rs"
    and "raw_pairs lib ((a @ ''/24'') # rs)
           = (IpToUint32 lib (ParseIP lib a), 0xffffff00) # raw_pairs lib rs"
    and "raw_pairs lib ((a @ ''/x'') # rs) = raw_pairs lib rs"
    and "raw_ips lib ((a @ ''/16'') # rs) = IpToUint32 lib (ParseIP lib a) # raw_ips lib rs"
    and "raw_ips lib ((a @ ''/24'') # rs) = IpToUint32 lib (ParseIP lib a) # raw_ips lib rs"
    and "raw_ips lib ((a @ ''/x'') # rs) = IpToUint32 lib (ParseIP lib a) # raw_ips lib rs"
  using assms
  by (simp_all add: raw_pairs_entry raw_ips_entry ex_atoi ex_push
      del: raw_pairs.simps raw_ips.simps)

lemma two_groups_table1:
  assumes "CHR ''/'' \<notin> set a" and "CHR ''/'' \<notin> set b"
    and "IpToUint32 lib (ParseIP lib a) = 0x0A000105"
    and "IpToUint32 lib (ParseIP lib b) = 0x0A000000"
  shows "group_loop lib [ex_group [a @ ''/16''], ex_group [b @ ''/24'']] Map.empty
     = [0x0A000000 \<mapsto> 0xffffff00]"
proof -
  have p: "raw_pairs lib [a @ ''/16''] = [(0x0A000105, 0xffff0000)]"
    "raw_pairs lib [b @ ''/24''] = [(0x0A000000, 0xffffff00)]"
    "raw_ips lib [a @ ''/16''] = [0x0A000105]"
    "raw_ips lib [b @ ''/24''] = [0x0A000000]"
    by (simp_all only: text_pairs [OF assms(1)] text_pairs [OF assms(2)] assms(3,4)
        raw_pairs.simps(1) raw_ips.simps(1))
  show ?thesis
    by (simp add: ex_group_def raw_seed_loop_eq raw_refine_loop_eq p raise_mask_def mask_of_def
        del: raw_pairs.simps raw_ips.simps)
qed

lemma two_groups_table2:
  assumes "CHR ''/'' \<notin> set a" and "CHR ''/'' \<notin> set b"
    and "IpToUint32 lib (ParseIP lib a) = 0x0A000105"
    and "IpToUint32 lib (ParseIP lib b) = 0x0A000000"
  shows "group_loop lib [ex_group [a @ ''/16''], ex_group [b @ ''/24'']]
       [0x0A000000 \<mapsto> 0xffffff00]
     = [0x0A000000 \<mapsto> 0xffffff00, 0x0A000100 \<mapsto> 0xffffff00]"
proof -
  have p: "raw_pairs lib [a @ ''/16''] = [(0x0A000105, 0xffff0000)]"
    "raw_pairs lib [b @ ''/24''] = [(0x0A000000, 0xffffff00)]"
    "raw_ips lib [a @ ''/16''] = [0x0A000105]"
    "raw_ips lib [b @ ''/24''] = [0x0A000000]"
    by (simp_all only: text_pairs [OF assms(1)] text_pairs [OF assms(2)] assms(3,4)
        raw_pairs.simps(1) raw_ips.simps(1))
  show ?thesis
    by (simp add: ex_group_def raw_seed_loop_eq raw_refine_loop_eq p raise_mask_def mask_of_def
        del: raw_pairs.simps raw_ips.simps)
qed

lemma unchecked_length_table:
  assumes "CHR ''/'' \<notin> set a" and "CHR ''/'' \<notin> set b"
    and "IpToUint32 lib (ParseIP lib a) = 0x0A000000"
    and "IpToUint32 lib (ParseIP lib b) = 0x0A000105"
  shows "group_loop lib [ex_group [a @ ''/24'', b @ ''/x'']] Map.empty 0x0A000100
           = Some 0xffffff00"
    and "group_loop lib [ex_group [a @ ''/24'']] Map.empty 0x0A000100 = None"
proof -
  have p: "raw_pairs lib [a @ ''/24'', b @ ''/x''] = [(0x0A000000, 0xffffff00)]"
    "raw_pairs lib [a @ ''/24''] = [(0x0A000000, 0xffffff00)]"
    "raw_ips lib [a @ ''/24'', b @ ''/x''] = [0x0A000000, 0x0A000105]"
    "raw_ips lib [a @ ''/24''] = [0x0A000000]"
    by (simp_all only: text_pairs [OF assms(1)] text_pairs [OF assms(2)] assms(3,4)
        raw_pairs.simps(1) raw_ips.simps(1))
  show "group_loop lib [ex_group [a @ ''/24'', b @ ''/x'']] Map.empty 0x0A000100
           = Some 0xffffff00"
    by (simp add: ex_group_def raw_seed_loop_eq raw_refine_loop_eq p raise_mask_def mask_of_def
        del: raw_pairs.simps raw_ips.simps)
  show "group_loop lib [ex_group [a @ ''/24'']] Map.empty 0x0A000100 = None"
    by (simp add: ex_group_def raw_seed_loop_eq raw_refine_loop_eq p raise_mask_def mask_of_def
        del: raw_pairs.simps raw_ips.simps)
qed

lemma unchecked_nil_table:
  assumes "CHR ''/'' \<notin> set x"
  shows "group_loop lib [ex_group [x @ ''/24'']] Map.empty
     (IpToUint32 lib (ParseIP lib x) AND 0xffff0000) = Some 0xffffff00"
proof -
  let ?v = "IpToUint32 lib (ParseIP lib x)"
  have p: "raw_pairs lib [x @ ''/24''] = [(?v, 0xffffff00)]" "raw_ips lib [x @ ''/24''] = [?v]"
    by (simp_all only: text_pairs [OF assms] raw_pairs.simps(1) raw_ips.simps(1))
  have s: "seeds [(?v, 0xffffff00)] Map.empty = [?v AND 0xffff0000 \<mapsto> 0xffffff00]"
    by (simp add: raise_mask_def mask_of_def)
  have "group_loop lib [ex_group [x @ ''/24'']] Map.empty
      = refines [?v] [?v AND 0xffff0000 \<mapsto> 0xffffff00]"
    by (simp add: ex_group_def raw_seed_loop_eq raw_refine_loop_eq p s
        del: raw_pairs.simps raw_ips.simps seeds.simps refines.simps)
  moreover from refines_keeps [of "[?v AND 0xffff0000 \<mapsto> 0xffffff00]" "?v AND 0xffff0000"
      "0xffffff00" "[?v]"]
  obtain w where w: "refines [?v] [?v AND 0xffff0000 \<mapsto> 0xffffff00] (?v AND 0xffff0000) = Some w"
    by auto
  moreover have "w = 0xffffff00"
    using w by (auto simp: raise_mask_def mask_of_def split: if_splits)
  ultimately show ?thesis by simp
qed

lemma ex_label_table: "IpNetmaskMap (NewPolicyLabel tc q n d) = Map.empty"
  by (simp add: NewPolicyLabel_def)

lemma ex_net_pairs:
  "network_pairs (concat (map PlatformData.Ips ex_two_nets))
     = [(0x0A000000, 0xffffff00), (0x0A000100, 0xffffff00)]"
  "map Ip (concat (map PlatformData.Ips ex_two_nets)) = [0x0A000000, 0x0A000100]"
  "network_pairs (PlatformData.Ips (ex_platform [(0x0A000080, 25)]))
     = [(0x0A000080, 0xffffff80)]"
  "map Ip (PlatformData.Ips (ex_platform [(0x0A000080, 25)])) = [0x0A000080]"
  by (simp_all add: ex_two_nets_def ex_platform_def network_pairs_def ex_push)

lemma ex_table3:
  "IpNetmaskMap (GenerateIpNetmaskMap (NewPolicyLabel ex_taps 2 0 False) ex_two_nets)
     = [0x0A000000 \<mapsto> 0xffffff00, 0x0A000100 \<mapsto> 0xffffff00]"
  by (simp add: GenerateIpNetmaskMap_table [OF masks_ok_New] ex_label_table ex_net_pairs
      raise_mask_def mask_of_def)

text \<open>
  C6. After any sequence of calls of \<open>GenerateIpNetmaskMap\<close> and
  \<open>GenerateIpNetmaskMapFromIpResource\<close>, from the empty table of \<open>NewPolicyLabel\<close>,
  every mask stored in \<open>IpNetmaskMap\<close> lies between \<open>0xFFFF0000\<close> and
  \<open>0xFFFFFFFF\<close>; and whatever call comes next, a key that has a mask keeps one, and
  the new mask is not smaller. This holds for every address library.
\<close>

theorem ip_netmask_range_and_monotone:
  "let l = run_calls lib (NewPolicyLabel tc queueCount mapSize fastPathDisable) cs
   in (\<forall>k v. IpNetmaskMap l k = Some v \<longrightarrow> 0xffff0000 \<le> v \<and> v \<le> 0xffffffff)
      \<and> (\<forall>c k v. IpNetmaskMap l k = Some v \<longrightarrow>
            (\<exists>w. IpNetmaskMap (apply_call lib l c) k = Some w \<and> v \<le> w))"
proof -
  let ?l = "run_calls lib (NewPolicyLabel tc queueCount mapSize fastPathDisable) cs"
  have ok: "masks_ok (IpNetmaskMap ?l)"
    by (rule masks_ok_run_calls) (rule masks_ok_New)
  have "(0xffffffff :: u32) = - 1" by simp
  then have top: "v \<le> 0xffffffff" for v :: u32
    by (simp only: word_order.extremum)
  have "\<forall>k v. IpNetmaskMap ?l k = Some v \<longrightarrow> 0xffff0000 \<le> v \<and> v \<le> 0xffffffff"
    using ok top by (simp add: masks_ok_def)
  moreover have "\<forall>c k v. IpNetmaskMap ?l k = Some v \<longrightarrow>
            (\<exists>w. IpNetmaskMap (apply_call lib ?l c) k = Some w \<and> v \<le> w)"
    using apply_call_keeps [OF ok] by blast
  ultimately show ?thesis by (simp only: Let_def) 
qed


theorem ip_netmask_range_and_monotone_witness:
  "IpNetmaskMap (run_calls ex_lib (NewPolicyLabel ex_taps 2 0 False) [Platforms ex_two_nets])
       0x0A000000 = Some 0xffffff00
   \<and> (0xffff0000 :: u32) \<le> 0xffffff00
   \<and> IpNetmaskMap (apply_call ex_lib
         (run_calls ex_lib (NewPolicyLabel ex_taps 2 0 False) [Platforms ex_two_nets])
         (Platforms [ex_platform [(0x0A000080, 25)]])) 0x0A000000 = Some 0xffffff80"
proof -
  let ?l = "run_calls ex_lib (NewPolicyLabel ex_taps 2 0 False) [Platforms ex_two_nets]"
  note A = ip_netmask_range_and_monotone [of ex_lib ex_taps 2 0 False "[Platforms ex_two_nets]"]
  have t: "IpNetmaskMap ?l = [0x0A000000 \<mapsto> 0xffffff00, 0x0A000100 \<mapsto> 0xffffff00]"
    by (simp add: ex_table3)
  have ok: "masks_ok (IpNetmaskMap
      (GenerateIpNetmaskMap (NewPolicyLabel ex_taps 2 0 False) ex_two_nets))"
    using masks_ok_apply_call [OF masks_ok_New, of ex_lib ex_taps 2 0 False "Platforms ex_two_nets"]
    by simp
  have u: "IpNetmaskMap (apply_call ex_lib ?l (Platforms [ex_platform [(0x0A000080, 25)]]))
      0x0A000000 = Some 0xffffff80"
    by (simp add: GenerateIpNetmaskMap_table [OF ok] ex_table3 ex_net_pairs raise_mask_def
        mask_of_def)
  from A have "\<forall>k v. IpNetmaskMap ?l k = Some v \<longrightarrow> 0xffff0000 \<le> v"
    by (simp add: Let_def)
  then have "IpNetmaskMap ?l 0x0A000000 = Some 0xffffff00 \<longrightarrow> (0xffff0000 :: u32) \<le> 0xffffff00"
    by blast
  with t u show ?thesis by simp
qed

text \<open>
  Where the second call changes nothing: on every table reached by a sequence of calls, a
  second call of \<open>GenerateIpNetmaskMap\<close> with the same platforms, which seeds all of its
  input before it refines any of it, and a second call of
  \<open>GenerateIpNetmaskMapFromIpResource\<close> with an input of at most one group.
\<close>

lemma generators_idempotent_where:
  "let l = run_calls lib (NewPolicyLabel tc queueCount mapSize fastPathDisable) cs
   in GenerateIpNetmaskMap (GenerateIpNetmaskMap l platforms) platforms
        = GenerateIpNetmaskMap l platforms
      \<and> GenerateIpNetmaskMapFromIpResource lib
          (GenerateIpNetmaskMapFromIpResource lib l [data]) [data]
        = GenerateIpNetmaskMapFromIpResource lib l [data]
      \<and> GenerateIpNetmaskMapFromIpResource lib
          (GenerateIpNetmaskMapFromIpResource lib l []) []
        = GenerateIpNetmaskMapFromIpResource lib l []"
proof -
  let ?l = "run_calls lib (NewPolicyLabel tc queueCount mapSize fastPathDisable) cs"
  have ok: "masks_ok (IpNetmaskMap ?l)"
    by (rule masks_ok_run_calls) (rule masks_ok_New)
  have ok1: "masks_ok (IpNetmaskMap (GenerateIpNetmaskMap ?l platforms))"
    using masks_ok_apply_call [OF ok, of lib "Platforms platforms"] by simp
  have ok2: "masks_ok (IpNetmaskMap (GenerateIpNetmaskMapFromIpResource lib ?l ds))" for ds
    using masks_ok_apply_call [OF ok, of lib "Resources ds"] by simp
  have a: "GenerateIpNetmaskMap (GenerateIpNetmaskMap ?l platforms) platforms
        = GenerateIpNetmaskMap ?l platforms"
  proof -
    have "IpNetmaskMap (GenerateIpNetmaskMap (GenerateIpNetmaskMap ?l platforms) platforms)
        = IpNetmaskMap (GenerateIpNetmaskMap ?l platforms)"
      by (simp only: GenerateIpNetmaskMap_table [OF ok1] GenerateIpNetmaskMap_table [OF ok]
          two_pass_idempotent [OF ok])
    then show ?thesis
      by (simp add: GenerateIpNetmaskMap_def)
  qed
  have b: "GenerateIpNetmaskMapFromIpResource lib
          (GenerateIpNetmaskMapFromIpResource lib ?l [data]) [data]
        = GenerateIpNetmaskMapFromIpResource lib ?l [data]"
  proof -
    have "IpNetmaskMap (GenerateIpNetmaskMapFromIpResource lib
          (GenerateIpNetmaskMapFromIpResource lib ?l [data]) [data])
        = IpNetmaskMap (GenerateIpNetmaskMapFromIpResource lib ?l [data])"
      by (simp only: FromIpResource_table [OF ok2] FromIpResource_table [OF ok]
          group_loop.simps raw_seed_loop_eq raw_refine_loop_eq two_pass_idempotent [OF ok])
    then show ?thesis
      by (simp add: GenerateIpNetmaskMapFromIpResource_def)
  qed
  have c: "GenerateIpNetmaskMapFromIpResource lib
          (GenerateIpNetmaskMapFromIpResource lib ?l []) []
        = GenerateIpNetmaskMapFromIpResource lib ?l []"
  proof -
    have "IpNetmaskMap (GenerateIpNetmaskMapFromIpResource lib
          (GenerateIpNetmaskMapFromIpResource lib ?l []) [])
        = IpNetmaskMap (GenerateIpNetmaskMapFromIpResource lib ?l [])"
      by (simp only: FromIpResource_table [OF ok2] FromIpResource_table [OF ok] group_loop.simps)
    then show ?thesis
      by (simp add: GenerateIpNetmaskMapFromIpResource_def)
  qed
  from a b c show ?thesis by (simp only: Let_def)
qed

lemma generators_idempotent_where_instance:
  "IpNetmaskMap (GenerateIpNetmaskMap
      (GenerateIpNetmaskMap (NewPolicyLabel ex_taps 2 0 False) ex_two_nets) ex_two_nets)
     0x0A000100 = Some 0xffffff00"
  using generators_idempotent_where [of ex_lib ex_taps 2 0 False "[]" ex_two_nets "ex_group []"]
  by (simp add: Let_def ex_table3)

text \<open>
  C7, at the failing input. \<open>GenerateIpNetmaskMapFromIpResource\<close> runs both passes
  inside its loop over the groups, where \<open>GenerateIpNetmaskMap\<close> seeds all of its input
  before it refines any. With a group holding \<open>10.0.1.5/16\<close> and then a group holding
  \<open>10.0.0.0/24\<close>, on a new classifier, the first call refines the first group while
  the mask of its /16 is still /16, and the second call, with the same input, refines it
  with the /24 the second group left, adding the key \<open>10.0.1.0\<close>: the table after the
  second call differs from the table after the first. The statement is for every library
  and every two texts \<open>a\<close> and \<open>b\<close> without a slash for which
  \<open>IpToUint32(net.ParseIP(a))\<close> is the address \<open>10.0.1.5\<close> and
  \<open>IpToUint32(net.ParseIP(b))\<close> the address \<open>10.0.0.0\<close>, whatever the form of the
  slice between the two functions and whichever of its bytes \<open>IpToUint32\<close> reads.
\<close>

theorem FromIpResource_second_call_differs:
  assumes "CHR ''/'' \<notin> set a" and "CHR ''/'' \<notin> set b"
    and "IpToUint32 lib (ParseIP lib a) = 0x0A000105"
    and "IpToUint32 lib (ParseIP lib b) = 0x0A000000"
  shows "IpNetmaskMap (GenerateIpNetmaskMapFromIpResource lib
           (NewPolicyLabel tc queueCount mapSize fastPathDisable)
           [ex_group [a @ ''/16''], ex_group [b @ ''/24'']])
         = [0x0A000000 \<mapsto> 0xffffff00]
     \<and> IpNetmaskMap (GenerateIpNetmaskMapFromIpResource lib
           (GenerateIpNetmaskMapFromIpResource lib
              (NewPolicyLabel tc queueCount mapSize fastPathDisable)
              [ex_group [a @ ''/16''], ex_group [b @ ''/24'']])
           [ex_group [a @ ''/16''], ex_group [b @ ''/24'']])
         = [0x0A000000 \<mapsto> 0xffffff00, 0x0A000100 \<mapsto> 0xffffff00]
     \<and> GenerateIpNetmaskMapFromIpResource lib
           (GenerateIpNetmaskMapFromIpResource lib
              (NewPolicyLabel tc queueCount mapSize fastPathDisable)
              [ex_group [a @ ''/16''], ex_group [b @ ''/24'']])
           [ex_group [a @ ''/16''], ex_group [b @ ''/24'']]
         \<noteq> GenerateIpNetmaskMapFromIpResource lib
              (NewPolicyLabel tc queueCount mapSize fastPathDisable)
              [ex_group [a @ ''/16''], ex_group [b @ ''/24'']]"
proof -
  let ?l0 = "NewPolicyLabel tc queueCount mapSize fastPathDisable"
  let ?ds = "[ex_group [a @ ''/16''], ex_group [b @ ''/24'']]"
  let ?l1 = "GenerateIpNetmaskMapFromIpResource lib ?l0 ?ds"
  let ?l2 = "GenerateIpNetmaskMapFromIpResource lib ?l1 ?ds"
  have ok0: "masks_ok (IpNetmaskMap ?l0)"
    by (rule masks_ok_New)
  have t1: "IpNetmaskMap ?l1 = [0x0A000000 \<mapsto> 0xffffff00]"
    by (simp only: FromIpResource_table [OF ok0] ex_label_table two_groups_table1 [OF assms])
  have ok1: "masks_ok (IpNetmaskMap ?l1)"
    using masks_ok_apply_call [OF ok0, of lib "Resources ?ds"] by simp
  have t2: "IpNetmaskMap ?l2 = [0x0A000000 \<mapsto> 0xffffff00, 0x0A000100 \<mapsto> 0xffffff00]"
    by (simp only: FromIpResource_table [OF ok1] t1 two_groups_table2 [OF assms])
  have "IpNetmaskMap ?l1 0x0A000100 \<noteq> IpNetmaskMap ?l2 0x0A000100"
    by (simp add: t1 t2)
  then have "?l2 \<noteq> ?l1" by auto
  with t1 t2 show ?thesis by simp
qed

theorem FromIpResource_second_call_differs_witness:
  "CHR ''/'' \<notin> set ''10.0.1.5'' \<and> CHR ''/'' \<notin> set ''10.0.0.0''
   \<and> IpToUint32 ex_lib (ParseIP ex_lib ''10.0.1.5'') = 0x0A000105
   \<and> IpToUint32 ex_lib (ParseIP ex_lib ''10.0.0.0'') = 0x0A000000
   \<and> IpNetmaskMap (GenerateIpNetmaskMapFromIpResource ex_lib ex_label ex_two_groups) 0x0A000100
       = None
   \<and> IpNetmaskMap (GenerateIpNetmaskMapFromIpResource ex_lib
        (GenerateIpNetmaskMapFromIpResource ex_lib ex_label ex_two_groups) ex_two_groups)
        0x0A000100 = Some 0xffffff00"
proof -
  have n: "CHR ''/'' \<notin> set ''10.0.1.5''" "CHR ''/'' \<notin> set ''10.0.0.0''"
    by simp_all
  have g: "ex_two_groups = [ex_group [''10.0.1.5'' @ ''/16''], ex_group [''10.0.0.0'' @ ''/24'']]"
    by (simp add: ex_two_groups_def)
  from FromIpResource_second_call_differs [OF n ex_ip(2,1), of ex_taps 1 0 False]
  show ?thesis
    unfolding g [symmetric] ex_label_def [symmetric] using n by (simp add: ex_ip)
qed

text \<open>
  C9, at the failing inputs, on a new classifier. An entry \<open>x/24\<close> whose address part
  \<open>x\<close> does not parse splits into two parts and its length parses; the function never
  asks whether the address parsed, so the seed pass stores the mask /24 under the /16 of
  whatever \<open>IpToUint32\<close> returns for nil, where the empty input leaves the table empty.
  An entry \<open>10.0.1.5/x\<close> splits into two parts and its length does not parse; the seed
  pass skips it, but the refine pass, which does not parse the length, takes its address:
  next to the entry \<open>10.0.0.0/24\<close> it adds the key \<open>10.0.1.0\<close> to the table, which
  the well-formed entry alone does not. The first statement is for every library and
  every text without a slash that parses to nil; the second for every library and every
  two texts without a slash that \<open>IpToUint32(net.ParseIP(s))\<close> reads as the two
  addresses.
\<close>

theorem malformed_entries_not_skipped:
  "IpNetmaskMap (GenerateIpNetmaskMapFromIpResource lib
       (NewPolicyLabel tc queueCount mapSize fastPathDisable) [ex_group []]) = Map.empty
   \<and> Atoi ''24'' = Some 24 \<and> Atoi ''x'' = None
   \<and> (CHR ''/'' \<notin> set x \<and> ParseIP lib x = [] \<longrightarrow>
        Split_slash (x @ ''/24'') = [x, ''24'']
        \<and> IpNetmaskMap (GenerateIpNetmaskMapFromIpResource lib
            (NewPolicyLabel tc queueCount mapSize fastPathDisable) [ex_group [x @ ''/24'']])
          (IpToUint32 lib [] AND 0xffff0000) = Some 0xffffff00)
   \<and> (CHR ''/'' \<notin> set a \<and> CHR ''/'' \<notin> set b
        \<and> IpToUint32 lib (ParseIP lib a) = 0x0A000000
        \<and> IpToUint32 lib (ParseIP lib b) = 0x0A000105 \<longrightarrow>
        Split_slash (b @ ''/x'') = [b, ''x'']
        \<and> IpNetmaskMap (GenerateIpNetmaskMapFromIpResource lib
            (NewPolicyLabel tc queueCount mapSize fastPathDisable)
            [ex_group [a @ ''/24'', b @ ''/x'']]) 0x0A000100 = Some 0xffffff00
        \<and> IpNetmaskMap (GenerateIpNetmaskMapFromIpResource lib
            (NewPolicyLabel tc queueCount mapSize fastPathDisable)
            [ex_group [a @ ''/24'']]) 0x0A000100 = None)"
proof -
  let ?l0 = "NewPolicyLabel tc queueCount mapSize fastPathDisable"
  have ok0: "masks_ok (IpNetmaskMap ?l0)"
    by (rule masks_ok_New)
  have e: "IpNetmaskMap (GenerateIpNetmaskMapFromIpResource lib ?l0 [ex_group []]) = Map.empty"
    by (simp add: FromIpResource_table [OF ok0] ex_label_table ex_group_def)
  have n: "CHR ''/'' \<notin> set x \<and> ParseIP lib x = [] \<longrightarrow>
        Split_slash (x @ ''/24'') = [x, ''24'']
        \<and> IpNetmaskMap (GenerateIpNetmaskMapFromIpResource lib ?l0 [ex_group [x @ ''/24'']])
          (IpToUint32 lib [] AND 0xffff0000) = Some 0xffffff00"
  proof
    assume h: "CHR ''/'' \<notin> set x \<and> ParseIP lib x = []"
    then have x: "CHR ''/'' \<notin> set x" and nil: "ParseIP lib x = []"
      by simp_all
    have "Split_slash (x @ ''/24'') = [x, ''24'']"
      using x by (simp add: Split_slash_entry)
    moreover have "IpNetmaskMap (GenerateIpNetmaskMapFromIpResource lib ?l0
          [ex_group [x @ ''/24'']]) (IpToUint32 lib [] AND 0xffff0000) = Some 0xffffff00"
      using unchecked_nil_table [OF x, of lib]
      by (simp only: FromIpResource_table [OF ok0] ex_label_table nil)
    ultimately show "Split_slash (x @ ''/24'') = [x, ''24'']
        \<and> IpNetmaskMap (GenerateIpNetmaskMapFromIpResource lib ?l0 [ex_group [x @ ''/24'']])
          (IpToUint32 lib [] AND 0xffff0000) = Some 0xffffff00"
      by simp
  qed
  have q: "CHR ''/'' \<notin> set a \<and> CHR ''/'' \<notin> set b
        \<and> IpToUint32 lib (ParseIP lib a) = 0x0A000000
        \<and> IpToUint32 lib (ParseIP lib b) = 0x0A000105 \<longrightarrow>
        Split_slash (b @ ''/x'') = [b, ''x'']
        \<and> IpNetmaskMap (GenerateIpNetmaskMapFromIpResource lib ?l0
            [ex_group [a @ ''/24'', b @ ''/x'']]) 0x0A000100 = Some 0xffffff00
        \<and> IpNetmaskMap (GenerateIpNetmaskMapFromIpResource lib ?l0
            [ex_group [a @ ''/24'']]) 0x0A000100 = None"
  proof
    assume h: "CHR ''/'' \<notin> set a \<and> CHR ''/'' \<notin> set b
        \<and> IpToUint32 lib (ParseIP lib a) = 0x0A000000
        \<and> IpToUint32 lib (ParseIP lib b) = 0x0A000105"
    then have h1: "CHR ''/'' \<notin> set a" and h2: "CHR ''/'' \<notin> set b"
      and h3: "IpToUint32 lib (ParseIP lib a) = 0x0A000000"
      and h4: "IpToUint32 lib (ParseIP lib b) = 0x0A000105"
      by simp_all
    have "Split_slash (b @ ''/x'') = [b, ''x'']"
      using h2 by (simp add: Split_slash_entry)
    with unchecked_length_table [OF h1 h2 h3 h4]
    show "Split_slash (b @ ''/x'') = [b, ''x'']
        \<and> IpNetmaskMap (GenerateIpNetmaskMapFromIpResource lib ?l0
            [ex_group [a @ ''/24'', b @ ''/x'']]) 0x0A000100 = Some 0xffffff00
        \<and> IpNetmaskMap (GenerateIpNetmaskMapFromIpResource lib ?l0
            [ex_group [a @ ''/24'']]) 0x0A000100 = None"
      by (simp only: FromIpResource_table [OF ok0] ex_label_table)
  qed
  from e n q ex_atoi(1,3) show ?thesis by blast
qed

theorem malformed_entries_not_skipped_witness:
  "ParseIP ex_lib ''x'' = []
   \<and> IpNetmaskMap (GenerateIpNetmaskMapFromIpResource ex_lib ex_label [ex_group [''x/24'']]) 0
       = Some 0xffffff00
   \<and> IpNetmaskMap (GenerateIpNetmaskMapFromIpResource ex_lib ex_label [ex_group []]) 0 = None
   \<and> IpToUint32 ex_lib (ParseIP ex_lib ''10.0.0.0'') = 0x0A000000
   \<and> IpToUint32 ex_lib (ParseIP ex_lib ''10.0.1.5'') = 0x0A000105
   \<and> IpNetmaskMap (GenerateIpNetmaskMapFromIpResource ex_lib ex_label
         [ex_group [''10.0.0.0/24'', ''10.0.1.5/x'']]) 0x0A000100 = Some 0xffffff00
   \<and> IpNetmaskMap (GenerateIpNetmaskMapFromIpResource ex_lib ex_label
         [ex_group [''10.0.0.0/24'']]) 0x0A000100 = None"
  using malformed_entries_not_skipped [of ex_lib ex_taps 1 0 False "''x''" "''10.0.0.0''"
      "''10.0.1.5''"]
  by (simp add: ex_label_def ex_ip)

section \<open>The cell of a lookup\<close>

lemma addEpcMap_eq:
  "addEpcMap maps info mac = (maps\<lparr>macEpcMap := lru_Add mac (epc_of info) (macEpcMap maps)\<rparr>, epc_of info)"
  by (simp add: addEpcMap_def epc_of_def Let_def)

lemma fast_cache_set:
  "fast_cache l p = Some c \<Longrightarrow> fast_cache (set_fast_cache l p c') p = Some c'"
  by (auto simp: fast_cache_def set_fast_cache_def split: if_splits)

lemma fast_subnet_key_set [simp]:
  "fast_subnet_key (set_fast_cache l p c) p' d = fast_subnet_key l p' d"
  by (simp add: fast_subnet_key_def set_fast_cache_def)

lemma set_fast_cache_twice:
  "set_fast_cache (set_fast_cache l p c) p c' = set_fast_cache l p c'"
  by (cases "FastIndex p < length (FastPolicyMaps l)")
     (simp_all add: set_fast_cache_def list_update_beyond not_less)

lemma store_maps_set:
  "fast_cache l p = Some c \<Longrightarrow>
   store_maps (set_fast_cache l p c') p d m
     = set_fast_cache l p (lru_store (fast_subnet_key l p d) m c')"
  by (simp add: store_maps_def fast_cache_set set_fast_cache_twice)

lemma getVlanAndPortMap_create:
  assumes "fast_cache l p = Some c"
  shows "getVlanAndPortMap l p d True =
     (case lru_peek (fast_subnet_key l p d) c of
        Some data \<Rightarrow> Some (set_fast_cache l p (snd (lru_Get (fast_subnet_key l p d) c)), Some data)
      | None \<Rightarrow> Some (set_fast_cache l p (lru_Add (fast_subnet_key l p d) new_VlanAndPortMap c),
                       Some new_VlanAndPortMap))"
  using assms
  by (auto simp: getVlanAndPortMap_def Let_def Get_Some Get_None split: option.splits)

lemma addPortFastPolicy_cell:
  assumes "fast_cache l p = Some c"
  shows "addPortFastPolicy l e p pol d =
     Some (set_fast_cache l p (upd_maps (fast_subnet_key l p d) (seed_port e p pol d) c))"
  using assms
  by (cases d; cases "lru_peek (fast_subnet_key l p d) c")
     (simp_all add: addPortFastPolicy_def getVlanAndPortMap_create addEpcMap_eq Let_def
        store_maps_set upd_maps_def seed_port_def seed_macs_def port_key_of_def stored_value_def)


(* ---------- LRU: head and survival ---------- *)

lemma lru_head_Add [simp]: "lru_head (lru_Add k v c) = Some k"
  by (cases "entries c")
     (auto simp: lru_head_def lru_Add_def Let_def split: option.splits list.splits)

lemma lru_head_Get: "lru_peek k c \<noteq> None \<Longrightarrow> lru_head (snd (lru_Get k c)) = Some k"
  by (auto simp: lru_head_def lru_Get_def lru_peek_def split: option.splits)

lemma lru_head_store [simp]: "lru_head (lru_store k v c) = lru_head c"
  by (cases "entries c") (auto simp: lru_head_def lru_store_def)

lemma MaxEntries_ops [simp]:
  "MaxEntries (lru_Add k v c) = MaxEntries c"
  "MaxEntries (snd (lru_Get k c)) = MaxEntries c"
  "MaxEntries (lru_store k v c) = MaxEntries c"
  "MaxEntries (lru_Remove k c) = MaxEntries c"
  "MaxEntries (lru_New n) = n"
  by (auto simp: lru_Add_def lru_Get_def lru_store_def lru_Remove_def lru_New_def Let_def
      split: option.splits)

lemma peek_Add_present:
  "lru_peek k c \<noteq> None \<Longrightarrow>
   lru_peek k' (lru_Add k v c) = (if k' = k then Some v else lru_peek k' c)"
  by (auto simp: lru_peek_def lru_Add_def map_of_lru_without split: option.splits)

lemma map_of_butlast_Some:
  "map_of (butlast es) x = Some y \<Longrightarrow> map_of es x = Some y"
  by (induction es) (auto split: if_splits)

lemma peek_Add_head:
  assumes h: "lru_head c = Some k'" and cap: "MaxEntries c \<noteq> 1" and ne: "k' \<noteq> k"
  shows "lru_peek k' (lru_Add k v c) = lru_peek k' c"
proof (cases "lru_peek k c")
  case (Some a)
  then show ?thesis using ne by (simp add: peek_Add_present)
next
  case None
  from h obtain v' es where es: "entries c = (k', v') # es"
    by (auto simp: lru_head_def split: list.splits)
  show ?thesis
  proof (cases "MaxEntries c \<noteq> 0 \<and> length ((k, v) # entries c) > MaxEntries c")
    case False
    with None ne show ?thesis
      by (auto simp: lru_peek_def lru_Add_def Let_def)
  next
    case True
    with None have "entries (lru_Add k v c) = butlast ((k, v) # entries c)"
      by (simp add: lru_peek_def lru_Add_def Let_def)
    moreover from True cap es have "es \<noteq> []"
      by auto
    ultimately show ?thesis
      using es ne by (simp add: lru_peek_def)
  qed
qed

lemma peek_Add_other_new:
  assumes a: "lru_peek k' (lru_Add k v c) = Some a" and ne: "k' \<noteq> k"
  shows "lru_peek k' c = Some a"
proof (cases "lru_peek k c")
  case (Some z)
  with a ne show ?thesis by (simp add: peek_Add_present)
next
  case None
  show ?thesis
  proof (cases "MaxEntries c \<noteq> 0 \<and> length ((k, v) # entries c) > MaxEntries c")
    case True
    with None a have "map_of (butlast ((k, v) # entries c)) k' = Some a"
      by (simp add: lru_peek_def lru_Add_def Let_def)
    then have "map_of ((k, v) # entries c) k' = Some a"
      by (rule map_of_butlast_Some)
    with ne show ?thesis by (simp add: lru_peek_def)
  next
    case False
    with None a ne show ?thesis
      by (auto simp: lru_peek_def lru_Add_def Let_def)
  qed
qed

(* ---------- upd_maps ---------- *)

lemma upd_peek_same: "lru_peek K (upd_maps K f c) = Some (f (maps_or_new K c))"
  by (auto simp: upd_maps_def maps_or_new_def peek_store peek_Get split: option.splits)

lemma upd_peek_present:
  "K' \<noteq> K \<Longrightarrow> lru_peek K c \<noteq> None \<Longrightarrow> lru_peek K' (upd_maps K f c) = lru_peek K' c"
  by (auto simp: upd_maps_def peek_store peek_Get split: option.splits)

lemma upd_peek_head:
  "K' \<noteq> K \<Longrightarrow> lru_head c = Some K' \<Longrightarrow> MaxEntries c \<noteq> 1 \<Longrightarrow>
   lru_peek K' (upd_maps K f c) = lru_peek K' c"
  by (auto simp: upd_maps_def peek_store peek_Get peek_Add_head split: option.splits)

lemma upd_head [simp]: "lru_head (upd_maps K f c) = Some K"
  by (auto simp: upd_maps_def lru_head_Get split: option.splits)

lemma upd_MaxEntries [simp]: "MaxEntries (upd_maps K f c) = MaxEntries c"
  by (auto simp: upd_maps_def split: option.splits)

lemma upd_peek_other_origin:
  "lru_peek K' (upd_maps K f c) = Some m \<Longrightarrow> K' \<noteq> K \<Longrightarrow> lru_peek K' c = Some m"
  by (auto simp: upd_maps_def peek_store peek_Get split: option.splits dest: peek_Add_other_new)

lemma caps_ok_ne1:
  "caps_ok m \<Longrightarrow> MaxEntries (macEpcMap m) \<noteq> 1 \<and> MaxEntries (vlanPolicyMap m) \<noteq> 1
     \<and> MaxEntries (portPolicyMap m) \<noteq> 1"
  by (simp add: caps_ok_def FAST_PATH_EPC_MAP_SIZE_LIMIT_def FAST_PATH_POLICY_MAP_SIZE_LIMIT_def)

lemma caps_ok_new [simp]: "caps_ok new_VlanAndPortMap"
  by (simp add: caps_ok_def new_VlanAndPortMap_def)

lemma seed_fields [simp]:
  "macEpcMap (seed_macs e p m)
     = lru_Add (DstMac p) (epc_of (DstInfo e)) (lru_Add (SrcMac p) (epc_of (SrcInfo e)) (macEpcMap m))"
  "vlanPolicyMap (seed_macs e p m) = vlanPolicyMap m"
  "portPolicyMap (seed_macs e p m) = portPolicyMap m"
  "macEpcMap (seed_port e p pol d m) = macEpcMap (seed_macs e p m)"
  "vlanPolicyMap (seed_port e p pol d m) = vlanPolicyMap m"
  "portPolicyMap (seed_port e p pol d m)
     = lru_Add (port_key_of e p d)
         (stored_value (if d = BACKWARD then swap_endpoint e else e) p pol) (portPolicyMap m)"
  "macEpcMap (seed_vlan e p pol d m) = macEpcMap (seed_macs e p m)"
  "portPolicyMap (seed_vlan e p pol d m) = portPolicyMap m"
  by (simp_all add: seed_macs_def seed_port_def seed_vlan_def)

lemma seed_vlan_forward [simp]:
  "vlanPolicyMap (seed_vlan e p pol FORWARD m)
     = lru_Add (vlan_key_of e p FORWARD) (stored_value e p pol) (vlanPolicyMap m)"
  by (simp add: seed_vlan_def)

lemma seed_vlan_backward [simp]:
  "vlanPolicyMap (seed_vlan e p pol BACKWARD m)
     = lru_Add (vlan_key_of e p BACKWARD)
         \<lparr>endpoint = swap_endpoint e,
            policy = MergeAndSwapDirection empty_PolicyData (AclActions pol) (ACLID pol),
            timestamp = Timestamp p\<rparr>
         (vlanPolicyMap m)"
  by (simp add: seed_vlan_def)

lemma caps_ok_seed [simp]:
  "caps_ok (seed_macs e p m) = caps_ok m"
  "caps_ok (seed_port e p pol d m) = caps_ok m"
  "caps_ok (seed_vlan e p pol d m) = caps_ok m"
  by (simp_all add: caps_ok_def seed_vlan_def)

lemma macs_seeded:
  assumes "MaxEntries c \<noteq> 1" and "S \<noteq> D \<or> s = d"
  shows "lru_peek S (lru_Add D d (lru_Add S s c)) = Some s"
    and "lru_peek D (lru_Add D d (lru_Add S s c)) = Some d"
  using assms by (cases "S = D"; auto simp: peek_Add_head)+

lemma seeded_forward_vlan:
  assumes "caps_ok m" and "SrcMac p \<noteq> DstMac p \<or> epc_of (SrcInfo e) = epc_of (DstInfo e)"
    and "0 < Vlan p"
  shows "seeded e p FORWARD pol vpol (seed_port e p pol FORWARD (seed_vlan e p vpol FORWARD m))"
  using assms caps_ok_ne1 [OF assms(1)]
  by (simp add: seeded_def macs_seeded)

lemma seeded_port_any:
  assumes "caps_ok m" and "SrcMac p \<noteq> DstMac p \<or> epc_of (SrcInfo e) = epc_of (DstInfo e)"
    and "d = FORWARD \<longrightarrow> \<not> 0 < Vlan p"
  shows "seeded e p d pol vpol (seed_port e p pol d m)"
  using assms caps_ok_ne1 [OF assms(1)]
  by (cases d) (simp_all add: seeded_def macs_seeded)

lemma seeded_same_key_vlan:
  assumes "caps_ok m" and "SrcMac p \<noteq> DstMac p \<or> epc_of (SrcInfo e) = epc_of (DstInfo e)"
    and "port_key_of e p FORWARD \<noteq> port_key_of e p BACKWARD"
    and "vlan_key_of e p FORWARD \<noteq> vlan_key_of e p BACKWARD"
  shows "seeded e p d (if d = BACKWARD then bpol else fpol) vpol
     (seed_port e p bpol BACKWARD (seed_port e p fpol FORWARD
        (seed_vlan e p vpol BACKWARD (seed_vlan e p vpol FORWARD m))))"
  using assms caps_ok_ne1 [OF assms(1)]
  by (cases d) (simp_all add: seeded_def macs_seeded peek_Add_head)

lemma seeded_same_key:
  assumes "caps_ok m" and "SrcMac p \<noteq> DstMac p \<or> epc_of (SrcInfo e) = epc_of (DstInfo e)"
    and "port_key_of e p FORWARD \<noteq> port_key_of e p BACKWARD"
    and "\<not> 0 < Vlan p"
  shows "seeded e p d (if d = BACKWARD then bpol else fpol) vpol
     (seed_port e p bpol BACKWARD (seed_port e p fpol FORWARD m))"
  using assms caps_ok_ne1 [OF assms(1)]
  by (cases d) (simp_all add: seeded_def macs_seeded peek_Add_head)

lemma maps_or_new_upd [simp]: "maps_or_new K (upd_maps K f c) = f (maps_or_new K c)"
  by (simp add: maps_or_new_def [of K "upd_maps K f c"] upd_peek_same)

lemma cell_caps_of_list: "list_all (\<lambda>entry. caps_ok (snd entry)) (entries c) \<Longrightarrow> cell_caps c"
  by (auto simp: cell_caps_def lru_peek_def list_all_iff dest!: map_of_SomeD)

lemma cell_caps_maps_or_new: "cell_caps c \<Longrightarrow> caps_ok (maps_or_new K c)"
  by (auto simp: cell_caps_def maps_or_new_def split: option.splits)

lemma cell_caps_upd:
  assumes "cell_caps c" and "\<And>m. caps_ok m \<Longrightarrow> caps_ok (f m)"
  shows "cell_caps (upd_maps K0 f c)"
  unfolding cell_caps_def
proof (intro allI impI)
  fix K m assume a: "lru_peek K (upd_maps K0 f c) = Some m"
  show "caps_ok m"
  proof (cases "K = K0")
    case True
    with a have "m = f (maps_or_new K0 c)" by (simp add: upd_peek_same)
    with assms cell_caps_maps_or_new show ?thesis by simp
  next
    case False
    from upd_peek_other_origin [OF a False] assms(1) show ?thesis
      by (simp add: cell_caps_def)
  qed
qed

lemma first_cell_seeded:
  assumes ok: "cell_ok l p c" and nc: "no_collision l e p"
  shows "\<exists>mF mB.
      lru_peek (fast_subnet_key l p FORWARD) (first_cell l e p c) = Some mF
      \<and> seeded e p FORWARD (fst (first_forward l p)) (fst (first_vlan l p)) mF
      \<and> lru_peek (fast_subnet_key l p BACKWARD) (first_cell l e p c) = Some mB
      \<and> seeded e p BACKWARD (fst (first_backward l p)) (fst (first_vlan l p)) mB"
proof -
  let ?F = "fast_subnet_key l p FORWARD" and ?B = "fast_subnet_key l p BACKWARD"
  let ?fwd = "fst (first_forward l p)" and ?bwd = "fst (first_backward l p)"
  let ?v = "fst (first_vlan l p)"
  let ?VF = "seed_vlan e p ?v FORWARD" and ?VB = "seed_vlan e p ?v BACKWARD"
  let ?PF = "seed_port e p ?fwd FORWARD" and ?PB = "seed_port e p ?bwd BACKWARD"
  from ok have caps: "cell_caps c"
    by (simp add: cell_ok_def cell_caps_of_list)
  from ok have cap: "MaxEntries c \<noteq> 1 \<or> ?F = ?B"
    by (simp add: cell_ok_def)
  from nc have mac: "SrcMac p \<noteq> DstMac p \<or> epc_of (SrcInfo e) = epc_of (DstInfo e)"
    by (simp add: no_collision_def)
  have m0: "caps_ok (maps_or_new K c)" for K
    using caps by (rule cell_caps_maps_or_new)
  show ?thesis
  proof (cases "?F = ?B")
    case True
    from nc True have pk: "port_key_of e p FORWARD \<noteq> port_key_of e p BACKWARD"
      and vk: "0 < Vlan p \<Longrightarrow> vlan_key_of e p FORWARD \<noteq> vlan_key_of e p BACKWARD"
      by (simp_all add: no_collision_def)
    show ?thesis
    proof (cases "0 < Vlan p")
      case v: True
      have "lru_peek ?F (first_cell l e p c) = Some (?PB (?PF (?VB (?VF (maps_or_new ?F c)))))"
        using True v by (simp add: first_cell_def upd_peek_same)
      moreover note S = seeded_same_key_vlan [OF m0 [of ?F] mac pk vk [OF v],
          where bpol = ?bwd and fpol = ?fwd and vpol = ?v]
      note S [where d = FORWARD] S [where d = BACKWARD]
      ultimately show ?thesis
        using True by simp
    next
      case v: False
      have "lru_peek ?F (first_cell l e p c) = Some (?PB (?PF (maps_or_new ?F c)))"
        using True v by (simp add: first_cell_def upd_peek_same)
      moreover note S = seeded_same_key [OF m0 [of ?F] mac pk v,
          where bpol = ?bwd and fpol = ?fwd and vpol = ?v]
      note S [where d = FORWARD] S [where d = BACKWARD]
      ultimately show ?thesis
        using True by simp
    qed
  next
    case False
    with cap have cap1: "MaxEntries c \<noteq> 1" by simp
    show ?thesis
    proof (cases "0 < Vlan p")
      case v: True
      let ?c1 = "upd_maps ?F ?VF c"
      let ?c2 = "upd_maps ?B ?VB ?c1"
      let ?c3 = "upd_maps ?F ?PF ?c2"
      have fc: "first_cell l e p c = upd_maps ?B ?PB ?c3"
        using v by (simp add: first_cell_def)
      have f2: "lru_peek ?F ?c2 = Some (?VF (maps_or_new ?F c))"
        using False cap1 by (simp add: upd_peek_head upd_peek_same)
      have f3: "lru_peek ?F ?c3 = Some (?PF (?VF (maps_or_new ?F c)))"
        using f2 by (simp add: upd_peek_same maps_or_new_def [of ?F ?c2])
      have b3: "lru_peek ?B ?c3 \<noteq> None"
        using False f2 by (simp add: upd_peek_present upd_peek_same)
      have F: "lru_peek ?F (first_cell l e p c) = Some (?PF (?VF (maps_or_new ?F c)))"
        using False b3 f3 by (simp add: fc upd_peek_present)
      have B: "lru_peek ?B (first_cell l e p c) = Some (?PB (maps_or_new ?B ?c3))"
        by (simp add: fc upd_peek_same)
      have "cell_caps ?c3"
        by (intro cell_caps_upd caps) simp_all
      then have cb: "caps_ok (maps_or_new ?B ?c3)"
        by (rule cell_caps_maps_or_new)
      from F B seeded_forward_vlan [OF m0 [of ?F] mac v, of ?fwd ?v]
        seeded_port_any [OF cb mac, of BACKWARD ?bwd ?v]
      show ?thesis by simp
    next
      case v: False
      let ?c1 = "upd_maps ?F ?PF c"
      have fc: "first_cell l e p c = upd_maps ?B ?PB ?c1"
        using v by (simp add: first_cell_def)
      have F: "lru_peek ?F (first_cell l e p c) = Some (?PF (maps_or_new ?F c))"
        using False cap1 by (simp add: fc upd_peek_head upd_peek_same)
      have B: "lru_peek ?B (first_cell l e p c) = Some (?PB (maps_or_new ?B ?c1))"
        by (simp add: fc upd_peek_same)
      have "cell_caps ?c1"
        by (intro cell_caps_upd caps) simp_all
      then have cb: "caps_ok (maps_or_new ?B ?c1)"
        by (rule cell_caps_maps_or_new)
      from F B seeded_port_any [OF m0 [of ?F] mac, of FORWARD ?fwd ?v]
        seeded_port_any [OF cb mac, of BACKWARD ?bwd ?v] v
      show ?thesis by simp
    qed
  qed
qed

lemma addVlanFastPolicy_cell:
  assumes c: "fast_cache l p = Some c"
  shows "addVlanFastPolicy l e p pol =
     Some (set_fast_cache l p
        (upd_maps (fast_subnet_key l p BACKWARD) (seed_vlan e p pol BACKWARD)
           (upd_maps (fast_subnet_key l p FORWARD) (seed_vlan e p pol FORWARD) c)))"
proof -
  let ?F = "fast_subnet_key l p FORWARD" and ?B = "fast_subnet_key l p BACKWARD"
  let ?c1 = "upd_maps ?F (seed_vlan e p pol FORWARD) c"
  have step1: "(case getVlanAndPortMap l p FORWARD True of
        Some (l1, Some maps) \<Rightarrow> X l1 maps | _ \<Rightarrow> None)
      = X (set_fast_cache l p (case lru_peek ?F c of Some d \<Rightarrow> snd (lru_Get ?F c)
                                | None \<Rightarrow> lru_Add ?F new_VlanAndPortMap c))
          (maps_or_new ?F c)" for X :: "PolicyLabel \<Rightarrow> VlanAndPortMap \<Rightarrow> PolicyLabel option"
    by (simp add: getVlanAndPortMap_create [OF c] maps_or_new_def split: option.splits)
  have c1: "fast_cache (set_fast_cache l p ?c1) p = Some ?c1"
    using c by (rule fast_cache_set)
  have step2: "(case getVlanAndPortMap (set_fast_cache l p ?c1) p BACKWARD True of
        Some (l1, Some maps) \<Rightarrow> X l1 maps | _ \<Rightarrow> None)
      = X (set_fast_cache l p (case lru_peek ?B ?c1 of Some d \<Rightarrow> snd (lru_Get ?B ?c1)
                                | None \<Rightarrow> lru_Add ?B new_VlanAndPortMap ?c1))
          (maps_or_new ?B ?c1)" for X :: "PolicyLabel \<Rightarrow> VlanAndPortMap \<Rightarrow> PolicyLabel option"
    by (simp add: getVlanAndPortMap_create [OF c1] maps_or_new_def set_fast_cache_twice
        split: option.splits)
  have s1: "store_maps (set_fast_cache l p c') p FORWARD m
      = set_fast_cache l p (lru_store ?F m c')" for c' m
    using c by (rule store_maps_set)
  have s2: "store_maps (set_fast_cache l p c') p BACKWARD m
      = set_fast_cache l p (lru_store ?B m c')" for c' m
    using c by (rule store_maps_set)
  have u1: "lru_store ?F (seed_vlan e p pol FORWARD (maps_or_new ?F c))
        (case lru_peek ?F c of Some d \<Rightarrow> snd (lru_Get ?F c)
         | None \<Rightarrow> lru_Add ?F new_VlanAndPortMap c) = ?c1"
    by (simp add: upd_maps_def maps_or_new_def split: option.splits)
  have u2: "lru_store ?B (seed_vlan e p pol BACKWARD (maps_or_new ?B ?c1))
        (case lru_peek ?B ?c1 of Some d \<Rightarrow> snd (lru_Get ?B ?c1)
         | None \<Rightarrow> lru_Add ?B new_VlanAndPortMap ?c1)
      = upd_maps ?B (seed_vlan e p pol BACKWARD) ?c1"
    by (simp add: upd_maps_def [of ?B] maps_or_new_def [of ?B] split: option.splits)
  have sv1: "(maps_or_new ?F c)\<lparr>macEpcMap := lru_Add (DstMac p) (epc_of (DstInfo e))
           (lru_Add (SrcMac p) (epc_of (SrcInfo e)) (macEpcMap (maps_or_new ?F c))),
        vlanPolicyMap := lru_Add (fast_vlan_key (Vlan p) (ucast (epc_of (SrcInfo e)))
              (ucast (epc_of (DstInfo e))))
           \<lparr>endpoint = e, policy = Merge empty_PolicyData (AclActions pol) (ACLID pol) None,
              timestamp = Timestamp p\<rparr> (vlanPolicyMap (maps_or_new ?F c))\<rparr>
      = seed_vlan e p pol FORWARD (maps_or_new ?F c)"
    by (simp add: seed_vlan_def seed_macs_def vlan_key_of_def stored_value_def)
  have sv2: "m\<lparr>macEpcMap := lru_Add (DstMac p) (epc_of (DstInfo e))
           (lru_Add (SrcMac p) (epc_of (SrcInfo e)) (macEpcMap m)),
        vlanPolicyMap := lru_Add (fast_vlan_key (Vlan p) (ucast (epc_of (DstInfo e)))
              (ucast (epc_of (SrcInfo e))))
           \<lparr>endpoint = swap_endpoint e,
              policy = MergeAndSwapDirection empty_PolicyData (AclActions pol) (ACLID pol),
              timestamp = Timestamp p\<rparr> (vlanPolicyMap m)\<rparr>
      = seed_vlan e p pol BACKWARD m" for m
    by (simp add: seed_vlan_def seed_macs_def vlan_key_of_def)
  show ?thesis
    unfolding addVlanFastPolicy_def step1
    by (simp add: addEpcMap_eq Let_def s1 sv1 u1 step2 s2 sv2 u2 del: seed_fields)
qed

section \<open>The first path and the fast path on one cell\<close>

lemma set_fast_cache_fields [simp]:
  "FirstPathHit (set_fast_cache l p c) = FirstPathHit l"
  "FirstPathHitTick (set_fast_cache l p c) = FirstPathHitTick l"
  "FastPathHit (set_fast_cache l p c) = FastPathHit l"
  "FastPathHitTick (set_fast_cache l p c) = FastPathHitTick l"
  "AclHitMax (set_fast_cache l p c) = AclHitMax l"
  "FastPathDisable (set_fast_cache l p c) = FastPathDisable l"
  "InterestPortMaps (set_fast_cache l p c) = InterestPortMaps l"
  "InterestProtoMaps (set_fast_cache l p c) = InterestProtoMaps l"
  "InterestGroupMaps (set_fast_cache l p c) = InterestGroupMaps l"
  "GroupPortPolicyMaps (set_fast_cache l p c) = GroupPortPolicyMaps l"
  "GroupVlanPolicyMaps (set_fast_cache l p c) = GroupVlanPolicyMaps l"
  "IpNetmaskMap (set_fast_cache l p c) = IpNetmaskMap l"
  by (simp_all add: set_fast_cache_def)

lemma GetPolicyByFirstPath_cell:
  assumes g: "generateInterestKeys l e p0 = Some p"
    and t: "Tap p < length (GroupPortPolicyMaps l)" "Tap p < length (GroupVlanPolicyMaps l)"
    and c: "fast_cache l p = Some c"
  shows "GetPolicyByFirstPath l e p0 =
     Some ((set_fast_cache l p (first_cell l e p c))
             \<lparr>FirstPathHit := FirstPathHit l + 1, FirstPathHitTick := FirstPathHitTick l + 1\<rparr>,
           p, first_result l p)"
proof -
  note pc = addPortFastPolicy_cell [OF fast_cache_set [OF c]]
  show ?thesis
  proof (cases "0 < Vlan p")
    case True
    then show ?thesis
      by (simp add: GetPolicyByFirstPath_def g t Let_def split_def addVlanFastPolicy_cell [OF c]
          pc set_fast_cache_twice first_cell_def first_result_def first_merged_def
          first_vlan_def first_forward_def first_backward_def)
  next
    case False
    then show ?thesis
      by (simp add: GetPolicyByFirstPath_def g t Let_def split_def addPortFastPolicy_cell [OF c]
          pc set_fast_cache_twice first_cell_def first_result_def first_merged_def
          first_vlan_def first_forward_def first_backward_def)
  qed
qed

lemma fast_direction_cell:
  assumes c: "fast_cache l p = Some c"
  shows "fast_direction p d (l, pol0, ep0, pf, pb, vf) =
     (case lru_peek (fast_subnet_key l p d) c of
        None \<Rightarrow> Some (l, pol0, ep0, pf, pb, vf)
      | Some m \<Rightarrow>
          (case probe_maps p d (pol0, ep0, vf) m of
             (m2, pol2, ep2, vf1) \<Rightarrow>
               Some (set_fast_cache l p
                       (lru_store (fast_subnet_key l p d) m2
                          (snd (lru_Get (fast_subnet_key l p d) c))),
                     pol2, ep2,
                     (if ep2 \<noteq> None \<and> d = FORWARD then True else pf),
                     (if ep2 \<noteq> None \<and> d \<noteq> FORWARD then True else pb),
                     vf1)))"
proof (cases "lru_peek (fast_subnet_key l p d) c")
  case None
  then show ?thesis
    by (simp add: fast_direction_def getVlanAndPortMap_def c Let_def Get_None)
next
  case (Some m)
  then show ?thesis
    by (cases "0 < Vlan p \<and> d = FORWARD")
       (auto simp: fast_direction_def getVlanAndPortMap_def c Let_def Get_Some probe_maps_def
        split_def store_maps_set [OF c])
qed

lemma not_stale_same [simp]: "\<not> stale t t"
  by (simp add: stale_def word_sless_alt)

lemma peek_store_Get_same:
  "lru_peek key c = Some val \<Longrightarrow> lru_peek k (lru_store key val (snd (lru_Get key c))) = lru_peek k c"
  by (simp add: peek_store peek_Get)

lemma maps_similar_refl [simp]: "maps_similar m m"
  by (simp add: maps_similar_def)

lemma maps_similar_trans: "maps_similar a b \<Longrightarrow> maps_similar b c \<Longrightarrow> maps_similar a c"
  by (simp add: maps_similar_def)

lemma seeded_similar: "maps_similar m' m \<Longrightarrow> seeded e p d pol vpol m \<Longrightarrow> seeded e p d pol vpol m'"
  by (simp add: maps_similar_def seeded_def)

lemma getFastPortPolicy_hit:
  assumes s: "lru_peek (SrcMac p) (macEpcMap m) = Some (epc_of (SrcInfo e))"
    and d: "lru_peek (DstMac p) (macEpcMap m) = Some (epc_of (DstInfo e))"
    and v: "lru_peek (port_key_of e p dir) (portPolicyMap m) = Some val"
    and t: "timestamp val = Timestamp p"
  shows "\<exists>m'. getFastPortPolicy m p dir pol0 =
      (m', Merge pol0 (AclActions (policy val)) (ACLID (policy val)) (Some dir),
       Some (if dir = BACKWARD then swap_endpoint (endpoint val) else endpoint val))
     \<and> maps_similar m' m"
proof -
  have v': "lru_peek (fast_port_key
        (if dir = BACKWARD then ucast (epc_of (DstInfo e)) else ucast (epc_of (SrcInfo e)))
        (if dir = BACKWARD then ucast (epc_of (SrcInfo e)) else ucast (epc_of (DstInfo e)))
        (Proto p) (if dir = BACKWARD then SrcPort p else DstPort p)) (portPolicyMap m) = Some val"
    using v by (simp add: port_key_of_def split: if_splits)
  have u: "val\<lparr>timestamp := Timestamp p\<rparr> = val"
    using t by simp
  show ?thesis
    using v'
    by (simp add: getFastPortPolicy_found [OF s d v'] Let_def t [symmetric] maps_similar_def
        peek_Get peek_store_Get_same)
qed

lemma getFastVlanPolicy_hit:
  assumes s: "lru_peek (SrcMac p) (macEpcMap m) = Some (epc_of (SrcInfo e))"
    and d: "lru_peek (DstMac p) (macEpcMap m) = Some (epc_of (DstInfo e))"
    and v: "lru_peek (vlan_key_of e p FORWARD) (vlanPolicyMap m) = Some val"
    and t: "timestamp val = Timestamp p"
  shows "\<exists>m'. getFastVlanPolicy m p FORWARD pol0 =
      (m', Merge pol0 (AclActions (policy val)) (ACLID (policy val)) None,
       Some (endpoint val))
     \<and> maps_similar m' m"
proof -
  have v': "lru_peek (fast_vlan_key (Vlan p)
        (if FORWARD = BACKWARD then ucast (epc_of (DstInfo e)) else ucast (epc_of (SrcInfo e)))
        (if FORWARD = BACKWARD then ucast (epc_of (SrcInfo e)) else ucast (epc_of (DstInfo e))))
        (vlanPolicyMap m) = Some val"
    using v by (simp add: vlan_key_of_def)
  show ?thesis
    using v'
    by (simp add: getFastVlanPolicy_found [OF s d v'] Let_def t [symmetric] maps_similar_def
        peek_Get peek_store_Get_same)
qed

lemma swap_endpoint_twice [simp]: "swap_endpoint (swap_endpoint e) = e"
  by (simp add: swap_endpoint_def)

lemma stored_value_fields [simp]:
  "timestamp (stored_value e p pol) = Timestamp p"
  "endpoint (stored_value e p pol) = e"
  "AclActions (policy (stored_value e p pol)) = action_union [] (AclActions pol)"
  by (simp_all add: stored_value_def Merge_def empty_PolicyData_def)

lemma probe_seeded:
  assumes sd: "seeded e p d pol vpol m"
  shows "\<exists>m2. probe_maps p d (pol0, ep0, vf) m =
      (m2, probe_policy p d pol vpol pol0 e, Some e,
       (if 0 < Vlan p \<and> d = FORWARD then True else vf))
     \<and> maps_similar m2 m"
proof (cases "0 < Vlan p \<and> d = FORWARD")
  case True
  from sd True have s: "lru_peek (SrcMac p) (macEpcMap m) = Some (epc_of (SrcInfo e))"
    and dm: "lru_peek (DstMac p) (macEpcMap m) = Some (epc_of (DstInfo e))"
    and pv: "lru_peek (port_key_of e p FORWARD) (portPolicyMap m) = Some (stored_value e p pol)"
    and vv: "lru_peek (vlan_key_of e p FORWARD) (vlanPolicyMap m) = Some (stored_value e p vpol)"
    by (simp_all add: seeded_def)
  from getFastVlanPolicy_hit [OF s dm vv, of pol0]
  obtain m1 where m1: "getFastVlanPolicy m p FORWARD pol0 =
      (m1, Merge pol0 (AclActions (policy (stored_value e p vpol)))
             (ACLID (policy (stored_value e p vpol))) None, Some e)"
    and sim1: "maps_similar m1 m"
    by auto
  from sim1 s dm pv have s1: "lru_peek (SrcMac p) (macEpcMap m1) = Some (epc_of (SrcInfo e))"
    and d1: "lru_peek (DstMac p) (macEpcMap m1) = Some (epc_of (DstInfo e))"
    and p1: "lru_peek (port_key_of e p FORWARD) (portPolicyMap m1) = Some (stored_value e p pol)"
    by (simp_all add: maps_similar_def)
  from getFastPortPolicy_hit [OF s1 d1 p1, of "Merge pol0 (AclActions (policy (stored_value e p vpol)))
             (ACLID (policy (stored_value e p vpol))) None"]
  obtain m2 where m2: "getFastPortPolicy m1 p FORWARD
      (Merge pol0 (AclActions (policy (stored_value e p vpol)))
             (ACLID (policy (stored_value e p vpol))) None) =
      (m2, probe_policy p FORWARD pol vpol pol0 e, Some e)"
    and sim2: "maps_similar m2 m1"
    using True by (auto simp: probe_policy_def)
  from True m1 m2 have "probe_maps p d (pol0, ep0, vf) m =
      (m2, probe_policy p d pol vpol pol0 e, Some e, True)"
    by (simp add: probe_maps_def)
  with True maps_similar_trans [OF sim2 sim1] show ?thesis by auto
next
  case False
  from sd have s: "lru_peek (SrcMac p) (macEpcMap m) = Some (epc_of (SrcInfo e))"
    and dm: "lru_peek (DstMac p) (macEpcMap m) = Some (epc_of (DstInfo e))"
    and pv: "lru_peek (port_key_of e p d) (portPolicyMap m)
        = Some (stored_value (if d = BACKWARD then swap_endpoint e else e) p pol)"
    by (simp_all add: seeded_def)
  from getFastPortPolicy_hit [OF s dm pv, of pol0]
  obtain m2 where m2: "getFastPortPolicy m p d pol0 =
      (m2, probe_policy p d pol vpol pol0 e, Some e)"
    and sim2: "maps_similar m2 m"
    using False by (auto simp: probe_policy_def)
  from False m2 have "probe_maps p d (pol0, ep0, vf) m =
      (m2, probe_policy p d pol vpol pol0 e, Some e, vf)"
    by (auto simp: probe_maps_def)
  with False sim2 show ?thesis by auto
qed

lemma getFastInterestKeys_counters [simp]:
  "getFastInterestKeys (set_fast_cache l p c) q = getFastInterestKeys l q"
  "getFastInterestKeys (l\<lparr>FirstPathHit := a, FirstPathHitTick := b\<rparr>) q = getFastInterestKeys l q"
  by (simp_all add: getFastInterestKeys_def)

lemma counters_set_fast_cache:
  "(set_fast_cache l p c)\<lparr>FirstPathHit := a, FirstPathHitTick := b\<rparr>
     = set_fast_cache (l\<lparr>FirstPathHit := a, FirstPathHitTick := b\<rparr>) p c"
  by (simp add: set_fast_cache_def)

lemma counters_fast [simp]:
  "fast_cache (l\<lparr>FirstPathHit := a, FirstPathHitTick := b\<rparr>) p = fast_cache l p"
  "fast_subnet_key (l\<lparr>FirstPathHit := a, FirstPathHitTick := b\<rparr>) p d = fast_subnet_key l p d"
  by (simp_all add: fast_cache_def fast_subnet_key_def)

lemma fast_path_on_seeded_cell:
  assumes c: "fast_cache l p = Some c"
    and en: "\<not> FastPathDisable l"
    and n: "getFastInterestKeys l p = Some p"
    and F: "lru_peek (fast_subnet_key l p FORWARD) c = Some mF"
    and sF: "seeded e p FORWARD fpol vpol mF"
    and B: "lru_peek (fast_subnet_key l p BACKWARD) c = Some mB"
    and sB: "seeded e p BACKWARD bpol vpol mB"
  shows "\<exists>l2. GetPolicyByFastPath l p =
      Some (l2, p, Some e,
            Policy (probe_policy p BACKWARD bpol vpol
                      (probe_policy p FORWARD fpol vpol empty_PolicyData e) e))"
proof -
  let ?F = "fast_subnet_key l p FORWARD" and ?B = "fast_subnet_key l p BACKWARD"
  let ?pol1 = "probe_policy p FORWARD fpol vpol empty_PolicyData e"
  from probe_seeded [OF sF, of empty_PolicyData None True]
  obtain m2 where pr1: "probe_maps p FORWARD (empty_PolicyData, None, True) mF =
      (m2, ?pol1, Some e, True)" and sim: "maps_similar m2 mF"
    by auto
  let ?c1 = "lru_store ?F m2 (snd (lru_Get ?F c))"
  have r1: "fast_direction p FORWARD (l, empty_PolicyData, None, False, False, True) =
      Some (set_fast_cache l p ?c1, ?pol1, Some e, True, False, True)"
    by (simp add: fast_direction_cell [OF c] F pr1)
  have c1: "fast_cache (set_fast_cache l p ?c1) p = Some ?c1"
    using c by (rule fast_cache_set)
  have "\<exists>mB'. lru_peek ?B ?c1 = Some mB' \<and> seeded e p BACKWARD bpol vpol mB'"
  proof (cases "?B = ?F")
    case True
    with F B have "mB = mF" by simp
    with sB sim have "seeded e p BACKWARD bpol vpol m2"
      by (auto intro: seeded_similar)
    moreover have "lru_peek ?B ?c1 = Some m2"
      using True F by (simp add: peek_store peek_Get)
    ultimately show ?thesis by blast
  next
    case False
    then have "lru_peek ?B ?c1 = Some mB"
      using B by (simp add: peek_store peek_Get)
    with sB show ?thesis by blast
  qed
  then obtain mB' where B': "lru_peek ?B ?c1 = Some mB'"
    and sB': "seeded e p BACKWARD bpol vpol mB'"
    by blast
  from probe_seeded [OF sB', of ?pol1 "Some e" True]
  obtain m3 where pr2: "probe_maps p BACKWARD (?pol1, Some e, True) mB' =
      (m3, probe_policy p BACKWARD bpol vpol ?pol1 e, Some e, True)"
    by auto
  have r2: "\<exists>l2. fast_direction p BACKWARD
        (set_fast_cache l p ?c1, ?pol1, Some e, True, False, True) =
      Some (l2, probe_policy p BACKWARD bpol vpol ?pol1 e, Some e, True, True, True)"
    by (simp add: fast_direction_cell [OF c1] B' pr2)
  then obtain l2 where r2': "fast_direction p BACKWARD
        (set_fast_cache l p ?c1, ?pol1, Some e, True, False, True) =
      Some (l2, probe_policy p BACKWARD bpol vpol ?pol1 e, Some e, True, True, True)"
    by blast
  show ?thesis
    by (simp add: GetPolicyByFastPath_def en n r1 r2' Let_def)
qed

lemma upd_self:
  "SrcPort p = v \<Longrightarrow> p\<lparr>SrcPort := v\<rparr> = p"
  "DstPort p = w \<Longrightarrow> p\<lparr>DstPort := w\<rparr> = p"
  "LookupKey.Proto p = x \<Longrightarrow> p\<lparr>LookupKey.Proto := x\<rparr> = p"
  by (cases p; simp)+

lemma getFastInterestKeys_shape:
  assumes "getFastInterestKeys l q = Some p"
  shows "p = q\<lparr>SrcPort := (if (InterestPortMaps l ! Tap q) (SrcPort q) then SrcPort q else 0),
               DstPort := (if (InterestPortMaps l ! Tap q) (DstPort q) then DstPort q else 0),
               LookupKey.Proto := (if (InterestProtoMaps l ! Tap q) (LookupKey.Proto q)
                                   then LookupKey.Proto q else 0)\<rparr>"
proof -
  from assms have r: "Tap q < length (InterestPortMaps l)" "Tap q < length (InterestProtoMaps l)"
    by (simp_all add: getFastInterestKeys_def split: if_splits)
  from r assms [symmetric] show ?thesis
    by (cases "(InterestPortMaps l ! Tap q) (SrcPort q)";
        cases "(InterestPortMaps l ! Tap q) (DstPort q)";
        cases "(InterestProtoMaps l ! Tap q) (LookupKey.Proto q)";
        simp add: getFastInterestKeys_def ANY_PORT_def ANY_PROTO_def upd_self)
qed

lemma getFastInterestKeys_idem:
  assumes "getFastInterestKeys l q = Some p"
  shows "getFastInterestKeys l p = Some p"
proof -
  from assms have r: "Tap q < length (InterestPortMaps l)" "Tap q < length (InterestProtoMaps l)"
    by (simp_all add: getFastInterestKeys_def split: if_splits)
  let ?ports = "InterestPortMaps l ! Tap q" and ?protos = "InterestProtoMaps l ! Tap q"
  note p = getFastInterestKeys_shape [OF assms]
  have t: "Tap p = Tap q" by (subst p) simp
  have "SrcPort p = (if ?ports (SrcPort q) then SrcPort q else 0)" by (subst p) simp
  then have s: "\<not> ?ports (SrcPort p) \<Longrightarrow> SrcPort p = 0"
    by (cases "?ports (SrcPort q)") simp_all
  have "DstPort p = (if ?ports (DstPort q) then DstPort q else 0)" by (subst p) simp
  then have d: "\<not> ?ports (DstPort p) \<Longrightarrow> DstPort p = 0"
    by (cases "?ports (DstPort q)") simp_all
  have "LookupKey.Proto p = (if ?protos (LookupKey.Proto q) then LookupKey.Proto q else 0)"
    by (subst p) simp
  then have o: "\<not> ?protos (LookupKey.Proto p) \<Longrightarrow> LookupKey.Proto p = 0"
    by (cases "?protos (LookupKey.Proto q)") simp_all
  have e1: "(if \<not> ?ports (SrcPort p) then p\<lparr>SrcPort := 0\<rparr> else p) = p"
    using s by (simp add: upd_self)
  have e2: "(if \<not> ?ports (DstPort p) then p\<lparr>DstPort := 0\<rparr> else p) = p"
    using d by (simp add: upd_self)
  have e3: "(if \<not> ?protos (LookupKey.Proto p) then p\<lparr>LookupKey.Proto := 0\<rparr> else p) = p"
    using o by (simp add: upd_self)
  show ?thesis
    using r s d o t
    by (cases p) (auto simp: getFastInterestKeys_def Let_def ANY_PORT_def ANY_PROTO_def)
qed

lemma generateInterestKeys_normal:
  assumes "generateInterestKeys l e p0 = Some p"
  shows "getFastInterestKeys l p = Some p"
proof -
  from assms obtain q where "getFastInterestKeys l q = Some p"
    by (auto simp: generateInterestKeys_def Let_def split_def split: if_splits)
  then show ?thesis by (rule getFastInterestKeys_idem)
qed

lemma action_union_distinct: "distinct acc \<Longrightarrow> distinct (action_union acc xs)"
  by (induction xs arbitrary: acc) simp_all

lemma action_union_fresh:
  "distinct xs \<Longrightarrow> set xs \<inter> set acc = {} \<Longrightarrow> action_union acc xs = acc @ xs"
  by (induction xs arbitrary: acc) auto

lemma action_union_copy: "distinct xs \<Longrightarrow> action_union [] xs = xs"
  using action_union_fresh [of xs "[]"] by simp

lemma lookup_loop_distinct:
  "distinct (AclActions acc) \<Longrightarrow> distinct (AclActions (fst (lookup_loop t d ks (acc, f))))"
  by (induction ks arbitrary: acc f) (auto simp: Merge_def action_union_distinct split: option.splits)


lemma first_distinct:
  "distinct (AclActions (fst (first_vlan l p)))"
  "distinct (AclActions (fst (first_forward l p)))"
  "distinct (AclActions (fst (first_backward l p)))"
  by (simp_all add: first_vlan_def first_forward_def first_backward_def lookup_loop_distinct
      empty_PolicyData_def)

lemma first_vlan_none: "\<not> 0 < Vlan p \<Longrightarrow> AclActions (fst (first_vlan l p)) = []"
  by (simp add: first_vlan_def empty_PolicyData_def)

lemma Merge_nothing: "AclActions (Merge d [] i dir) = AclActions d"
  by (cases dir) (simp_all add: Merge_def)

lemma tiers_same_actions:
  "AclActions (probe_policy p BACKWARD (fst (first_backward l p)) (fst (first_vlan l p))
      (probe_policy p FORWARD (fst (first_forward l p)) (fst (first_vlan l p))
         empty_PolicyData e) e)
   = AclActions (first_merged l p)"
proof -
  let ?v = "AclActions (fst (first_vlan l p))"
  let ?f = "AclActions (fst (first_forward l p))"
  let ?b = "AclActions (fst (first_backward l p))"
  have fast: "AclActions (probe_policy p BACKWARD (fst (first_backward l p)) (fst (first_vlan l p))
      (probe_policy p FORWARD (fst (first_forward l p)) (fst (first_vlan l p))
         empty_PolicyData e) e)
    = action_union (action_union ?v (map (SetDirections FORWARD) ?f))
        (map (SetDirections BACKWARD) ?b)"
    by (cases "0 < Vlan p")
       (simp_all add: probe_policy_def stored_value_def Merge_def action_union_copy
          first_distinct first_vlan_none empty_PolicyData_def)
  have slow: "AclActions (first_merged l p)
    = action_union (action_union ?v (map (SetDirections FORWARD) ?f))
        (map (SetDirections BACKWARD) ?b)"
    by (cases "?f"; cases "?b") (simp_all add: first_merged_def Let_def Merge_def)
  from fast slow show ?thesis by simp
qed

lemma GetPolicyByFirstPath_key:
  assumes "GetPolicyByFirstPath l e p0 = Some (l1, p, r)"
  shows "generateInterestKeys l e p0 = Some p
     \<and> Tap p < length (GroupPortPolicyMaps l) \<and> Tap p < length (GroupVlanPolicyMaps l)"
proof (cases "generateInterestKeys l e p0")
  case None
  with assms show ?thesis by (simp add: GetPolicyByFirstPath_def)
next
  case (Some q)
  have t: "Tap q < length (GroupPortPolicyMaps l) \<and> Tap q < length (GroupVlanPolicyMaps l)"
    using assms Some by (simp add: GetPolicyByFirstPath_def split: if_splits)
  have "q = p"
    using assms Some t
    by (simp add: GetPolicyByFirstPath_def Let_def split_def split: option.splits if_splits)
  with Some t show ?thesis by simp
qed

lemma GetPolicyByFirstPath_result:
  assumes "GetPolicyByFirstPath l e p0 = Some (l1, p, r)"
  shows "r = first_result l p"
proof -
  from GetPolicyByFirstPath_key [OF assms]
  have g: "generateInterestKeys l e p0 = Some p"
    and t: "Tap p < length (GroupPortPolicyMaps l)" "Tap p < length (GroupVlanPolicyMaps l)"
    by simp_all
  from assms show ?thesis
    by (cases "0 < Vlan p")
       (auto simp: GetPolicyByFirstPath_def g t Let_def split_def first_result_def
          first_merged_def first_vlan_def first_forward_def first_backward_def
          split: option.splits)
qed


lemma fast_after_first:
  assumes fp: "GetPolicyByFirstPath l e p0 = Some (l1, p, r)"
    and en: "\<not> FastPathDisable l"
    and c: "fast_cache l p = Some c"
    and ok: "cell_ok l p c"
    and nc: "no_collision l e p"
  shows "\<exists>l2 Q. GetPolicyByFastPath l1 p = Some (l2, p, Some e, Policy Q)
     \<and> AclActions Q = AclActions (first_merged l p)"
proof -
  from GetPolicyByFirstPath_key [OF fp]
  have g: "generateInterestKeys l e p0 = Some p"
    and t: "Tap p < length (GroupPortPolicyMaps l)" "Tap p < length (GroupVlanPolicyMaps l)"
    by simp_all
  let ?c1 = "first_cell l e p c"
  let ?l0 = "l\<lparr>FirstPathHit := FirstPathHit l + 1, FirstPathHitTick := FirstPathHitTick l + 1\<rparr>"
  from fp GetPolicyByFirstPath_cell [OF g t c]
  have l1: "l1 = set_fast_cache ?l0 p ?c1"
    by (simp add: counters_set_fast_cache)
  have c0: "fast_cache ?l0 p = Some c"
    using c by simp
  have c1: "fast_cache l1 p = Some ?c1"
    unfolding l1 using c0 by (rule fast_cache_set)
  have en1: "\<not> FastPathDisable l1"
    using en by (simp add: l1)
  have n1: "getFastInterestKeys l1 p = Some p"
    using generateInterestKeys_normal [OF g] by (simp add: l1)
  have k1: "fast_subnet_key l1 p d = fast_subnet_key l p d" for d
    by (simp add: l1)
  from first_cell_seeded [OF ok nc] obtain mF mB where
    F: "lru_peek (fast_subnet_key l p FORWARD) ?c1 = Some mF"
    and sF: "seeded e p FORWARD (fst (first_forward l p)) (fst (first_vlan l p)) mF"
    and B: "lru_peek (fast_subnet_key l p BACKWARD) ?c1 = Some mB"
    and sB: "seeded e p BACKWARD (fst (first_backward l p)) (fst (first_vlan l p)) mB"
    by blast
  from fast_path_on_seeded_cell [OF c1 en1 n1 _ sF _ sB] F B k1
  obtain l2 where "GetPolicyByFastPath l1 p =
      Some (l2, p, Some e,
            Policy (probe_policy p BACKWARD (fst (first_backward l p)) (fst (first_vlan l p))
                      (probe_policy p FORWARD (fst (first_forward l p)) (fst (first_vlan l p))
                         empty_PolicyData e) e))"
    by auto
  then show ?thesis
    using tiers_same_actions [of p l e] by blast
qed


section \<open>The fast path after the first path\<close>







lemma fast_after_first_same_keys:
  assumes fp: "GetPolicyByFirstPath l e p0 = Some (l1, p, r)"
    and en: "\<not> FastPathDisable l"
    and c: "fast_cache l p = Some c"
    and caps: "list_all (\<lambda>entry. caps_ok (snd entry)) (entries c)"
    and same: "fast_subnet_key l p FORWARD = fast_subnet_key l p BACKWARD"
    and pk: "port_key_of e p FORWARD = port_key_of e p BACKWARD"
    and nv: "\<not> 0 < Vlan p"
    and mac: "SrcMac p \<noteq> DstMac p \<or> epc_of (SrcInfo e) = epc_of (DstInfo e)"
  shows "\<exists>l2 Q. GetPolicyByFastPath l1 p = Some (l2, p, Some e, Policy Q)
     \<and> AclActions Q =
         action_union
           (action_union []
              (map (SetDirections FORWARD)
                 (action_union [] (AclActions (fst (first_backward l p))))))
           (map (SetDirections BACKWARD)
              (action_union [] (AclActions (fst (first_backward l p)))))"
proof -
  from GetPolicyByFirstPath_key [OF fp]
  have g: "generateInterestKeys l e p0 = Some p"
    and t: "Tap p < length (GroupPortPolicyMaps l)" "Tap p < length (GroupVlanPolicyMaps l)"
    by simp_all
  let ?K = "fast_subnet_key l p BACKWARD"
  let ?k = "port_key_of e p BACKWARD"
  let ?fwd = "fst (first_forward l p)" and ?bwd = "fst (first_backward l p)"
  let ?PF = "seed_port e p ?fwd FORWARD" and ?PB = "seed_port e p ?bwd BACKWARD"
  let ?val = "stored_value (swap_endpoint e) p ?bwd"
  let ?c1 = "first_cell l e p c"
  let ?l0 = "l\<lparr>FirstPathHit := FirstPathHit l + 1, FirstPathHitTick := FirstPathHitTick l + 1\<rparr>"
  from fp GetPolicyByFirstPath_cell [OF g t c]
  have l1: "l1 = set_fast_cache ?l0 p ?c1"
    by (simp add: counters_set_fast_cache)
  have c0: "fast_cache ?l0 p = Some c"
    using c by simp
  have c1: "fast_cache l1 p = Some ?c1"
    unfolding l1 using c0 by (rule fast_cache_set)
  have en1: "\<not> FastPathDisable l1"
    using en by (simp add: l1)
  have n1: "getFastInterestKeys l1 p = Some p"
    using generateInterestKeys_normal [OF g] by (simp add: l1)
  have k1: "fast_subnet_key l1 p d = ?K" for d
    using same by (cases d) (simp_all add: l1)
  let ?base = "maps_or_new ?K c"
  let ?m = "?PB (?PF ?base)"
  have m0: "caps_ok ?base"
    using caps by (intro cell_caps_maps_or_new cell_caps_of_list)
  have cell: "lru_peek ?K ?c1 = Some ?m"
    using same nv by (simp add: first_cell_def upd_peek_same)
  have ne1: "MaxEntries (macEpcMap ?base) \<noteq> 1" "MaxEntries (portPolicyMap ?base) \<noteq> 1"
    using caps_ok_ne1 [OF m0] by simp_all
  have s: "lru_peek (SrcMac p) (macEpcMap ?m) = Some (epc_of (SrcInfo e))"
    and d: "lru_peek (DstMac p) (macEpcMap ?m) = Some (epc_of (DstInfo e))"
    using mac ne1 by (simp_all add: macs_seeded)
  have v: "lru_peek ?k (portPolicyMap ?m) = Some ?val"
    by simp
  have vF: "lru_peek (port_key_of e p FORWARD) (portPolicyMap ?m) = Some ?val"
    using v pk by simp
  from getFastPortPolicy_hit [OF s d vF, of empty_PolicyData]
  obtain m2 where h1: "getFastPortPolicy ?m p FORWARD empty_PolicyData =
      (m2, Merge empty_PolicyData (AclActions (policy ?val)) (ACLID (policy ?val)) (Some FORWARD),
       Some (swap_endpoint e))"
    and sim: "maps_similar m2 ?m"
    by auto
  let ?pol1 = "Merge empty_PolicyData (AclActions (policy ?val)) (ACLID (policy ?val)) (Some FORWARD)"
  have pr1: "probe_maps p FORWARD (empty_PolicyData, None, True) ?m =
      (m2, ?pol1, Some (swap_endpoint e), True)"
    using nv h1 by (simp add: probe_maps_def)
  let ?c2 = "lru_store ?K m2 (snd (lru_Get ?K ?c1))"
  have r1: "fast_direction p FORWARD (l1, empty_PolicyData, None, False, False, True) =
      Some (set_fast_cache l1 p ?c2, ?pol1, Some (swap_endpoint e), True, False, True)"
    using pr1 by (simp add: fast_direction_cell [OF c1] k1 cell)
  have c2: "fast_cache (set_fast_cache l1 p ?c2) p = Some ?c2"
    using c1 by (rule fast_cache_set)
  have cell2: "lru_peek ?K ?c2 = Some m2"
    using cell by (simp add: peek_store peek_Get)
  from sim s d v have s2: "lru_peek (SrcMac p) (macEpcMap m2) = Some (epc_of (SrcInfo e))"
    and d2: "lru_peek (DstMac p) (macEpcMap m2) = Some (epc_of (DstInfo e))"
    and v2: "lru_peek ?k (portPolicyMap m2) = Some ?val"
    by (simp_all add: maps_similar_def)
  from getFastPortPolicy_hit [OF s2 d2 v2, of ?pol1]
  obtain m3 where h2: "getFastPortPolicy m2 p BACKWARD ?pol1 =
      (m3, Merge ?pol1 (AclActions (policy ?val)) (ACLID (policy ?val)) (Some BACKWARD), Some e)"
    by auto
  let ?pol2 = "Merge ?pol1 (AclActions (policy ?val)) (ACLID (policy ?val)) (Some BACKWARD)"
  have pr2: "probe_maps p BACKWARD (?pol1, Some (swap_endpoint e), True) m2 =
      (m3, ?pol2, Some e, True)"
    using h2 by (simp add: probe_maps_def)
  have r2: "\<exists>l2. fast_direction p BACKWARD
        (set_fast_cache l1 p ?c2, ?pol1, Some (swap_endpoint e), True, False, True) =
      Some (l2, ?pol2, Some e, True, True, True)"
    using pr2 by (simp add: fast_direction_cell [OF c2] k1 cell2)
  then obtain l2 where r2': "fast_direction p BACKWARD
        (set_fast_cache l1 p ?c2, ?pol1, Some (swap_endpoint e), True, False, True) =
      Some (l2, ?pol2, Some e, True, True, True)"
    by blast
  have "\<exists>l3. GetPolicyByFastPath l1 p = Some (l3, p, Some e, Policy ?pol2)"
    using r1 r2' by (simp add: GetPolicyByFastPath_def en1 n1 Let_def)
  moreover have "AclActions ?pol2 =
         action_union
           (action_union []
              (map (SetDirections FORWARD)
                 (action_union [] (AclActions (fst (first_backward l p))))))
           (map (SetDirections BACKWARD)
              (action_union [] (AclActions (fst (first_backward l p)))))"
    by (simp add: Merge_def empty_PolicyData_def)
  ultimately show ?thesis by blast
qed



lemma fresh_similar: "\<forall>k. lru_peek k c' = lru_peek k c \<Longrightarrow> fresh_at p k c' = fresh_at p k c"
  by (simp add: fresh_at_def)


lemma seeded_present: "seeded e p d pol vpol m \<Longrightarrow> present e p d m"
  by (auto simp: seeded_def present_def fresh_at_def split: if_splits)

lemma present_port_any:
  assumes "caps_ok m" and "SrcMac p \<noteq> DstMac p \<or> epc_of (SrcInfo e) = epc_of (DstInfo e)"
    and "d = FORWARD \<longrightarrow> \<not> 0 < Vlan p"
  shows "present e p d (seed_port e p pol d m)"
  using seeded_port_any [OF assms, of pol] by (rule seeded_present)

lemma present_forward_vlan:
  assumes "caps_ok m" and "SrcMac p \<noteq> DstMac p \<or> epc_of (SrcInfo e) = epc_of (DstInfo e)"
    and "0 < Vlan p"
  shows "present e p FORWARD (seed_port e p pol FORWARD (seed_vlan e p vpol FORWARD m))"
  using seeded_forward_vlan [OF assms, of pol vpol] by (rule seeded_present)








section \<open>The two tiers on examples\<close>

lemma list4:
  "replicate 4 x = [x, x, x, x]"
  "[a, b, c, d][2 := y] = [a, b, y, d]"
  "[a, b, c, d] ! 2 = c"
  "[1 ..< 4] = [1, 2, 3]"
  "map f [0 ..< 4] = [f 0, f 1, f 2, f 3]"
  by (simp_all add: numeral_eq_Suc upt_rec)

lemma ex_rule_fields:
  "Type ex_rule = 2" "Acl.Vlan ex_rule = 0" "Id ex_rule = 5" "Acl.Proto ex_rule = 0"
  "Action ex_rule = [\<lparr>action_id = 7, directions = {}\<rparr>]"
  "DstPorts ex_rule = []" "SrcGroups ex_rule = [(3, 3)]" "DstGroups ex_rule = [(4, 4)]"
  by (simp_all add: ex_rule_def)

lemma ex_taps_fields:
  "TAP_ANY ex_taps = 0" "TAP_MIN ex_taps = 1" "TAP_MAX ex_taps = 4"
  "CheckTapType ex_taps 2" "tap_writable ex_taps 2"
  by (simp_all add: ex_taps_def tap_writable_def)

lemma ex_rule_keys: "generateGroupPortsKeys ex_rule FORWARD = [3145732]"
  by (simp add: generateGroupPortsKeys_def ex_rule_fields mapToSlice_def generateGroupPortKeys_eq
      port_keys_of_def or_any_def pack_port_key_def ANY_PORT_def)

lemma ex_port_maps:
  "GenerateGroupPortMaps ex_taps l [ex_rule]
     = Some (l\<lparr>GroupPortPolicyMaps := [Map.empty, Map.empty, [3145732 \<mapsto> ex_policy], Map.empty]\<rparr>)"
  by (simp add: GenerateGroupPortMaps_def ex_taps_fields ex_rule_fields list4 ex_rule_keys
      Merge_def empty_PolicyData_def ex_policy_def)

lemma ex_vlan_maps:
  "GenerateGroupVlanMaps ex_taps l [ex_rule]
     = Some (l\<lparr>GroupVlanPolicyMaps := [Map.empty, Map.empty, Map.empty, Map.empty]\<rparr>)"
  by (simp add: GenerateGroupVlanMaps_def ex_taps_fields ex_rule_fields list4)

lemma ex_interest_maps:
  "GenerateInterestMaps ex_taps l [ex_rule]
     = Some (l\<lparr>InterestGroupMaps := [\<lambda>_. False, \<lambda>_. False, (\<lambda>_. False)(4 := True, 3 := True), \<lambda>_. False],
               InterestProtoMaps := [\<lambda>_. False, \<lambda>_. False, (\<lambda>_. False)(0 := True), \<lambda>_. False],
               InterestPortMaps := [\<lambda>_. False, \<lambda>_. False, \<lambda>_. False, \<lambda>_. False]\<rparr>)"
  by (simp add: GenerateInterestMaps_def ex_taps_fields ex_rule_fields list4)

lemma ex_expand: "expand_any ex_taps [ex_rule] = [ex_rule]"
  by (simp add: expand_any_def ex_taps_fields ex_rule_fields)

lemma ex_rules_eq:
  "ex_rules = ex_label
     \<lparr>RawAcls := [ex_rule],
      GroupPortPolicyMaps := [Map.empty, Map.empty, [3145732 \<mapsto> ex_policy], Map.empty],
      GroupVlanPolicyMaps := [Map.empty, Map.empty, Map.empty, Map.empty],
      InterestGroupMaps := [\<lambda>_. False, \<lambda>_. False, (\<lambda>_. False)(4 := True, 3 := True), \<lambda>_. False],
      InterestProtoMaps := [\<lambda>_. False, \<lambda>_. False, (\<lambda>_. False)(0 := True), \<lambda>_. False],
      InterestPortMaps := [\<lambda>_. False, \<lambda>_. False, \<lambda>_. False, \<lambda>_. False]\<rparr>"
  by (simp add: ex_rules_def UpdateAcls_def Let_def ex_expand ex_port_maps ex_vlan_maps
      ex_interest_maps)

lemma ex_rules_fields:
  "InterestGroupMaps ex_rules = [\<lambda>_. False, \<lambda>_. False, (\<lambda>_. False)(4 := True, 3 := True), \<lambda>_. False]"
  "InterestProtoMaps ex_rules = [\<lambda>_. False, \<lambda>_. False, (\<lambda>_. False)(0 := True), \<lambda>_. False]"
  "InterestPortMaps ex_rules = [\<lambda>_. False, \<lambda>_. False, \<lambda>_. False, \<lambda>_. False]"
  "GroupPortPolicyMaps ex_rules = [Map.empty, Map.empty, [3145732 \<mapsto> ex_policy], Map.empty]"
  "GroupVlanPolicyMaps ex_rules = [Map.empty, Map.empty, Map.empty, Map.empty]"
  "FastPolicyMaps ex_rules = [[None, Some (lru_New 0), Some (lru_New 0), Some (lru_New 0)]]"
  "IpNetmaskMap ex_rules = Map.empty"
  "\<not> FastPathDisable ex_rules"
  by (simp_all add: ex_rules_eq ex_label_def NewPolicyLabel_def ex_taps_fields list4)


lemma ex_key_fields:
  "Tap (ex_key a) = 2" "FastIndex (ex_key a) = 0" "Vlan (ex_key a) = 0"
  "SrcMac (ex_key a) = 11" "DstMac (ex_key a) = 12" "SrcIp (ex_key a) = 0x0A000001"
  "DstIp (ex_key a) = a" "SrcPort (ex_key a) = 0" "DstPort (ex_key a) = 0"
  "LookupKey.Proto (ex_key a) = 0" "SrcGroupIds (ex_key a) = [3, 0]"
  "DstGroupIds (ex_key a) = [4, 0]"
  by (simp_all add: ex_key_def)


lemma ex_generate_rules:
  "generateInterestKeys ex_rules (ex_peers x) (ex_query a) = Some (ex_key a)"
  by (simp add: generateInterestKeys_def getFastInterestKeys_def ex_rules_fields list4
      ex_peers_def ex_info_def ex_query_def ex_key_def ANY_GROUP_def ANY_PORT_def ANY_PROTO_def)


lemma ex_cache_rules: "fast_cache ex_rules (ex_key a) = Some (lru_New 0)"
  by (simp add: fast_cache_def ex_rules_fields ex_key_fields list4)


lemma ex_search_keys:
  "generateSearchPortKeys [3, 0] [4, 0] 0 0 = [3145732, 3145728, 4, 0]"
  "generateSearchPortKeys [4, 0] [3, 0] 0 0 = [4194307, 4194304, 3, 0]"
  by (simp_all add: generateSearchPortKeys_def generateGroupPortKeys_eq port_keys_of_def
      or_any_def pack_port_key_def Let_def)

lemma ex_first_rules:
  "first_vlan ex_rules (ex_key a) = (empty_PolicyData, False)"
  "first_forward ex_rules (ex_key a) = (ex_forward, True)"
  "first_backward ex_rules (ex_key a) = (empty_PolicyData, True)"
  by (simp_all add: first_vlan_def first_forward_def first_backward_def ex_key_fields
      ex_rules_fields list4 ex_search_keys ex_policy_def ex_forward_def Merge_def
      empty_PolicyData_def SetDirections_def)

lemma ex_result_rules:
  "first_merged ex_rules (ex_key a) = ex_forward"
  "first_result ex_rules (ex_key a) = Policy ex_forward"
  by (simp_all add: first_result_def first_merged_def ex_first_rules ex_forward_def Merge_def
      empty_PolicyData_def SetDirections_def)


lemma ex_epc: "epc_of (ex_info g 7) = 7" "epc_of (ex_info g 8) = 8"
  by (simp_all add: epc_of_def addEpcMap_def ex_info_def Let_def word_sless_alt)

lemma ex_subnet_rules:
  "fast_subnet_key ex_rules (ex_key 0x0A010002) FORWARD = 0x0A0100000A000000"
  "fast_subnet_key ex_rules (ex_key 0x0A010002) BACKWARD = 0x0A0000000A010000"
  "fast_subnet_key ex_rules (ex_key 0x0A000002) FORWARD = 0x0A0000000A000000"
  "fast_subnet_key ex_rules (ex_key 0x0A000002) BACKWARD = 0x0A0000000A000000"
  by (simp_all add: fast_subnet_key_def ex_rules_fields ex_key_fields mask_of_def Let_def)


lemma ex_first_path_rules:
  "GetPolicyByFirstPath ex_rules (ex_peers x) (ex_query a) =
     Some ((set_fast_cache ex_rules (ex_key a)
              (first_cell ex_rules (ex_peers x) (ex_key a) (lru_New 0)))
             \<lparr>FirstPathHit := FirstPathHit ex_rules + 1,
                FirstPathHitTick := FirstPathHitTick ex_rules + 1\<rparr>,
           ex_key a, Policy ex_forward)"
proof -
  have t: "Tap (ex_key a) < length (GroupPortPolicyMaps ex_rules)"
    "Tap (ex_key a) < length (GroupVlanPolicyMaps ex_rules)"
    by (simp_all add: ex_key_fields ex_rules_fields)
  from GetPolicyByFirstPath_cell [OF ex_generate_rules t ex_cache_rules]
  show ?thesis by (simp only: ex_result_rules)
qed


section \<open>The consistency of the two tiers\<close>

text \<open>
  Where the two tiers agree. Let \<open>GetPolicyByFirstPath\<close> return a policy \<open>P\<close> other
  than \<open>INVALID_POLICY_DATA\<close>, leaving the key as \<open>p\<close> (in Go the key is changed in
  place and the same pointer goes to the fast path). If the fast path is enabled, the
  cache of the worker and tap type either has a capacity other than 1 or the two subnet
  keys of \<open>p\<close> are equal, every map already in it has the capacities
  \<open>getVlanAndPortMap\<close> gives a new map, and the entries the two directions write do not
  collide (\<open>no_collision\<close>: the two MACs differ or the two EPC ids are equal; and if the
  two subnet keys are equal, the two port keys differ and, for a key with a vlan, the two
  vlan keys differ), then the \<open>GetPolicyByFastPath\<close> that follows on the same key
  returns the endpoint and a policy with exactly the actions of \<open>P\<close>, in the same
  order and with the same direction tags.
\<close>

lemma tiers_agree_without_collision:
  assumes "GetPolicyByFirstPath l e key = Some (l1, p, Policy P)"
    and "\<not> FastPathDisable l"
    and "fast_cache l p = Some c"
    and "cell_ok l p c"
    and "no_collision l e p"
  shows "\<exists>l2 Q. GetPolicyByFastPath l1 p = Some (l2, p, Some e, Policy Q)
     \<and> AclActions Q = AclActions P"
proof -
  from GetPolicyByFirstPath_result [OF assms(1)]
  have "first_result l p = Policy P" by simp
  then have "first_merged l p = P"
    by (simp add: first_result_def split: if_splits)
  with fast_after_first [OF assms] show ?thesis by simp
qed

lemma tiers_agree_instance:
  "\<exists>l1. GetPolicyByFirstPath ex_rules (ex_peers 8) (ex_query 0x0A010002)
           = Some (l1, ex_key 0x0A010002, Policy ex_forward)
     \<and> \<not> FastPathDisable ex_rules
     \<and> fast_cache ex_rules (ex_key 0x0A010002) = Some (lru_New 0)
     \<and> cell_ok ex_rules (ex_key 0x0A010002) (lru_New 0)
     \<and> no_collision ex_rules (ex_peers 8) (ex_key 0x0A010002)
     \<and> (\<exists>l2 Q. GetPolicyByFastPath l1 (ex_key 0x0A010002)
                   = Some (l2, ex_key 0x0A010002, Some (ex_peers 8), Policy Q)
               \<and> AclActions Q = [\<lparr>action_id = 7, directions = {FORWARD}\<rparr>])"
proof -
  let ?p = "ex_key 0x0A010002" and ?e = "ex_peers 8"
  note fp = ex_first_path_rules [of 8 "0x0A010002"]
  have en: "\<not> FastPathDisable ex_rules"
    by (simp add: ex_rules_fields)
  have ok: "cell_ok ex_rules ?p (lru_New 0)"
    by (simp add: cell_ok_def lru_New_def)
  have nc: "no_collision ex_rules ?e ?p"
    by (simp add: no_collision_def ex_key_fields ex_subnet_rules)
  from tiers_agree_without_collision [OF fp en ex_cache_rules ok nc]
  obtain l2 Q where "GetPolicyByFastPath
      ((set_fast_cache ex_rules ?p (first_cell ex_rules ?e ?p (lru_New 0)))
         \<lparr>FirstPathHit := FirstPathHit ex_rules + 1,
            FirstPathHitTick := FirstPathHitTick ex_rules + 1\<rparr>) ?p
      = Some (l2, ?p, Some ?e, Policy Q)"
    and "AclActions Q = [\<lparr>action_id = 7, directions = {FORWARD}\<rparr>]"
    by (auto simp: ex_forward_def)
  with fp en ex_cache_rules [of "0x0A010002"] ok nc show ?thesis
    by blast
qed

text \<open>
  C1, at the failing input: two endpoints of one EPC (id 7) in one /16 subnet, in the
  groups 3 and 4, and a query between them whose ports and protocol are of no interest to
  any rule, on the classifier that has compiled the rule from group 3 to group 4, with
  the fast path enabled and caches without a bound. The first path finds the rule in the
  forward direction only and returns its action tagged forward. It seeds the forward
  entry and then the backward entry, which has no action; both go to the map of the
  subnet key \<open>10.0.0.0 | 10.0.0.0\<close> under the port key of EPC 7, EPC 7, protocol 0,
  port 0, so the second replaces the first. The fast path that follows on the same key
  finds the backward entry in both directions and returns the endpoint with a policy
  that has no action.
\<close>

theorem tier_mismatch_on_same_keys:
  "\<exists>l1. GetPolicyByFirstPath ex_rules (ex_peers 7) (ex_query 0x0A000002)
           = Some (l1, ex_key 0x0A000002, Policy ex_forward)
     \<and> AclActions ex_forward = [\<lparr>action_id = 7, directions = {FORWARD}\<rparr>]
     \<and> (\<exists>l2 Q. GetPolicyByFastPath l1 (ex_key 0x0A000002)
                   = Some (l2, ex_key 0x0A000002, Some (ex_peers 7), Policy Q)
               \<and> AclActions Q = [])"
proof -
  let ?p = "ex_key 0x0A000002" and ?e = "ex_peers 7"
  note fp = ex_first_path_rules [of 7 "0x0A000002"]
  have en: "\<not> FastPathDisable ex_rules"
    by (simp add: ex_rules_fields)
  have caps: "list_all (\<lambda>entry. caps_ok (snd entry)) (entries (lru_New 0 :: (u64, VlanAndPortMap) Cache))"
    by (simp add: lru_New_def)
  have same: "fast_subnet_key ex_rules ?p FORWARD = fast_subnet_key ex_rules ?p BACKWARD"
    by (simp add: ex_subnet_rules)
  have pk: "port_key_of ?e ?p FORWARD = port_key_of ?e ?p BACKWARD"
    by (simp add: port_key_of_def ex_peers_def ex_epc ex_key_fields)
  have nv: "\<not> 0 < Vlan ?p"
    by (simp add: ex_key_fields)
  have mac: "SrcMac ?p \<noteq> DstMac ?p \<or> epc_of (SrcInfo ?e) = epc_of (DstInfo ?e)"
    by (simp add: ex_key_fields)
  from fast_after_first_same_keys [OF fp en ex_cache_rules caps same pk nv mac]
  obtain l2 Q where "GetPolicyByFastPath
      ((set_fast_cache ex_rules ?p (first_cell ex_rules ?e ?p (lru_New 0)))
         \<lparr>FirstPathHit := FirstPathHit ex_rules + 1,
            FirstPathHitTick := FirstPathHitTick ex_rules + 1\<rparr>) ?p
      = Some (l2, ?p, Some ?e, Policy Q)" and "AclActions Q = []"
    by (auto simp: ex_first_rules empty_PolicyData_def)
  with fp show ?thesis
    by (auto simp: ex_forward_def)
qed




end
